(* ===== verification/Prelude.thy ===== *)
theory Prelude
  imports Main "HOL-Library.Word"
begin

unbundle bit_operations_syntax

text \<open>
  Shared vocabulary of the development: Rust's fixed-width integers, the outcome of a Rust
  call (a value, an error, or a panic), the crate's error types (src/src/lib.rs and
  src/src/device/socket/error.rs), the page arithmetic of src/src/lib.rs, the little-endian
  byte encoding used by every wire format of the crate, and the generic lemmas on lists,
  words and outcomes that the component theories share.

  Conventions. A quantity of type \<^verbatim>\<open>usize\<close> that is a length or an index is a \<^typ>\<open>nat\<close>
  (a Rust slice is never longer than \<^verbatim>\<open>isize::MAX\<close>); a physical or virtual address is a
  64-bit word. Rust's plain \<open>+\<close>, \<open>-\<close> and \<open>*\<close> on \<^verbatim>\<open>u8\<close>..\<^verbatim>\<open>u64\<close> are modelled with the
  overflow check on (an overflow is a panic) unless a definition says otherwise;
  \<^verbatim>\<open>wrapping_add\<close> is addition of words.
\<close>

section \<open>Types\<close>

type_synonym u8 = "8 word"
type_synonym u16 = "16 word"
type_synonym u32 = "32 word"
type_synonym u64 = "64 word"
type_synonym bytes = "8 word list"
type_synonym PhysAddr = "64 word"

named_theorems outcome_simps
named_theorems le_simps

datatype SocketError =
    ConnectionExists
  | NotConnected
  | PeerSocketShutdown
  | BufferTooShort
  | OutputBufferTooShort nat
  | BufferTooLong nat nat
  | UnknownOperation u16
  | InvalidOperation
  | InvalidNumber
  | UnexpectedDataInPacket
  | InsufficientBufferSpaceInPeer
  | RecycledWrongBuffer

datatype Error =
    QueueFull
  | NotReady
  | WrongToken
  | AlreadyUsed
  | InvalidParam
  | DmaError
  | IoError
  | Unsupported
  | ConfigSpaceTooSmall
  | ConfigSpaceMissing
  | SocketDeviceError SocketError
  | InvalidDescriptor

section \<open>Outcomes of calls\<close>

text \<open>
  A call returns \<open>Ok v\<close>, returns \<open>Err e\<close>, panics, or is still spinning in a loop that waits
  for the other side when the model's bound on the iterations is reached (\<open>Diverge\<close>). A method
  with \<^verbatim>\<open>&mut self\<close> returns its outcome together with the state it leaves behind, also when it
  fails. The operator \<open>and_then\<close> is Rust's \<^verbatim>\<open>?\<close> followed by the rest of the body; \<open>lift_then\<close>
  is the same for a call on a field of \<^verbatim>\<open>self\<close>, where \<open>put\<close> stores the field back.
\<close>

datatype ('e, 'a) outcome = Ok 'a | Err 'e | Panic | Diverge

type_synonym 'a result = "(Error, 'a) outcome"

definition lift_then ::
  "('e, 'a) outcome \<times> 's \<Rightarrow> ('s \<Rightarrow> 't) \<Rightarrow> ('a \<Rightarrow> 's \<Rightarrow> ('e, 'b) outcome \<times> 't) \<Rightarrow> ('e, 'b) outcome \<times> 't"
where
  "lift_then r put f =
     (case fst r of
        Ok a \<Rightarrow> f a (snd r)
      | Err e \<Rightarrow> (Err e, put (snd r))
      | Panic \<Rightarrow> (Panic, put (snd r))
      | Diverge \<Rightarrow> (Diverge, put (snd r)))"

definition and_then ::
  "('e, 'a) outcome \<times> 's \<Rightarrow> ('a \<Rightarrow> 's \<Rightarrow> ('e, 'b) outcome \<times> 's) \<Rightarrow> ('e, 'b) outcome \<times> 's"
where
  "and_then r f = lift_then r (\<lambda>s. s) f"

lemma lift_then_simps [simp, outcome_simps]:
  "lift_then (Ok a, s) put f = f a s"
  "lift_then (Err e, s) put f = (Err e, put s)"
  "lift_then (Panic, s) put f = (Panic, put s)"
  "lift_then (Diverge, s) put f = (Diverge, put s)"
  by (simp_all add: lift_then_def)

lemma and_then_simps [simp, outcome_simps]:
  "and_then (Ok a, s) f = f a s"
  "and_then (Err e, s) f = (Err e, s)"
  "and_then (Panic, s) f = (Panic, s)"
  "and_then (Diverge, s) f = (Diverge, s)"
  by (simp_all add: and_then_def)

lemma and_then_Ok_iff:
  "and_then r f = (Ok b, t) \<longleftrightarrow> (\<exists>a s. r = (Ok a, s) \<and> f a s = (Ok b, t))"
  by (cases r; cases "fst r") (auto simp: and_then_def lift_then_def)

lemma lift_then_Ok_iff:
  "lift_then r put f = (Ok b, t) \<longleftrightarrow> (\<exists>a s. r = (Ok a, s) \<and> f a s = (Ok b, t))"
  by (cases r; cases "fst r") (auto simp: lift_then_def)

text \<open>As \<open>and_then\<close>, with code \<open>h\<close> that runs when the call fails: the drops of an early return.\<close>

definition then_or ::
  "('e, 'a) outcome \<times> 's \<Rightarrow> ('e \<Rightarrow> 's \<Rightarrow> ('e, 'b) outcome \<times> 's) \<Rightarrow>
     ('a \<Rightarrow> 's \<Rightarrow> ('e, 'b) outcome \<times> 's) \<Rightarrow> ('e, 'b) outcome \<times> 's"
where
  "then_or r h f =
     (case fst r of
        Ok a \<Rightarrow> f a (snd r)
      | Err e \<Rightarrow> h e (snd r)
      | Panic \<Rightarrow> (Panic, snd r)
      | Diverge \<Rightarrow> (Diverge, snd r))"

lemma then_or_simps [simp, outcome_simps]:
  "then_or (Ok a, s) h f = f a s"
  "then_or (Err e, s) h f = h e s"
  "then_or (Panic, s) h f = (Panic, s)"
  "then_or (Diverge, s) h f = (Diverge, s)"
  by (simp_all add: then_or_def)

lemma then_or_Ok_iff:
  "then_or r h f = (Ok b, t) \<longleftrightarrow>
     (\<exists>a s. r = (Ok a, s) \<and> f a s = (Ok b, t)) \<or> (\<exists>e s. r = (Err e, s) \<and> h e s = (Ok b, t))"
  by (cases r; cases "fst r") (auto simp: then_or_def)

text \<open>The outcome of a pure computation continued by another one.\<close>

definition bind_ok :: "('e, 'a) outcome \<Rightarrow> ('a \<Rightarrow> ('e, 'b) outcome) \<Rightarrow> ('e, 'b) outcome" where
  "bind_ok r f = (case r of Ok a \<Rightarrow> f a | Err e \<Rightarrow> Err e | Panic \<Rightarrow> Panic | Diverge \<Rightarrow> Diverge)"

lemma bind_ok_simps [simp, outcome_simps]:
  "bind_ok (Ok a) f = f a"
  "bind_ok (Err e) f = Err e"
  "bind_ok Panic f = Panic"
  "bind_ok Diverge f = Diverge"
  by (simp_all add: bind_ok_def)

lemma bind_ok_Ok_iff: "bind_ok r f = Ok b \<longleftrightarrow> (\<exists>a. r = Ok a \<and> f a = Ok b)"
  by (cases r) auto

definition map_err :: "('e \<Rightarrow> 'f) \<Rightarrow> ('e, 'a) outcome \<Rightarrow> ('f, 'a) outcome" where
  "map_err g r = (case r of Ok a \<Rightarrow> Ok a | Err e \<Rightarrow> Err (g e) | Panic \<Rightarrow> Panic | Diverge \<Rightarrow> Diverge)"

lemma map_err_simps [simp, outcome_simps]:
  "map_err g (Ok a) = Ok a"
  "map_err g (Err e) = Err (g e)"
  "map_err g Panic = Panic"
  "map_err g Diverge = Diverge"
  by (simp_all add: map_err_def)

definition ok_or :: "'e \<Rightarrow> 'a option \<Rightarrow> ('e, 'a) outcome" where
  "ok_or e x = (case x of Some a \<Rightarrow> Ok a | None \<Rightarrow> Err e)"

lemma ok_or_simps [simp, outcome_simps]: "ok_or e (Some a) = Ok a" "ok_or e None = Err e"
  by (simp_all add: ok_or_def)

section \<open>Page arithmetic\<close>

definition PAGE_SIZE :: nat where
  "PAGE_SIZE = 0x1000"

text \<open>
  \<^verbatim>\<open>(size + PAGE_SIZE) & !(PAGE_SIZE - 1)\<close>: since \<^verbatim>\<open>PAGE_SIZE\<close> is a power of two, masking
  off the low twelve bits rounds down to a multiple of it.
\<close>

definition align_up :: "nat \<Rightarrow> nat" where
  "align_up n = unat ((of_nat (n + PAGE_SIZE) :: u64) AND NOT (of_nat PAGE_SIZE - 1))"

definition pages :: "nat \<Rightarrow> nat" where
  "pages n = (n + PAGE_SIZE - 1) div PAGE_SIZE"

section \<open>Little-endian encoding\<close>

fun le_bytes :: "nat \<Rightarrow> 'a::len word \<Rightarrow> bytes" where
  "le_bytes 0 w = []"
| "le_bytes (Suc n) w = ucast w # le_bytes n (drop_bit 8 w)"

fun from_le :: "bytes \<Rightarrow> 'a::len word" where
  "from_le [] = 0"
| "from_le (b # bs) = ucast b OR push_bit 8 (from_le bs)"

lemma length_le_bytes [simp]: "length (le_bytes n w) = n"
  by (induction n arbitrary: w) auto

lemma from_le_le_bytes: "from_le (le_bytes n w) = take_bit (8 * n) w"
proof (induction n arbitrary: w)
  case 0
  then show ?case by simp
next
  case (Suc n)
  have "ucast (ucast w :: u8) OR push_bit 8 (take_bit (8 * n) (drop_bit 8 w)) = take_bit (8 * Suc n) w"
    by (rule bit_word_eqI) (auto simp: bit_simps)
  with Suc show ?case by simp
qed

lemma from_le_full [simp]:
  "from_le (le_bytes 8 (w :: u64)) = w" "from_le (le_bytes 4 (v :: u32)) = v" "from_le (le_bytes 2 (x :: u16)) = x"
  by (simp_all add: from_le_le_bytes take_bit_word_eq_self)

lemma bit_from_le: "bit (from_le bs :: 'a::len word) i \<Longrightarrow> i < 8 * length bs"
proof (induction bs arbitrary: i)
  case (Cons b bs)
  then show ?case
    by (cases "i < 8") (auto simp: bit_simps dest: bit_imp_le_length dest!: Cons.IH)
qed simp

lemma le_bytes_from_le:
  assumes "length bs = n" "8 * n \<le> LENGTH('a)"
  shows "le_bytes n (from_le bs :: 'a::len word) = bs"
  using assms
proof (induction bs arbitrary: n)
  case (Cons b bs)
  then obtain k where k: "n = Suc k" "length bs = k" "8 * k + 8 \<le> LENGTH('a)" by (cases n) auto
  have "ucast (ucast b OR push_bit 8 (from_le bs :: 'a word)) = b"
    by (rule bit_word_eqI) (use k(3) in \<open>auto simp: bit_simps\<close>)
  moreover have "drop_bit 8 (ucast b OR push_bit 8 (from_le bs)) = (from_le bs :: 'a word)"
  proof (rule bit_word_eqI)
    fix i assume "i < LENGTH('a)"
    have "\<not> bit b (8 + i)" by (auto dest: bit_imp_le_length)
    then show "bit (drop_bit 8 (ucast b OR push_bit 8 (from_le bs) :: 'a word)) i = bit (from_le bs :: 'a word) i"
      using k(2,3) bit_from_le [of bs i, where 'a = 'a] by (auto simp: bit_simps)
  qed
  ultimately show ?case using k Cons.IH [of k] by simp
qed simp

section \<open>Facts on the page arithmetic\<close>

lemma and_not_low_mask: "(w :: 'a::len word) AND NOT (mask k) = push_bit k (drop_bit k w)"
  by (rule bit_word_eqI) (auto simp: bit_simps)

lemma unat_and_not_mask:
  "unat ((w :: 'a::len word) AND NOT (mask k)) = take_bit LENGTH('a) (unat w div 2 ^ k * 2 ^ k)"
proof -
  have "unat (push_bit k (drop_bit k w)) = take_bit LENGTH('a) (push_bit k (drop_bit k (unat w)))"
    by (simp add: unsigned_push_bit_eq unsigned_drop_bit_eq del: push_bit_eq_mult drop_bit_eq_div add: take_bit_nat_eq_self flip: push_bit_eq_mult drop_bit_eq_div)
  then show ?thesis by (simp add: and_not_low_mask push_bit_eq_mult drop_bit_eq_div)
qed

lemma align_up_eq:
  assumes "n + PAGE_SIZE < 2 ^ 64"
  shows "align_up n = (n div PAGE_SIZE + 1) * PAGE_SIZE"
proof -
  have m: "(of_nat PAGE_SIZE - 1 :: u64) = mask 12"
    by (simp add: PAGE_SIZE_def mask_eq_exp_minus_1)
  have "unat (of_nat (n + PAGE_SIZE) :: u64) = n + PAGE_SIZE"
    using assms by (simp add: unat_of_nat take_bit_eq_mod del: of_nat_add)
  then have "align_up n = take_bit 64 ((n + PAGE_SIZE) div 2 ^ 12 * 2 ^ 12)"
    by (simp only: align_up_def m unat_and_not_mask word_size len_bit0 len_num1) simp
  moreover have "(n + PAGE_SIZE) div 2 ^ 12 * 2 ^ 12 < 2 ^ 64"
    using assms by (metis div_times_less_eq_dividend le_less_trans)
  moreover have "(n + PAGE_SIZE) div 2 ^ 12 = n div PAGE_SIZE + 1"
    using div_add_self2 [of PAGE_SIZE n] by (simp add: PAGE_SIZE_def)
  ultimately show ?thesis by (simp add: take_bit_eq_mod PAGE_SIZE_def)
qed

lemma pages_bound: "n \<le> pages n * PAGE_SIZE" "pages n * PAGE_SIZE < n + PAGE_SIZE"
proof -
  have "(n + PAGE_SIZE - 1) div PAGE_SIZE * PAGE_SIZE + (n + PAGE_SIZE - 1) mod PAGE_SIZE = n + PAGE_SIZE - 1"
    by (rule div_mult_mod_eq)
  moreover have "(n + PAGE_SIZE - 1) mod PAGE_SIZE < PAGE_SIZE" by (simp add: PAGE_SIZE_def)
  ultimately show "n \<le> pages n * PAGE_SIZE" "pages n * PAGE_SIZE < n + PAGE_SIZE"
    unfolding pages_def by linarith+
qed

lemma align_up_bounds:
  assumes "n + PAGE_SIZE < 2 ^ 64"
  shows "n < align_up n" "PAGE_SIZE dvd align_up n"
  using assms dividend_less_div_times [of PAGE_SIZE n] by (simp_all add: align_up_eq PAGE_SIZE_def)

end
