(* ===== verification/Hal.thy ===== *)
theory Hal
  imports Prelude
begin

text \<open>
  The hardware abstraction layer, src/src/hal.rs: the direction of a buffer, DMA regions on
  the driver side (\<^verbatim>\<open>Dma\<close>) and on the device side (\<^verbatim>\<open>DeviceDma\<close>).

  The traits \<^verbatim>\<open>Hal\<close> and \<^verbatim>\<open>DeviceHal\<close> are implemented by the user of the crate, so they are
  parameters here: a record of functions that answer each call from the history of the calls
  made so far. Quantifying over such records covers every implementation, also a stateful
  one. The history itself is part of the model's state, so that theorems can speak about
  which buffers are shared with the device.
\<close>

section \<open>Buffers, directions and calls\<close>

datatype BufferDirection = DriverToDevice | DeviceToDriver | Both

text \<open>A \<^verbatim>\<open>NonNull<[u8]>\<close>: where the slice starts, and its contents.\<close>

record buf =
  b_ptr :: u64
  b_data :: bytes

definition buf_len :: "buf \<Rightarrow> nat" where
  "buf_len b = length (b_data b)"

text \<open>What a call of \<^verbatim>\<open>Hal::share\<close> or \<^verbatim>\<open>Hal::unshare\<close> is about.\<close>

record share_ent =
  e_ptr :: u64
  e_len :: nat
  e_dir :: BufferDirection
  e_paddr :: PhysAddr

datatype hal_event =
    Share share_ent
  | Unshare share_ent
  | DmaAlloc nat BufferDirection PhysAddr u64
  | DmaDealloc PhysAddr u64 nat

record hal =
  hal_dma_alloc :: "hal_event list \<Rightarrow> nat \<Rightarrow> BufferDirection \<Rightarrow> PhysAddr \<times> u64"
  hal_dma_dealloc :: "hal_event list \<Rightarrow> PhysAddr \<Rightarrow> u64 \<Rightarrow> nat \<Rightarrow> u32"
  hal_share :: "hal_event list \<Rightarrow> buf \<Rightarrow> BufferDirection \<Rightarrow> PhysAddr"
  hal_unshare_data :: "hal_event list \<Rightarrow> PhysAddr \<Rightarrow> buf \<Rightarrow> nat \<Rightarrow> u8"
  hal_box_ptr :: "hal_event list \<Rightarrow> nat \<Rightarrow> u64"

text \<open>
  \<^verbatim>\<open>H::share(buf, direction)\<close> returns an address for the device. \<^verbatim>\<open>H::unshare(paddr, buf,
  direction)\<close> may copy data back into the buffer: the bytes of a buffer the device writes
  become what the implementation says, one byte per position, so the length of the slice
  cannot change. A buffer the device only reads is behind a shared reference and keeps its
  contents. \<open>hal_box_ptr\<close> is the address the global allocator picks for a boxed slice.
\<close>

definition share_entry :: "buf \<Rightarrow> BufferDirection \<Rightarrow> PhysAddr \<Rightarrow> share_ent" where
  "share_entry b dir paddr = \<lparr>e_ptr = b_ptr b, e_len = buf_len b, e_dir = dir, e_paddr = paddr\<rparr>"

definition do_share :: "hal \<Rightarrow> hal_event list \<Rightarrow> buf \<Rightarrow> BufferDirection \<Rightarrow> PhysAddr \<times> hal_event list" where
  "do_share H log b dir =
     (let paddr = hal_share H log b dir in (paddr, log @ [Share (share_entry b dir paddr)]))"

definition do_unshare ::
  "hal \<Rightarrow> hal_event list \<Rightarrow> PhysAddr \<Rightarrow> buf \<Rightarrow> BufferDirection \<Rightarrow> buf \<times> hal_event list"
where
  "do_unshare H log paddr b dir =
     ((if dir = DriverToDevice then b
       else b\<lparr>b_data := map (hal_unshare_data H log paddr b) [0..<buf_len b]\<rparr>),
      log @ [Unshare (share_entry b dir paddr)])"

lemma buf_len_do_unshare [simp]: "buf_len (fst (do_unshare H log paddr b dir)) = buf_len b"
  by (simp add: do_unshare_def buf_len_def)

section \<open>DMA regions of the driver\<close>

record dma =
  dma_paddr :: PhysAddr
  dma_vaddr :: u64
  dma_pages :: nat

definition Dma_new :: "hal \<Rightarrow> hal_event list \<Rightarrow> nat \<Rightarrow> BufferDirection \<Rightarrow> dma result \<times> hal_event list" where
  "Dma_new H log n dir =
     (let (paddr, vaddr) = hal_dma_alloc H log n dir;
          log' = log @ [DmaAlloc n dir paddr vaddr]
      in if paddr = 0 then (Err DmaError, log')
         else (Ok \<lparr>dma_paddr = paddr, dma_vaddr = vaddr, dma_pages = n\<rparr>, log'))"

definition Dma_vaddr :: "'a dma_scheme \<Rightarrow> nat \<Rightarrow> ('e, u64) outcome" where
  "Dma_vaddr d offset =
     (if \<not> offset < dma_pages d * PAGE_SIZE then Panic
      else if 2 ^ 64 \<le> unat (dma_vaddr d) + offset then Panic
      else if dma_vaddr d + of_nat offset = 0 then Panic
      else Ok (dma_vaddr d + of_nat offset))"

definition Dma_raw_slice :: "'a dma_scheme \<Rightarrow> ('e, u64 \<times> nat) outcome" where
  "Dma_raw_slice d = bind_ok (Dma_vaddr d 0) (\<lambda>v. Ok (v, dma_pages d * PAGE_SIZE))"

definition Dma_drop :: "hal \<Rightarrow> hal_event list \<Rightarrow> dma \<Rightarrow> unit result \<times> hal_event list" where
  "Dma_drop H log d =
     (let err = hal_dma_dealloc H log (dma_paddr d) (dma_vaddr d) (dma_pages d);
          log' = log @ [DmaDealloc (dma_paddr d) (dma_vaddr d) (dma_pages d)]
      in if err \<noteq> 0 then (Panic, log') else (Ok (), log'))"

section \<open>DMA regions of the device\<close>

record device_dma = dma +
  dma_client_id :: u16

datatype map_event =
    DmaMap PhysAddr nat BufferDirection u16
  | DmaUnmap PhysAddr u64 nat

record device_hal =
  dh_dma_map :: "map_event list \<Rightarrow> PhysAddr \<Rightarrow> nat \<Rightarrow> BufferDirection \<Rightarrow> u16 \<Rightarrow> u64 result"
  dh_dma_unmap :: "map_event list \<Rightarrow> PhysAddr \<Rightarrow> u64 \<Rightarrow> nat \<Rightarrow> u32"

definition DeviceDma_eq :: "device_dma \<Rightarrow> device_dma \<Rightarrow> bool" where
  "DeviceDma_eq a b \<longleftrightarrow>
     dma_paddr a = dma_paddr b \<and> dma_vaddr a = dma_vaddr b \<and> dma_pages a = dma_pages b"

definition DeviceDma_new ::
  "device_hal \<Rightarrow> map_event list \<Rightarrow> PhysAddr \<Rightarrow> nat \<Rightarrow> BufferDirection \<Rightarrow> u16
     \<Rightarrow> device_dma result \<times> map_event list"
where
  "DeviceDma_new H log paddr n dir client =
     lift_then (dh_dma_map H log paddr n dir client, log @ [DmaMap paddr n dir client]) (\<lambda>l. l)
       (\<lambda>vaddr l. (Ok \<lparr>dma_paddr = paddr, dma_vaddr = vaddr, dma_pages = n, dma_client_id = client\<rparr>, l))"

definition DeviceDma_drop :: "device_hal \<Rightarrow> map_event list \<Rightarrow> device_dma \<Rightarrow> unit result \<times> map_event list" where
  "DeviceDma_drop H log d =
     (let err = dh_dma_unmap H log (dma_paddr d) (dma_vaddr d) (dma_pages d);
          log' = log @ [DmaUnmap (dma_paddr d) (dma_vaddr d) (dma_pages d)]
      in if err \<noteq> 0 then (Panic, log') else (Ok (), log'))"

end
