(* ===== verification/Transport.thy ===== *)
theory Transport
  imports Prelude
begin

text \<open>
  The transport interface, src/src/transport/mod.rs: device status and interrupt flags, device
  types, the trait \<^verbatim>\<open>Transport\<close> with its provided methods \<^verbatim>\<open>try_set_status\<close>, \<^verbatim>\<open>begin_init\<close>,
  \<^verbatim>\<open>finish_init\<close> and \<^verbatim>\<open>read_consistent\<close>, and the feature bits of src/src/device/common.rs.

  A Rust trait is a dictionary of methods; \<open>'t transport\<close> is that dictionary over a state
  \<open>'t\<close>. The provided methods are definitions over the dictionary, and the theories of the
  concrete transports build dictionaries from the code of their \<^verbatim>\<open>impl Transport\<close> blocks.
  The locale \<open>transport_total\<close> is what a driver's initialisation relies on.
\<close>

section \<open>Flags\<close>

text \<open>\<^verbatim>\<open>bitflags\<close>: \<^verbatim>\<open>contains\<close> and \<^verbatim>\<open>from_bits_truncate\<close> over the bits of the flag type.\<close>

definition contains :: "'a::len word \<Rightarrow> 'a word \<Rightarrow> bool" where
  "contains x f \<longleftrightarrow> x AND f = f"

definition from_bits_truncate :: "'a::len word \<Rightarrow> 'a word \<Rightarrow> 'a word" where
  "from_bits_truncate all_bits x = x AND all_bits"

definition ACKNOWLEDGE :: u32 where "ACKNOWLEDGE = 1"
definition DRIVER :: u32 where "DRIVER = 2"
definition FAILED :: u32 where "FAILED = 128"
definition FEATURES_OK :: u32 where "FEATURES_OK = 8"
definition DRIVER_OK :: u32 where "DRIVER_OK = 4"
definition DEVICE_NEEDS_RESET :: u32 where "DEVICE_NEEDS_RESET = 64"

definition DeviceStatus_all :: u32 where
  "DeviceStatus_all =
     ACKNOWLEDGE OR DRIVER OR FAILED OR FEATURES_OK OR DRIVER_OK OR DEVICE_NEEDS_RESET"

lemmas status_defs =
  ACKNOWLEDGE_def DRIVER_def FAILED_def FEATURES_OK_def DRIVER_OK_def DEVICE_NEEDS_RESET_def

definition QUEUE_INTERRUPT :: u32 where "QUEUE_INTERRUPT = 1"
definition DEVICE_CONFIGURATION_INTERRUPT :: u32 where "DEVICE_CONFIGURATION_INTERRUPT = 2"

definition InterruptStatus_all :: u32 where
  "InterruptStatus_all = QUEUE_INTERRUPT OR DEVICE_CONFIGURATION_INTERRUPT"

text \<open>The device-independent feature bits (\<^verbatim>\<open>Feature\<close> in src/src/device/common.rs).\<close>

definition NOTIFY_ON_EMPTY :: u64 where "NOTIFY_ON_EMPTY = push_bit 24 1"
definition ANY_LAYOUT :: u64 where "ANY_LAYOUT = push_bit 27 1"
definition RING_INDIRECT_DESC :: u64 where "RING_INDIRECT_DESC = push_bit 28 1"
definition RING_EVENT_IDX :: u64 where "RING_EVENT_IDX = push_bit 29 1"
definition UNUSED :: u64 where "UNUSED = push_bit 30 1"
definition VERSION_1 :: u64 where "VERSION_1 = push_bit 32 1"
definition ACCESS_PLATFORM :: u64 where "ACCESS_PLATFORM = push_bit 33 1"
definition RING_PACKED :: u64 where "RING_PACKED = push_bit 34 1"
definition IN_ORDER :: u64 where "IN_ORDER = push_bit 35 1"
definition ORDER_PLATFORM :: u64 where "ORDER_PLATFORM = push_bit 36 1"
definition SR_IOV :: u64 where "SR_IOV = push_bit 37 1"
definition NOTIFICATION_DATA :: u64 where "NOTIFICATION_DATA = push_bit 38 1"

definition Feature_all :: u64 where
  "Feature_all =
     NOTIFY_ON_EMPTY OR ANY_LAYOUT OR RING_INDIRECT_DESC OR RING_EVENT_IDX OR UNUSED OR VERSION_1
     OR ACCESS_PLATFORM OR RING_PACKED OR IN_ORDER OR ORDER_PLATFORM OR SR_IOV OR NOTIFICATION_DATA"

lemmas feature_defs =
  NOTIFY_ON_EMPTY_def ANY_LAYOUT_def RING_INDIRECT_DESC_def RING_EVENT_IDX_def UNUSED_def
  VERSION_1_def ACCESS_PLATFORM_def RING_PACKED_def IN_ORDER_def ORDER_PLATFORM_def SR_IOV_def
  NOTIFICATION_DATA_def

section \<open>Device types\<close>

datatype DeviceType =
    Invalid | Network | Block | Console | EntropySource | MemoryBallooning | IoMemory | Rpmsg
  | ScsiHost | Dev9P | Mac80211 | RprocSerial | VirtioCAIF | MemoryBalloon | GPU | Timer | Input
  | Socket | Crypto | SignalDistributionModule | Pstore | IOMMU | Memory | Sound

fun DeviceType_code :: "DeviceType \<Rightarrow> u8" where
  "DeviceType_code Invalid = 0"
| "DeviceType_code Network = 1"
| "DeviceType_code Block = 2"
| "DeviceType_code Console = 3"
| "DeviceType_code EntropySource = 4"
| "DeviceType_code MemoryBallooning = 5"
| "DeviceType_code IoMemory = 6"
| "DeviceType_code Rpmsg = 7"
| "DeviceType_code ScsiHost = 8"
| "DeviceType_code Dev9P = 9"
| "DeviceType_code Mac80211 = 10"
| "DeviceType_code RprocSerial = 11"
| "DeviceType_code VirtioCAIF = 12"
| "DeviceType_code MemoryBalloon = 13"
| "DeviceType_code GPU = 16"
| "DeviceType_code Timer = 17"
| "DeviceType_code Input = 18"
| "DeviceType_code Socket = 19"
| "DeviceType_code Crypto = 20"
| "DeviceType_code SignalDistributionModule = 21"
| "DeviceType_code Pstore = 22"
| "DeviceType_code IOMMU = 23"
| "DeviceType_code Memory = 24"
| "DeviceType_code Sound = 25"

definition DeviceType_table :: "(u32 \<times> DeviceType) list" where
  "DeviceType_table =
     [(1, Network), (2, Block), (3, Console), (4, EntropySource), (5, MemoryBalloon),
      (6, IoMemory), (7, Rpmsg), (8, ScsiHost), (9, Dev9P), (10, Mac80211), (11, RprocSerial),
      (12, VirtioCAIF), (13, MemoryBalloon), (16, GPU), (17, Timer), (18, Input), (19, Socket),
      (20, Crypto), (21, SignalDistributionModule), (22, Pstore), (23, IOMMU), (24, Memory),
      (25, Sound)]"

definition DeviceType_from_u32 :: "u32 \<Rightarrow> DeviceType" where
  "DeviceType_from_u32 n = (case map_of DeviceType_table n of Some d \<Rightarrow> d | None \<Rightarrow> Invalid)"

definition DeviceType_from_u16 :: "u16 \<Rightarrow> DeviceType" where
  "DeviceType_from_u16 n = DeviceType_from_u32 (ucast n)"

definition DeviceType_from_u8 :: "u8 \<Rightarrow> DeviceType" where
  "DeviceType_from_u8 n = DeviceType_from_u32 (ucast n)"

section \<open>The trait\<close>

text \<open>
  \<open>read_config_space offset size align\<close> is \<^verbatim>\<open>read_config_space::<T>(offset)\<close> for a type \<^verbatim>\<open>T\<close> of
  that size and alignment, returning its bytes; \<open>write_config_space\<close> takes the bytes of the
  value. Methods with \<^verbatim>\<open>&self\<close> also return the state: they may read device registers, and the
  history of accesses is part of the state.
\<close>

record 't transport =
  t_device_type :: "'t \<Rightarrow> DeviceType result \<times> 't"
  t_read_device_features :: "'t \<Rightarrow> u64 result \<times> 't"
  t_write_driver_features :: "u64 \<Rightarrow> 't \<Rightarrow> unit result \<times> 't"
  t_max_queue_size :: "u16 \<Rightarrow> 't \<Rightarrow> u32 result \<times> 't"
  t_notify :: "u16 \<Rightarrow> 't \<Rightarrow> unit result \<times> 't"
  t_get_status :: "'t \<Rightarrow> u32 result \<times> 't"
  t_set_status :: "u32 \<Rightarrow> 't \<Rightarrow> unit result \<times> 't"
  t_set_guest_page_size :: "u32 \<Rightarrow> 't \<Rightarrow> unit result \<times> 't"
  t_requires_legacy_layout :: "'t \<Rightarrow> bool"
  t_queue_set :: "u16 \<Rightarrow> u32 \<Rightarrow> PhysAddr \<Rightarrow> PhysAddr \<Rightarrow> PhysAddr \<Rightarrow> 't \<Rightarrow> unit result \<times> 't"
  t_queue_unset :: "u16 \<Rightarrow> 't \<Rightarrow> unit result \<times> 't"
  t_queue_used :: "u16 \<Rightarrow> 't \<Rightarrow> bool result \<times> 't"
  t_ack_interrupt :: "'t \<Rightarrow> u32 result \<times> 't"
  t_ack_interrupt_raw :: "'t \<Rightarrow> u32 result \<times> 't"
  t_read_config_generation :: "'t \<Rightarrow> u32 result \<times> 't"
  t_read_config_space :: "nat \<Rightarrow> nat \<Rightarrow> nat \<Rightarrow> 't \<Rightarrow> bytes result \<times> 't"
  t_write_config_space :: "nat \<Rightarrow> nat \<Rightarrow> bytes \<Rightarrow> 't \<Rightarrow> unit result \<times> 't"

text \<open>The default body of \<^verbatim>\<open>ack_interrupt_raw\<close> is a \<^verbatim>\<open>todo!\<close>.\<close>

definition ack_interrupt_raw_default :: "'t \<Rightarrow> u32 result \<times> 't" where
  "ack_interrupt_raw_default t = (Panic, t)"

text \<open>The device side's trait \<^verbatim>\<open>DeviceTransport\<close>.\<close>

record 't device_transport =
  dt_get_client_id :: "'t \<Rightarrow> u16"
  dt_max_queue_size :: "u16 \<Rightarrow> 't \<Rightarrow> u32 result \<times> 't"
  dt_requires_legacy_layout :: "'t \<Rightarrow> bool"
  dt_queue_get :: "u16 \<Rightarrow> 't \<Rightarrow> (PhysAddr \<times> PhysAddr \<times> PhysAddr) result \<times> 't"
  dt_notify :: "u16 \<Rightarrow> 't \<Rightarrow> unit result \<times> 't"

definition try_set_status :: "'t transport \<Rightarrow> u32 \<Rightarrow> 't \<Rightarrow> u32 option result \<times> 't" where
  "try_set_status T status t = and_then (t_set_status T status t) (\<lambda>_ t. (Ok None, t))"

text \<open>
  \<^verbatim>\<open>begin_init\<close>. \<open>all_bits\<close> are the bits the feature type \<^verbatim>\<open>F\<close> knows (\<^verbatim>\<open>from_bits_truncate\<close>),
  \<open>dbg\<close> is \<^verbatim>\<open>cfg!(debug_assertions)\<close>. The argument of \<^verbatim>\<open>unwrap_or\<close> is evaluated eagerly, so
  the status is read back on every path.
\<close>

definition begin_init :: "bool \<Rightarrow> 't transport \<Rightarrow> u64 \<Rightarrow> u64 \<Rightarrow> 't \<Rightarrow> u64 result \<times> 't" where
  "begin_init dbg T all_bits supported t =
     and_then (t_set_status T 0 t) (\<lambda>_ t.
     and_then (t_set_status T (ACKNOWLEDGE OR DRIVER) t) (\<lambda>_ t.
     and_then (t_read_device_features T t) (\<lambda>device_feature_bits t.
       let device_features = from_bits_truncate all_bits device_feature_bits;
           negotiated = device_features AND supported
       in if dbg \<and> device_feature_bits AND VERSION_1 > 0 \<and> \<not> negotiated AND VERSION_1 > 0
          then (Panic, t)
          else
     and_then (t_write_driver_features T negotiated t) (\<lambda>_ t.
     and_then (try_set_status T (ACKNOWLEDGE OR DRIVER OR FEATURES_OK) t) (\<lambda>resp t.
     and_then (t_get_status T t) (\<lambda>status t.
       let device_status = (case resp of Some s \<Rightarrow> s | None \<Rightarrow> status)
       in if \<not> contains device_status FEATURES_OK then (Err Unsupported, t)
          else and_then (t_set_guest_page_size T (of_nat PAGE_SIZE) t) (\<lambda>_ t. (Ok negotiated, t))))))))"

definition finish_init :: "'t transport \<Rightarrow> 't \<Rightarrow> unit result \<times> 't" where
  "finish_init T t = t_set_status T (ACKNOWLEDGE OR DRIVER OR FEATURES_OK OR DRIVER_OK) t"

text \<open>\<^verbatim>\<open>read_consistent\<close>: a loop that only ends when the generation did not change; \<open>fuel\<close>
  bounds its iterations, and \<open>Diverge\<close> is "still retrying".\<close>

fun read_consistent :: "nat \<Rightarrow> 't transport \<Rightarrow> ('t \<Rightarrow> 'a result \<times> 't) \<Rightarrow> 't \<Rightarrow> 'a result \<times> 't" where
  "read_consistent 0 T f t = (Diverge, t)"
| "read_consistent (Suc fuel) T f t =
     and_then (t_read_config_generation T t) (\<lambda>before t.
       (case f t of (result, t) \<Rightarrow>
         if result = Panic \<or> result = Diverge then (result, t)
         else and_then (t_read_config_generation T t) (\<lambda>after t.
           if before = after then (result, t) else read_consistent fuel T f t)))"

section \<open>What a driver relies on\<close>

text \<open>
  A transport whose methods for initialisation return. Every driver's constructor starts with
  \<^verbatim>\<open>begin_init\<close>; on such a transport it negotiates a subset of the features both sides know, or
  fails with \<^verbatim>\<open>Unsupported\<close>.
\<close>

locale transport_total =
  fixes T :: "'t transport" and ok :: "'t \<Rightarrow> bool"
  assumes read_features: "ok t \<Longrightarrow> \<exists>v t'. t_read_device_features T t = (Ok v, t') \<and> ok t'"
    and write_features: "ok t \<Longrightarrow> \<exists>t'. t_write_driver_features T f t = (Ok (), t') \<and> ok t'"
    and get_status: "ok t \<Longrightarrow> \<exists>v t'. t_get_status T t = (Ok v, t') \<and> ok t'"
    and set_status: "ok t \<Longrightarrow> \<exists>t'. t_set_status T s t = (Ok (), t') \<and> ok t'"
    and set_guest_page_size: "ok t \<Longrightarrow> \<exists>t'. t_set_guest_page_size T n t = (Ok (), t') \<and> ok t'"
    and read_config_generation: "ok t \<Longrightarrow> \<exists>v t'. t_read_config_generation T t = (Ok v, t') \<and> ok t'"
begin

lemma begin_init_outcome:
  assumes "ok t" and "dbg \<longrightarrow> contains supported VERSION_1 \<and> contains all_bits VERSION_1"
  shows "\<exists>f t'. ok t' \<and>
     (begin_init dbg T all_bits supported t = (Ok ((f AND all_bits) AND supported), t')
      \<or> begin_init dbg T all_bits supported t = (Err Unsupported, t'))"
proof -
  obtain t1 where t1: "t_set_status T 0 t = (Ok (), t1)" "ok t1" using set_status assms(1) by blast
  obtain t2 where t2: "t_set_status T (ACKNOWLEDGE OR DRIVER) t1 = (Ok (), t2)" "ok t2" using set_status t1 by blast
  obtain f t3 where t3: "t_read_device_features T t2 = (Ok f, t3)" "ok t3" using read_features t2 by blast
  define n where "n = (f AND all_bits) AND supported"
  obtain t4 where t4: "t_write_driver_features T n t3 = (Ok (), t4)" "ok t4" using write_features t3 by blast
  obtain t5 where t5: "t_set_status T (ACKNOWLEDGE OR DRIVER OR FEATURES_OK) t4 = (Ok (), t5)" "ok t5"
    using set_status t4 by blast
  obtain s t6 where t6: "t_get_status T t5 = (Ok s, t6)" "ok t6" using get_status t5 by blast
  obtain t7 where t7: "t_set_guest_page_size T (of_nat PAGE_SIZE) t6 = (Ok (), t7)" "ok t7"
    using set_guest_page_size t6 by blast
  have "\<not> (dbg \<and> f AND VERSION_1 > 0 \<and> \<not> n AND VERSION_1 > 0)"
  proof
    assume a: "dbg \<and> f AND VERSION_1 > 0 \<and> \<not> n AND VERSION_1 > 0"
    with assms(2) have "supported AND VERSION_1 = VERSION_1" "all_bits AND VERSION_1 = VERSION_1" by (auto simp: contains_def)
    then have "n AND VERSION_1 = f AND VERSION_1" unfolding n_def by (simp add: and.assoc)
    with a show False by simp
  qed
  then have "begin_init dbg T all_bits supported t =
    (if contains s FEATURES_OK then (Ok n, t7) else (Err Unsupported, t6))"
    using t1 t2 t3 t4 t5 t6 t7
    by (simp add: begin_init_def from_bits_truncate_def n_def try_set_status_def Let_def)
  then show ?thesis using t6 t7 n_def by (metis (full_types))
qed

lemma finish_init_ok: "ok t \<Longrightarrow> \<exists>t'. finish_init T t = (Ok (), t') \<and> ok t'"
  unfolding finish_init_def by (rule set_status)

text \<open>If the generation is the same before and after some attempt, \<^verbatim>\<open>read_consistent\<close> returns.\<close>

lemma read_consistent_once:
  assumes "ok t" and gen: "\<And>t v t'. t_read_config_generation T t = (Ok v, t') \<Longrightarrow> v = g"
    and f: "\<And>t. ok t \<Longrightarrow> \<exists>r t'. f t = (r, t') \<and> ok t' \<and> r \<noteq> Panic \<and> r \<noteq> Diverge"
  shows "\<exists>t0 r t1 t2. t_read_config_generation T t = (Ok g, t0) \<and> f t0 = (r, t1) \<and>
    read_consistent (Suc fuel) T f t = (r, t2)"
proof -
  obtain t0 where t0: "t_read_config_generation T t = (Ok g, t0)" "ok t0"
    using read_config_generation [OF assms(1)] gen by metis
  obtain r t1 where t1: "f t0 = (r, t1)" "ok t1" "r \<noteq> Panic" "r \<noteq> Diverge" using f t0 by blast
  obtain t2 where t2: "t_read_config_generation T t1 = (Ok g, t2)"
    using read_config_generation [OF t1(2)] gen by metis
  show ?thesis using t0 t1 t2 by (intro exI conjI) auto
qed

end
end
