(* ===== verification/Queue_Layout.thy ===== *)
theory Queue_Layout
  imports Hal Transport
begin

text \<open>
  The memory of a split virtqueue, src/src/queue.rs: descriptors and their flags, the
  available and the used ring, and the layout of the three areas in DMA memory
  (\<^verbatim>\<open>VirtQueueLayout\<close>, legacy and modern). The lemmas show that the areas a layout hands out
  lie inside the allocated pages, do not overlap and are aligned as the device expects.
\<close>

section \<open>Descriptors and rings\<close>

record descriptor =
  d_addr :: u64
  d_len :: u32
  d_flags :: u16
  d_next :: u16

definition DescFlags_NEXT :: u16 where "DescFlags_NEXT = 1"
definition DescFlags_WRITE :: u16 where "DescFlags_WRITE = 2"
definition DescFlags_INDIRECT :: u16 where "DescFlags_INDIRECT = 4"

lemmas desc_flag_defs = DescFlags_NEXT_def DescFlags_WRITE_def DescFlags_INDIRECT_def

definition zero_desc :: descriptor where
  "zero_desc = \<lparr>d_addr = 0, d_len = 0, d_flags = 0, d_next = 0\<rparr>"

text \<open>\<^verbatim>\<open>Descriptor\<close> is \<^verbatim>\<open>repr(C, align(16))\<close>: its bytes, little-endian, without padding.\<close>

definition desc_bytes :: "descriptor \<Rightarrow> bytes" where
  "desc_bytes d = le_bytes 8 (d_addr d) @ le_bytes 4 (d_len d) @ le_bytes 2 (d_flags d) @ le_bytes 2 (d_next d)"

record avail_ring =
  a_flags :: u16
  a_idx :: u16
  a_ring :: "u16 list"
  a_used_event :: u16

record used_elem =
  ue_id :: u32
  ue_len :: u32

record used_ring =
  u_flags :: u16
  u_idx :: u16
  u_ring :: "used_elem list"
  u_avail_event :: u16

text \<open>The memory both sides can access: the descriptor table and the two rings.\<close>

record shared =
  sm_desc :: "descriptor list"
  sm_avail :: avail_ring
  sm_used :: used_ring

definition Descriptor_set_buf ::
  "hal \<Rightarrow> hal_event list \<Rightarrow> descriptor \<Rightarrow> buf \<Rightarrow> BufferDirection \<Rightarrow> u16 \<Rightarrow> descriptor result \<times> hal_event list"
where
  "Descriptor_set_buf H log d b dir extra_flags =
     (let (paddr, log') = do_share H log b dir;
          d1 = d\<lparr>d_addr := paddr\<rparr>
      in if 2 ^ 32 \<le> buf_len b then (Panic, log')
         else let d2 = d1\<lparr>d_len := of_nat (buf_len b)\<rparr>
              in case dir of
                   DeviceToDriver \<Rightarrow> (Ok (d2\<lparr>d_flags := extra_flags OR DescFlags_WRITE\<rparr>), log')
                 | DriverToDevice \<Rightarrow> (Ok (d2\<lparr>d_flags := extra_flags OR 0\<rparr>), log')
                 | Both \<Rightarrow> (Panic, log'))"

definition Descriptor_unset_buf :: "descriptor \<Rightarrow> descriptor" where
  "Descriptor_unset_buf d = d\<lparr>d_addr := 0, d_len := 0\<rparr>"

definition Descriptor_next :: "descriptor \<Rightarrow> u16 option" where
  "Descriptor_next d = (if contains (d_flags d) DescFlags_NEXT then Some (d_next d) else None)"

text \<open>
  The iterator over the buffers of a request: all the inputs first, then the outputs.
  \<open>InputOutputIter_list\<close> is what a \<^verbatim>\<open>for\<close> loop over it visits.
\<close>

fun InputOutputIter_next ::
  "'b list \<times> 'b list \<Rightarrow> (('b \<times> BufferDirection) \<times> ('b list \<times> 'b list)) option"
where
  "InputOutputIter_next (i # inputs, outputs) = Some ((i, DriverToDevice), (inputs, outputs))"
| "InputOutputIter_next ([], o1 # outputs) = Some ((o1, DeviceToDriver), ([], outputs))"
| "InputOutputIter_next ([], []) = None"

function InputOutputIter_list :: "'b list \<times> 'b list \<Rightarrow> ('b \<times> BufferDirection) list" where
  "InputOutputIter_list it =
     (case InputOutputIter_next it of None \<Rightarrow> [] | Some (x, it') \<Rightarrow> x # InputOutputIter_list it')"
  by pat_completeness auto
termination
  by (relation "measure (\<lambda>(i, o1). length i + length o1)")
     (auto elim: InputOutputIter_next.elims)

declare InputOutputIter_list.simps [simp del]

lemma InputOutputIter_list_eq [simp]:
  "InputOutputIter_list (inputs, outputs)
     = map (\<lambda>b. (b, DriverToDevice)) inputs @ map (\<lambda>b. (b, DeviceToDriver)) outputs"
proof (induction inputs)
  case Nil
  show ?case by (induction outputs) (simp_all add: InputOutputIter_list.simps)
next
  case (Cons i inputs)
  then show ?case by (simp add: InputOutputIter_list.simps [of "(i # inputs, outputs)"])
qed

section \<open>Layout of the areas\<close>

definition is_power_of_two :: "nat \<Rightarrow> bool" where
  "is_power_of_two n \<longleftrightarrow> n \<noteq> 0 \<and> n AND (n - 1) = 0"

text \<open>The compile-time check \<^verbatim>\<open>SIZE_OK\<close> of both queue types.\<close>

definition SIZE_OK :: "nat \<Rightarrow> bool" where
  "SIZE_OK n \<longleftrightarrow> is_power_of_two n \<and> n \<le> 65535"

definition queue_part_sizes :: "nat \<Rightarrow> (nat \<times> nat \<times> nat) result" where
  "queue_part_sizes queue_size =
     (if \<not> is_power_of_two queue_size then Panic
      else let desc = 16 * queue_size;
               avail = 2 * (3 + queue_size);
               used = 2 * 3 + 8 * queue_size
           in Ok (desc, avail, used))"

datatype 'd VirtQueueLayout =
    Legacy 'd nat nat
  | Modern 'd 'd nat

definition allocate_legacy :: "hal \<Rightarrow> nat \<Rightarrow> hal_event list \<Rightarrow> dma VirtQueueLayout result \<times> hal_event list" where
  "allocate_legacy H queue_size log =
     and_then (queue_part_sizes queue_size, log) (\<lambda>(desc, avail, used) log.
       let sz = align_up (desc + avail) + align_up used
       in and_then (Dma_new H log (sz div PAGE_SIZE) Both) (\<lambda>dma log.
            (Ok (Legacy dma desc (align_up (desc + avail))), log)))"

text \<open>
  If the second allocation fails, the early return drops the first region, which
  deallocates it (and panics if the deallocation reports an error).
\<close>

definition allocate_flexible :: "hal \<Rightarrow> nat \<Rightarrow> hal_event list \<Rightarrow> dma VirtQueueLayout result \<times> hal_event list" where
  "allocate_flexible H queue_size log =
     and_then (queue_part_sizes queue_size, log) (\<lambda>(desc, avail, used) log.
       and_then (Dma_new H log (pages (desc + avail)) DriverToDevice) (\<lambda>driver_to_device_dma log.
         then_or (Dma_new H log (pages used) DeviceToDriver)
           (\<lambda>e log. and_then (Dma_drop H log driver_to_device_dma) (\<lambda>_ log. (Err e, log)))
           (\<lambda>device_to_driver_dma log.
             (Ok (Modern driver_to_device_dma device_to_driver_dma desc), log))))"

definition map_legacy ::
  "device_hal \<Rightarrow> nat \<Rightarrow> PhysAddr \<Rightarrow> u16 \<Rightarrow> map_event list \<Rightarrow> device_dma VirtQueueLayout result \<times> map_event list"
where
  "map_legacy H queue_size paddr client_id log =
     and_then (queue_part_sizes queue_size, log) (\<lambda>(desc, avail, used) log.
       let sz = align_up (desc + avail) + align_up used
       in and_then (DeviceDma_new H log paddr (sz div PAGE_SIZE) Both client_id) (\<lambda>dma log.
            (Ok (Legacy dma desc (align_up (desc + avail))), log)))"

definition map_flexible ::
  "device_hal \<Rightarrow> nat \<Rightarrow> PhysAddr \<Rightarrow> PhysAddr \<Rightarrow> u16 \<Rightarrow> map_event list
     \<Rightarrow> device_dma VirtQueueLayout result \<times> map_event list"
where
  "map_flexible H queue_size desc_avail_paddr used_paddr client_id log =
     and_then (queue_part_sizes queue_size, log) (\<lambda>(desc, avail, used) log.
       and_then (DeviceDma_new H log desc_avail_paddr (pages (desc + avail)) DriverToDevice client_id)
         (\<lambda>driver_to_device_dma log.
         then_or (DeviceDma_new H log used_paddr (pages used) DeviceToDriver client_id)
           (\<lambda>e log. and_then (DeviceDma_drop H log driver_to_device_dma) (\<lambda>_ log. (Err e, log)))
           (\<lambda>device_to_driver_dma log.
             (Ok (Modern driver_to_device_dma device_to_driver_dma desc), log))))"

text \<open>Physical addresses of the areas; address arithmetic is on 64-bit words.\<close>

fun descriptors_paddr :: "'a dma_scheme VirtQueueLayout \<Rightarrow> PhysAddr" where
  "descriptors_paddr (Legacy dma _ _) = dma_paddr dma"
| "descriptors_paddr (Modern driver_to_device_dma _ _) = dma_paddr driver_to_device_dma"

fun descriptors_vaddr :: "'a dma_scheme VirtQueueLayout \<Rightarrow> u64 result" where
  "descriptors_vaddr (Legacy dma _ _) = Dma_vaddr dma 0"
| "descriptors_vaddr (Modern driver_to_device_dma _ _) = Dma_vaddr driver_to_device_dma 0"

fun driver_area_paddr :: "'a dma_scheme VirtQueueLayout \<Rightarrow> PhysAddr" where
  "driver_area_paddr (Legacy dma avail_offset _) = dma_paddr dma + of_nat avail_offset"
| "driver_area_paddr (Modern driver_to_device_dma _ avail_offset) =
     dma_paddr driver_to_device_dma + of_nat avail_offset"

fun avail_vaddr :: "'a dma_scheme VirtQueueLayout \<Rightarrow> u64 result" where
  "avail_vaddr (Legacy dma avail_offset _) = Dma_vaddr dma avail_offset"
| "avail_vaddr (Modern driver_to_device_dma _ avail_offset) = Dma_vaddr driver_to_device_dma avail_offset"

fun device_area_paddr :: "'a dma_scheme VirtQueueLayout \<Rightarrow> PhysAddr" where
  "device_area_paddr (Legacy dma _ used_offset) = dma_paddr dma + of_nat used_offset"
| "device_area_paddr (Modern _ device_to_driver_dma _) = dma_paddr device_to_driver_dma"

fun used_vaddr :: "'a dma_scheme VirtQueueLayout \<Rightarrow> u64 result" where
  "used_vaddr (Legacy dma _ used_offset) = Dma_vaddr dma used_offset"
| "used_vaddr (Modern _ device_to_driver_dma _) = Dma_vaddr device_to_driver_dma 0"

text \<open>
  What a layout for \<open>n\<close> descriptors has to satisfy: the descriptor table, the available ring and
  the used ring do not overlap, lie inside the DMA regions, and the rings are aligned.
\<close>

fun layout_wf :: "nat \<Rightarrow> 'a dma_scheme VirtQueueLayout \<Rightarrow> bool" where
  "layout_wf n (Legacy d avail_offset used_offset) \<longleftrightarrow>
     16 * n \<le> avail_offset \<and> 2 dvd avail_offset \<and>
     avail_offset + (6 + 2 * n) \<le> used_offset \<and> PAGE_SIZE dvd used_offset \<and>
     used_offset + (6 + 8 * n) \<le> dma_pages d * PAGE_SIZE"
| "layout_wf n (Modern d u avail_offset) \<longleftrightarrow>
     16 * n \<le> avail_offset \<and> 2 dvd avail_offset \<and>
     avail_offset + (6 + 2 * n) \<le> dma_pages d * PAGE_SIZE \<and> 6 + 8 * n \<le> dma_pages u * PAGE_SIZE"

section \<open>Facts on the layout\<close>

lemma is_power_of_two_exp: "is_power_of_two (2 ^ k)"
proof -
  have "(2 ^ k :: nat) AND (2 ^ k - 1) = 0"
    using mask_eq_exp_minus_1 [where 'a = nat, of k]
    by (metis (no_types, lifting) bit_and_iff bit_eqI bit_exp_iff bit_mask_iff bit_0_eq bot_apply bot_bool_def less_irrefl)
  then show ?thesis by (simp add: is_power_of_two_def)
qed

lemma power_of_two_exp: "n \<noteq> 0 \<Longrightarrow> n AND (n - 1) = 0 \<Longrightarrow> \<exists>k. n = (2::nat) ^ k"
proof (induction n rule: less_induct)
  case (less n)
  show ?case
  proof (cases "even n")
    case True
    then obtain m where m: "n = 2 * m" by auto
    with less have "0 < m" by simp
    then have "(2 * m - Suc 0) div 2 = m - 1" by arith
    with less.prems m \<open>0 < m\<close> have "m AND (m - 1) = 0"
      by (simp add: and_nat_rec [of "2 * m"])
    with less.IH [of m] m \<open>0 < m\<close> obtain k where "m = 2 ^ k" by auto
    with m have "n = 2 ^ Suc k" by simp
    then show ?thesis by blast
  next
    case False
    then obtain m where m: "n = 2 * m + 1" using oddE by blast
    with less.prems have "m = 0" by (simp add: and_nat_rec [of "Suc _"])
    with m have "n = 2 ^ 0" by simp
    then show ?thesis by blast
  qed
qed

lemma is_power_of_two_iff: "is_power_of_two n \<longleftrightarrow> (\<exists>k. n = 2 ^ k)"
  using power_of_two_exp is_power_of_two_exp by (auto simp: is_power_of_two_def)

lemma Dma_new_pages: "Dma_new H log n dir = (Ok d, log') \<Longrightarrow> dma_pages d = n"
  by (auto simp: Dma_new_def Let_def split: prod.splits if_splits)

lemma DeviceDma_new_pages: "DeviceDma_new H log p n dir c = (Ok d, log') \<Longrightarrow> dma_pages d = n"
  by (auto simp: DeviceDma_new_def lift_then_Ok_iff)

lemma queue_part_sizes_eq:
  "queue_part_sizes n = (if is_power_of_two n then Ok (16 * n, 6 + 2 * n, 6 + 8 * n) else Panic)"
  by (simp add: queue_part_sizes_def)

lemma layout_wf_legacy:
  assumes "n \<le> 65535" "dma_pages d = (align_up (16 * n + (6 + 2 * n)) + align_up (6 + 8 * n)) div PAGE_SIZE"
  shows "layout_wf n (Legacy d (16 * n) (align_up (16 * n + (6 + 2 * n))))"
proof -
  let ?a = "align_up (16 * n + (6 + 2 * n))" and ?u = "align_up (6 + 8 * n)"
  have "16 * n + (6 + 2 * n) < ?a" "PAGE_SIZE dvd ?a" "6 + 8 * n < ?u" "PAGE_SIZE dvd ?u"
    by (rule align_up_bounds; use assms in \<open>simp add: PAGE_SIZE_def\<close>)+
  moreover from this have "(?a + ?u) div PAGE_SIZE * PAGE_SIZE = ?a + ?u"
    by (intro dvd_div_mult_self dvd_add)
  ultimately show ?thesis by (simp add: assms)
qed

lemma layout_wf_modern:
  assumes "dma_pages d = pages (16 * n + (6 + 2 * n))" "dma_pages u = pages (6 + 8 * n)"
  shows "layout_wf n (Modern d u (16 * n))"
  using pages_bound(1) [of "16 * n + (6 + 2 * n)"] pages_bound(1) [of "6 + 8 * n"]
  by (simp add: assms)

lemma allocate_legacy_wf:
  assumes "allocate_legacy H n log = (Ok lay, log')" "n \<le> 65535"
  shows "layout_wf n lay"
proof -
  from assms obtain d where "lay = Legacy d (16 * n) (align_up (16 * n + (6 + 2 * n)))"
    and "dma_pages d = (align_up (16 * n + (6 + 2 * n)) + align_up (6 + 8 * n)) div PAGE_SIZE"
    by (cases "is_power_of_two n"; simp only: allocate_legacy_def queue_part_sizes_eq if_True if_False and_then_simps prod.case Let_def prod.inject outcome.distinct)
       (auto simp only: and_then_Ok_iff then_or_Ok_iff prod.inject outcome.inject outcome.distinct simp_thms ex_simps dest!: Dma_new_pages)
  with layout_wf_legacy [OF assms(2)] show ?thesis by blast
qed

lemma map_legacy_wf:
  assumes "map_legacy H n p c log = (Ok lay, log')" "n \<le> 65535"
  shows "layout_wf n lay"
proof -
  from assms obtain d where "lay = Legacy d (16 * n) (align_up (16 * n + (6 + 2 * n)))"
    and "dma_pages d = (align_up (16 * n + (6 + 2 * n)) + align_up (6 + 8 * n)) div PAGE_SIZE"
    by (cases "is_power_of_two n"; simp only: map_legacy_def queue_part_sizes_eq if_True if_False and_then_simps prod.case Let_def prod.inject outcome.distinct)
       (auto simp only: and_then_Ok_iff then_or_Ok_iff prod.inject outcome.inject outcome.distinct simp_thms ex_simps dest!: DeviceDma_new_pages)
  with layout_wf_legacy [OF assms(2)] show ?thesis by blast
qed

lemma allocate_flexible_wf:
  assumes "allocate_flexible H n log = (Ok lay, log')"
  shows "layout_wf n lay"
proof -
  from assms obtain d u where "lay = Modern d u (16 * n)"
    and "dma_pages d = pages (16 * n + (6 + 2 * n))" and "dma_pages u = pages (6 + 8 * n)"
    by (cases "is_power_of_two n"; simp only: allocate_flexible_def queue_part_sizes_eq if_True if_False and_then_simps prod.case Let_def prod.inject outcome.distinct)
       (auto simp only: and_then_Ok_iff then_or_Ok_iff prod.inject outcome.inject outcome.distinct simp_thms ex_simps dest!: Dma_new_pages)
  with layout_wf_modern show ?thesis by blast
qed

lemma map_flexible_wf:
  assumes "map_flexible H n p p' c log = (Ok lay, log')"
  shows "layout_wf n lay"
proof -
  from assms obtain d u where "lay = Modern d u (16 * n)"
    and "dma_pages d = pages (16 * n + (6 + 2 * n))" and "dma_pages u = pages (6 + 8 * n)"
    by (cases "is_power_of_two n"; simp only: map_flexible_def queue_part_sizes_eq if_True if_False and_then_simps prod.case Let_def prod.inject outcome.distinct)
       (auto simp only: and_then_Ok_iff then_or_Ok_iff prod.inject outcome.inject outcome.distinct simp_thms ex_simps dest!: DeviceDma_new_pages)
  with layout_wf_modern show ?thesis by blast
qed
end
