(* ===== verification/Virt_Queue.thy ===== *)
theory Virt_Queue
  imports Queue_Layout
begin

text \<open>
  The driver's side of a split virtqueue: \<^verbatim>\<open>VirtQueue\<close> of src/src/queue.rs, every method.

  The record \<open>vq\<close> has the fields of the struct. The const generic \<^verbatim>\<open>SIZE\<close> is a field, and the
  three pointers \<^verbatim>\<open>desc\<close>, \<^verbatim>\<open>avail\<close> and \<^verbatim>\<open>used\<close> are the memory \<open>mem\<close> they point to, which the
  device may change at any time. \<open>hal_log\<close> is the history of the calls of the HAL this queue knows
  of: those made before and during its construction, and its own calls afterwards. The HAL answers
  from that history. No two queues of a driver have the same history, since each allocates DMA
  memory in its turn, so the answers one queue gets are independent of those another gets.
\<close>

record vq =
  layout :: "dma VirtQueueLayout"
  mem :: shared
  SIZE :: nat
  queue_idx :: u16
  num_used :: u16
  free_head :: u16
  desc_shadow :: "descriptor list"
  avail_idx :: u16
  last_used_idx :: u16
  event_idx :: bool
  indirect :: bool
  indirect_lists :: "(u64 \<times> descriptor list) option list"
  hal_log :: "hal_event list"

section \<open>Construction\<close>

definition link_descs :: "nat \<Rightarrow> descriptor list \<Rightarrow> descriptor list" where
  "link_descs n ds = fold (\<lambda>i ds. ds[i := (ds ! i)\<lparr>d_next := of_nat i + 1\<rparr>]) [0..<n - 1] ds"

text \<open>
  \<^verbatim>\<open>VirtQueue::new\<close>. \<open>m\<close> is the memory the allocation hands out, seen as descriptor table and
  rings. The state is the transport and the history of HAL calls.
\<close>

definition VirtQueue_new ::
  "'t transport \<Rightarrow> hal \<Rightarrow> shared \<Rightarrow> nat \<Rightarrow> u16 \<Rightarrow> bool \<Rightarrow> bool \<Rightarrow> 't \<times> hal_event list
     \<Rightarrow> vq result \<times> ('t \<times> hal_event list)"
where
  "VirtQueue_new T H m n idx ind ev s =
     (case s of (t, log) \<Rightarrow>
     lift_then (t_queue_used T idx t) (\<lambda>t. (t, log)) (\<lambda>used t.
       if used then (Err AlreadyUsed, (t, log)) else
     lift_then (t_max_queue_size T idx t) (\<lambda>t. (t, log)) (\<lambda>max t.
       if max < of_nat n then (Err InvalidParam, (t, log)) else
     lift_then (if t_requires_legacy_layout T t then allocate_legacy H n log else allocate_flexible H n log)
       (\<lambda>log. (t, log)) (\<lambda>lay log.
     lift_then
       (t_queue_set T idx (of_nat n) (descriptors_paddr lay) (driver_area_paddr lay) (device_area_paddr lay) t)
       (\<lambda>t. (t, log)) (\<lambda>_ t.
     and_then (bind_ok (descriptors_vaddr lay) (\<lambda>_. bind_ok (avail_vaddr lay) (\<lambda>_. used_vaddr lay)), (t, log))
       (\<lambda>_ s.
       (Ok \<lparr>layout = lay,
            mem = m\<lparr>sm_desc := link_descs n (sm_desc m)\<rparr>,
            SIZE = n, queue_idx = idx, num_used = 0, free_head = 0,
            desc_shadow = link_descs n (replicate n zero_desc),
            avail_idx = 0, last_used_idx = 0, event_idx = ev, indirect = ind,
            indirect_lists = replicate n None,
            hal_log = snd s\<rparr>, s)))))))"

section \<open>Reading the rings\<close>

text \<open>\<^verbatim>\<open>idx & (SIZE as u16 - 1)\<close>, the slot of a free-running index.\<close>

definition ring_slot :: "nat \<Rightarrow> u16 \<Rightarrow> nat" where
  "ring_slot n idx = unat (idx AND (of_nat n - 1))"

definition should_notify :: "vq \<Rightarrow> bool" where
  "should_notify q =
     (if event_idx q then avail_idx q \<ge> u_avail_event (sm_used (mem q)) + 1
      else u_flags (sm_used (mem q)) AND 1 = 0)"

definition set_dev_notify :: "bool \<Rightarrow> vq \<Rightarrow> vq" where
  "set_dev_notify enable q =
     (let avail_ring_flags = (if enable then 0 else 1)
      in if \<not> event_idx q
         then q\<lparr>mem := (mem q)\<lparr>sm_avail := (sm_avail (mem q))\<lparr>a_flags := avail_ring_flags\<rparr>\<rparr>\<rparr>
         else q)"

definition can_pop :: "vq \<Rightarrow> bool" where
  "can_pop q \<longleftrightarrow> last_used_idx q \<noteq> u_idx (sm_used (mem q))"

definition used_slot :: "vq \<Rightarrow> used_elem" where
  "used_slot q = u_ring (sm_used (mem q)) ! ring_slot (SIZE q) (last_used_idx q)"

definition peek_used :: "vq \<Rightarrow> u16 option" where
  "peek_used q = (if can_pop q then Some (ucast (ue_id (used_slot q))) else None)"

definition available_desc :: "vq \<Rightarrow> nat" where
  "available_desc q =
     (if indirect q then (if unat (num_used q) = SIZE q then 0 else SIZE q)
      else SIZE q - unat (num_used q))"

section \<open>Adding buffers\<close>

definition write_desc :: "u16 \<Rightarrow> vq \<Rightarrow> unit result \<times> vq" where
  "write_desc index q =
     (let i = unat index
      in if \<not> i < length (desc_shadow q) \<or> \<not> i < length (sm_desc (mem q)) then (Panic, q)
         else (Ok (), q\<lparr>mem := (mem q)\<lparr>sm_desc := (sm_desc (mem q))[i := desc_shadow q ! i]\<rparr>\<rparr>))"

text \<open>The loop of \<^verbatim>\<open>add_direct\<close>; \<open>lst\<close> is the variable \<^verbatim>\<open>last\<close>.\<close>

fun add_direct_loop :: "hal \<Rightarrow> (buf \<times> BufferDirection) list \<Rightarrow> u16 \<Rightarrow> vq \<Rightarrow> u16 result \<times> vq" where
  "add_direct_loop H [] lst q = (Ok lst, q)"
| "add_direct_loop H ((b, direction) # rest) lst q =
     (if buf_len b = 0 then (Panic, q)
      else if \<not> unat (free_head q) < length (desc_shadow q) then (Panic, q)
      else lift_then
        (Descriptor_set_buf H (hal_log q) (desc_shadow q ! unat (free_head q)) b direction DescFlags_NEXT)
        (\<lambda>log. q\<lparr>hal_log := log\<rparr>)
        (\<lambda>desc log.
           let lst' = free_head q;
               q' = q\<lparr>hal_log := log, desc_shadow := (desc_shadow q)[unat lst' := desc], free_head := d_next desc\<rparr>
           in and_then (write_desc lst' q') (\<lambda>_ q'. add_direct_loop H rest lst' q')))"

definition add_direct :: "hal \<Rightarrow> buf list \<Rightarrow> buf list \<Rightarrow> vq \<Rightarrow> u16 result \<times> vq" where
  "add_direct H inputs outputs q =
     (let head = free_head q
      in and_then (add_direct_loop H (InputOutputIter_list (inputs, outputs)) head q) (\<lambda>lst q.
           if \<not> unat lst < length (desc_shadow q) then (Panic, q)
           else let d = desc_shadow q ! unat lst;
                    q1 = q\<lparr>desc_shadow := (desc_shadow q)[unat lst := d\<lparr>d_flags := d_flags d AND NOT DescFlags_NEXT\<rparr>]\<rparr>
                in and_then (write_desc lst q1) (\<lambda>_ q2.
                     let n = (of_nat (length inputs + length outputs) :: u16)
                     in if 2 ^ 16 \<le> unat (num_used q2) + unat n then (Panic, q2)
                        else (Ok head, q2\<lparr>num_used := num_used q2 + n\<rparr>))))"

text \<open>The loop of \<^verbatim>\<open>add_indirect\<close> that fills the list; \<open>i\<close> counts from the position reached.\<close>

fun fill_indirect ::
  "hal \<Rightarrow> nat \<Rightarrow> (buf \<times> BufferDirection) list \<Rightarrow> hal_event list \<Rightarrow> descriptor list result \<times> hal_event list"
where
  "fill_indirect H i [] log = (Ok [], log)"
| "fill_indirect H i ((b, direction) # rest) log =
     and_then (Descriptor_set_buf H log zero_desc b direction DescFlags_NEXT) (\<lambda>desc log.
     and_then (fill_indirect H (i + 1) rest log) (\<lambda>ds log.
       (Ok (desc\<lparr>d_next := of_nat (i + 1)\<rparr> # ds), log)))"

definition add_indirect :: "hal \<Rightarrow> buf list \<Rightarrow> buf list \<Rightarrow> vq \<Rightarrow> u16 result \<times> vq" where
  "add_indirect H inputs outputs q =
     (let head = free_head q;
          ptr = hal_box_ptr H (hal_log q) (length inputs + length outputs)
      in lift_then (fill_indirect H 0 (InputOutputIter_list (inputs, outputs)) (hal_log q))
           (\<lambda>log. q\<lparr>hal_log := log\<rparr>) (\<lambda>ds log.
           let q = q\<lparr>hal_log := log\<rparr>
           in if ds = [] then (Panic, q)
              else let l = last ds;
                       indirect_list = ds[length ds - 1 := l\<lparr>d_flags := d_flags l AND NOT DescFlags_NEXT\<rparr>]
                   in if \<not> unat head < length (indirect_lists q) then (Panic, q)
                      else if indirect_lists q ! unat head \<noteq> None then (Panic, q)
                      else let q = q\<lparr>indirect_lists := (indirect_lists q)[unat head := Some (ptr, indirect_list)]\<rparr>
                           in if \<not> unat head < length (desc_shadow q) then (Panic, q)
                              else let direct_desc = desc_shadow q ! unat head;
                                       q = q\<lparr>free_head := d_next direct_desc\<rparr>
                                   in lift_then
                                        (Descriptor_set_buf H (hal_log q) direct_desc
                                           \<lparr>b_ptr = ptr, b_data = concat (map desc_bytes indirect_list)\<rparr>
                                           DriverToDevice DescFlags_INDIRECT)
                                        (\<lambda>log. q\<lparr>hal_log := log\<rparr>) (\<lambda>desc log.
                                        let q = q\<lparr>hal_log := log, desc_shadow := (desc_shadow q)[unat head := desc]\<rparr>
                                        in and_then (write_desc head q) (\<lambda>_ q.
                                             if 2 ^ 16 \<le> unat (num_used q) + 1 then (Panic, q)
                                             else (Ok head, q\<lparr>num_used := num_used q + 1\<rparr>)))))"

definition publish_avail :: "u16 \<Rightarrow> vq \<Rightarrow> vq" where
  "publish_avail head q =
     (let m = mem q; av = sm_avail m;
          av1 = av\<lparr>a_ring := (a_ring av)[ring_slot (SIZE q) (avail_idx q) := head]\<rparr>;
          idx = avail_idx q + 1
      in q\<lparr>avail_idx := idx, mem := m\<lparr>sm_avail := av1\<lparr>a_idx := idx\<rparr>\<rparr>\<rparr>)"

definition VirtQueue_add :: "hal \<Rightarrow> buf list \<Rightarrow> buf list \<Rightarrow> vq \<Rightarrow> u16 result \<times> vq" where
  "VirtQueue_add H inputs outputs q =
     (if inputs = [] \<and> outputs = [] then (Err InvalidParam, q)
      else let descriptors_needed = length inputs + length outputs
      in if unat (num_used q) + 1 > SIZE q
            \<or> descriptors_needed > SIZE q
            \<or> (\<not> indirect q \<and> unat (num_used q) + descriptors_needed > SIZE q)
         then (Err QueueFull, q)
         else and_then
           (if indirect q \<and> descriptors_needed > 1 then add_indirect H inputs outputs q
            else add_direct H inputs outputs q)
           (\<lambda>head q. (Ok head, publish_avail head q)))"

section \<open>Popping used buffers\<close>

text \<open>
  The loops of \<^verbatim>\<open>recycle_descriptors\<close>. They return the buffers as \<^verbatim>\<open>unshare\<close> left them, and
  the direct loop also the variable \<^verbatim>\<open>next\<close> after the last iteration.
\<close>

fun recycle_direct_loop ::
  "hal \<Rightarrow> u16 \<Rightarrow> (buf \<times> BufferDirection) list \<Rightarrow> u16 option \<Rightarrow> vq \<Rightarrow> (u16 option \<times> buf list) result \<times> vq"
where
  "recycle_direct_loop H original_free_head [] nxt0 q = (Ok (nxt0, []), q)"
| "recycle_direct_loop H original_free_head ((b, direction) # rest) nxt0 q =
     (if buf_len b = 0 then (Panic, q)
      else case nxt0 of
        None \<Rightarrow> (Panic, q)
      | Some desc_index \<Rightarrow>
          if \<not> unat desc_index < length (desc_shadow q) then (Panic, q)
          else let d = desc_shadow q ! unat desc_index;
                   paddr = d_addr d;
                   d1 = Descriptor_unset_buf d
               in if num_used q = 0 then (Panic, q)
                  else let next' = Descriptor_next d1;
                           d2 = (if next' = None then d1\<lparr>d_next := original_free_head\<rparr> else d1);
                           q1 = q\<lparr>desc_shadow := (desc_shadow q)[unat desc_index := d2], num_used := num_used q - 1\<rparr>
                       in and_then (write_desc desc_index q1) (\<lambda>_ q2.
                            let (b', log) = do_unshare H (hal_log q2) paddr b direction
                            in and_then (recycle_direct_loop H original_free_head rest next' (q2\<lparr>hal_log := log\<rparr>))
                                 (\<lambda>(nxt, bs) q. (Ok (nxt, b' # bs), q))))"

fun unshare_indirect ::
  "hal \<Rightarrow> (buf \<times> BufferDirection) list \<Rightarrow> descriptor list \<Rightarrow> hal_event list \<Rightarrow> buf list result \<times> hal_event list"
where
  "unshare_indirect H [] ds log = (Ok [], log)"
| "unshare_indirect H ((b, direction) # rest) ds log =
     (if buf_len b = 0 then (Panic, log)
      else case ds of
        [] \<Rightarrow> (Panic, log)
      | d # ds' \<Rightarrow>
          let (b', log1) = do_unshare H log (d_addr d) b direction
          in and_then (unshare_indirect H rest ds' log1) (\<lambda>bs log. (Ok (b' # bs), log)))"

definition recycle_descriptors :: "hal \<Rightarrow> u16 \<Rightarrow> buf list \<Rightarrow> buf list \<Rightarrow> vq \<Rightarrow> buf list result \<times> vq" where
  "recycle_descriptors H head inputs outputs q0 =
     (let original_free_head = free_head q0; q = q0\<lparr>free_head := head\<rparr>
      in if \<not> unat head < length (desc_shadow q) then (Panic, q)
         else let head_desc = desc_shadow q ! unat head
         in if contains (d_flags head_desc) DescFlags_INDIRECT then
              (if \<not> unat head < length (indirect_lists q) then (Panic, q)
               else case indirect_lists q ! unat head of
                 None \<Rightarrow> (Panic, q)
               | Some (ptr, indirect_list) \<Rightarrow>
                   let q = q\<lparr>indirect_lists := (indirect_lists q)[unat head := None]\<rparr>;
                       paddr = d_addr head_desc
                   in if num_used q = 0 then (Panic, q)
                      else let q = q\<lparr>num_used := num_used q - 1,
                                     desc_shadow := (desc_shadow q)[unat head :=
                                       (Descriptor_unset_buf head_desc)\<lparr>d_next := original_free_head\<rparr>]\<rparr>;
                               (_, log) = do_unshare H (hal_log q) paddr
                                 \<lparr>b_ptr = ptr, b_data = concat (map desc_bytes indirect_list)\<rparr> DriverToDevice;
                               q = q\<lparr>hal_log := log\<rparr>
                           in if length indirect_list \<noteq> length inputs + length outputs then (Panic, q)
                              else lift_then
                                (unshare_indirect H (InputOutputIter_list (inputs, outputs)) indirect_list (hal_log q))
                                (\<lambda>log. q\<lparr>hal_log := log\<rparr>) (\<lambda>bs log. (Ok bs, q\<lparr>hal_log := log\<rparr>)))
            else
              and_then (recycle_direct_loop H original_free_head (InputOutputIter_list (inputs, outputs)) (Some head) q)
                (\<lambda>(nxt, bs) q. if nxt \<noteq> None then (Panic, q) else (Ok bs, q)))"

text \<open>
  \<^verbatim>\<open>pop_used\<close> returns the length the device reported; the model also returns the buffers with
  the contents they have afterwards, inputs first.
\<close>

definition VirtQueue_pop_used ::
  "hal \<Rightarrow> u16 \<Rightarrow> buf list \<Rightarrow> buf list \<Rightarrow> vq \<Rightarrow> (u32 \<times> buf list) result \<times> vq"
where
  "VirtQueue_pop_used H token inputs outputs q =
     (if \<not> can_pop q then (Err NotReady, q)
      else let index = (ucast (ue_id (used_slot q)) :: u16);
               len = ue_len (used_slot q)
           in if index \<noteq> token then (Err WrongToken, q)
              else and_then (recycle_descriptors H index inputs outputs q) (\<lambda>bs q.
                let q = q\<lparr>last_used_idx := last_used_idx q + 1\<rparr>;
                    q = (if event_idx q
                         then q\<lparr>mem := (mem q)\<lparr>sm_avail := (sm_avail (mem q))\<lparr>a_used_event := last_used_idx q\<rparr>\<rparr>\<rparr>
                         else q)
                in (Ok (len, bs), q)))"

section \<open>Blocking requests\<close>

text \<open>
  The loop \<^verbatim>\<open>while !self.can_pop() { spin_loop(); }\<close>. The device runs concurrently: \<open>env\<close> is
  what it does to the shared memory before each test of the condition, so the length of
  \<open>env\<close> bounds the number of iterations.
\<close>

fun wait_can_pop :: "(shared \<Rightarrow> shared) list \<Rightarrow> vq \<Rightarrow> unit result \<times> vq" where
  "wait_can_pop [] q = (Diverge, q)"
| "wait_can_pop (dev # env) q =
     (let q = q\<lparr>mem := dev (mem q)\<rparr> in if can_pop q then (Ok (), q) else wait_can_pop env q)"

definition add_notify_wait_pop ::
  "'t transport \<Rightarrow> hal \<Rightarrow> (shared \<Rightarrow> shared) list \<Rightarrow> buf list \<Rightarrow> buf list \<Rightarrow> vq \<times> 't
     \<Rightarrow> (u32 \<times> buf list) result \<times> (vq \<times> 't)"
where
  "add_notify_wait_pop T H env inputs outputs s =
     (case s of (q, t) \<Rightarrow>
     lift_then (VirtQueue_add H inputs outputs q) (\<lambda>q. (q, t)) (\<lambda>token q.
     lift_then (if should_notify q then t_notify T (queue_idx q) t else (Ok (), t)) (\<lambda>t. (q, t)) (\<lambda>_ t.
     lift_then (wait_can_pop env q) (\<lambda>q. (q, t)) (\<lambda>_ q.
     lift_then (VirtQueue_pop_used H token inputs outputs q) (\<lambda>q. (q, t)) (\<lambda>r q. (Ok r, (q, t)))))))"

section \<open>Ring slots\<close>

lemma ring_slot_eq:
  assumes "SIZE_OK n"
  shows "ring_slot n idx = unat idx mod n"
proof -
  from assms obtain k where n: "n = 2 ^ k" and "n \<le> 65535"
    by (auto simp: SIZE_OK_def is_power_of_two_iff)
  have "(of_nat n - 1 :: u16) = mask k"
    by (simp add: n mask_eq_exp_minus_1)
  then show ?thesis
    by (simp add: ring_slot_def n unsigned_take_bit_eq flip: take_bit_eq_mask take_bit_eq_mod)
qed
end
