(* ===== verification/Virt_Queue_Inv.thy ===== *)
theory Virt_Queue_Inv
  imports Virt_Queue "HOL-Library.Multiset"
begin

text \<open>
  The invariant of the driver's virtqueue and the behaviour of every operation under it.

  The ghost state is the list \<open>fl\<close> of free descriptors, in the order the code links them, and the
  list \<open>cs\<close> of requests in flight, each with the descriptors it owns and the buffers it shared. The
  invariant \<open>vq_inv q fl cs\<close> speaks only about the fields of \<^verbatim>\<open>VirtQueue\<close> that the device cannot
  reach, and about the size of the shared memory, so it survives any write of the device.
\<close>

section \<open>Vocabulary of the invariant\<close>

text \<open>A table indexed by \<^verbatim>\<open>u16\<close>, as a function.\<close>

definition view :: "'a list \<Rightarrow> u16 \<Rightarrow> 'a" where
  "view xs i = xs ! unat i"

lemma view_update [simp]:
  "unat i < length xs \<Longrightarrow> view (xs[unat i := x]) = (view xs)(i := x)"
  by (auto simp: view_def fun_eq_iff nth_list_update simp flip: word_unat_eq_iff)

text \<open>The descriptor that makes a shared buffer available, \<open>nx\<close> its link.\<close>

definition ent_desc :: "share_ent \<Rightarrow> bool \<Rightarrow> u16 \<Rightarrow> descriptor" where
  "ent_desc e has_next nx =
     \<lparr>d_addr = e_paddr e, d_len = of_nat (e_len e),
      d_flags = (if has_next then DescFlags_NEXT else 0) OR (if e_dir e = DeviceToDriver then DescFlags_WRITE else 0),
      d_next = nx\<rparr>"

text \<open>The buffers of a request as the HAL shares them, in order.\<close>

fun share_all :: "hal \<Rightarrow> hal_event list \<Rightarrow> (buf \<times> BufferDirection) list \<Rightarrow> share_ent list" where
  "share_all H log [] = []"
| "share_all H log ((b, dir) # bs) =
     (let e = share_entry b dir (hal_share H log b dir) in e # share_all H (log @ [Share e]) bs)"

lemma length_share_all [simp]: "length (share_all H log bs) = length bs"
  by (induction bs arbitrary: log) (auto simp: Let_def)

text \<open>The descriptors \<open>is\<close> are linked to each other by their \<^verbatim>\<open>next\<close> fields.\<close>

fun linked :: "(u16 \<Rightarrow> descriptor) \<Rightarrow> u16 list \<Rightarrow> bool" where
  "linked sh [] \<longleftrightarrow> True"
| "linked sh (i # is) \<longleftrightarrow> (is \<noteq> [] \<longrightarrow> d_next (sh i) = hd is) \<and> linked sh is"

text \<open>The descriptors \<open>is\<close> form the chain that describes the buffers \<open>es\<close>.\<close>

fun chain :: "(u16 \<Rightarrow> descriptor) \<Rightarrow> u16 list \<Rightarrow> share_ent list \<Rightarrow> bool" where
  "chain sh [] es \<longleftrightarrow> es = []"
| "chain sh (i # is) es \<longleftrightarrow>
     (\<exists>e es'. es = e # es' \<and> sh i = ent_desc e (is \<noteq> []) (if is = [] then d_next (sh i) else hd is)
        \<and> chain sh is es')"

text \<open>The indirect table that describes the buffers \<open>es\<close>, from position \<open>k\<close> on.\<close>

fun itab :: "nat \<Rightarrow> share_ent list \<Rightarrow> descriptor list" where
  "itab k [] = []"
| "itab k (e # es) = ent_desc e (es \<noteq> []) (of_nat (k + 1)) # itab (k + 1) es"

lemma length_itab [simp]: "length (itab k es) = length es"
  by (induction es arbitrary: k) auto

datatype inflight =
    Direct "u16 list" "share_ent list"
  | Indirect u16 u64 PhysAddr "share_ent list"

fun idxs :: "inflight \<Rightarrow> u16 list" where
  "idxs (Direct is es) = is"
| "idxs (Indirect h p pa es) = [h]"

fun ents :: "inflight \<Rightarrow> share_ent list" where
  "ents (Direct is es) = es"
| "ents (Indirect h p pa es) = es"

fun is_direct :: "inflight \<Rightarrow> bool" where
  "is_direct (Direct is es) = True"
| "is_direct (Indirect h p pa es) = False"

definition token_of :: "inflight \<Rightarrow> u16" where
  "token_of c = hd (idxs c)"

text \<open>The entry of an indirect table itself, and all that a request shares.\<close>

definition list_ent :: "u64 \<Rightarrow> PhysAddr \<Rightarrow> nat \<Rightarrow> share_ent" where
  "list_ent p pa n = \<lparr>e_ptr = p, e_len = 16 * n, e_dir = DriverToDevice, e_paddr = pa\<rparr>"

fun shared_ents :: "inflight \<Rightarrow> share_ent list" where
  "shared_ents (Direct is es) = es"
| "shared_ents (Indirect h p pa es) = list_ent p pa (length es) # es"

definition ent_ok :: "share_ent \<Rightarrow> bool" where
  "ent_ok e \<longleftrightarrow> 0 < e_len e \<and> e_len e < 2 ^ 32 \<and> e_dir e \<noteq> Both"

fun chain_ok :: "(u16 \<Rightarrow> descriptor) \<Rightarrow> (u16 \<Rightarrow> (u64 \<times> descriptor list) option) \<Rightarrow> inflight \<Rightarrow> bool" where
  "chain_ok sh il (Direct is es) \<longleftrightarrow>
     is \<noteq> [] \<and> chain sh is es \<and> (\<forall>i\<in>set is. il i = None) \<and> (\<forall>e\<in>set es. ent_ok e)"
| "chain_ok sh il (Indirect h p pa es) \<longleftrightarrow>
     es \<noteq> [] \<and> d_addr (sh h) = pa \<and> d_len (sh h) = of_nat (16 * length es) \<and> d_flags (sh h) = DescFlags_INDIRECT
     \<and> il h = Some (p, itab 0 es) \<and> (\<forall>e\<in>set es. ent_ok e)"

definition owned :: "inflight list \<Rightarrow> u16 list" where
  "owned cs = concat (map idxs cs)"

text \<open>The shared memory of a queue of \<open>n\<close> descriptors has the sizes the layout gives it.\<close>

definition mem_ok :: "nat \<Rightarrow> shared \<Rightarrow> bool" where
  "mem_ok n m \<longleftrightarrow> length (sm_desc m) = n \<and> length (a_ring (sm_avail m)) = n \<and> length (u_ring (sm_used m)) = n"

definition vq_inv :: "vq \<Rightarrow> u16 list \<Rightarrow> inflight list \<Rightarrow> bool" where
  "vq_inv q fl cs \<longleftrightarrow>
     SIZE_OK (SIZE q) \<and> mem_ok (SIZE q) (mem q) \<and>
     length (desc_shadow q) = SIZE q \<and> length (indirect_lists q) = SIZE q \<and>
     distinct (fl @ owned cs) \<and> set (fl @ owned cs) = {i. unat i < SIZE q} \<and>
     unat (num_used q) = length (owned cs) \<and>
     (fl \<noteq> [] \<longrightarrow> free_head q = hd fl) \<and> linked (view (desc_shadow q)) fl \<and>
     (\<forall>i\<in>set fl. view (indirect_lists q) i = None \<and> d_addr (view (desc_shadow q) i) = 0 \<and> d_len (view (desc_shadow q) i) = 0) \<and>
     (\<forall>c\<in>set cs. chain_ok (view (desc_shadow q)) (view (indirect_lists q)) c)"

text \<open>A request \<open>add\<close> may be given: no empty buffer, no buffer a descriptor cannot describe.\<close>

definition req_ok :: "(buf \<times> BufferDirection) list \<Rightarrow> bool" where
  "req_ok bs \<longleftrightarrow> (\<forall>(b, dir)\<in>set bs. 0 < buf_len b \<and> buf_len b < 2 ^ 32 \<and> dir \<noteq> Both)"

text \<open>The indirect table before the last link is cut.\<close>

fun open_itab :: "nat \<Rightarrow> share_ent list \<Rightarrow> descriptor list" where
  "open_itab k [] = []"
| "open_itab k (e # es) = ent_desc e True (of_nat (k + 1)) # open_itab (k + 1) es"

text \<open>The buffers \<open>bs\<close> are those shared as \<open>es\<close>: same address, length and direction.\<close>

definition matches :: "(buf \<times> BufferDirection) list \<Rightarrow> share_ent list \<Rightarrow> bool" where
  "matches bs es \<longleftrightarrow> list_all2 (\<lambda>(b, dir) e. share_entry b dir (e_paddr e) = e) bs es"

text \<open>The buffers of a request as the HAL leaves them when it takes them back.\<close>

fun unshare_all :: "hal \<Rightarrow> hal_event list \<Rightarrow> (buf \<times> BufferDirection) list \<Rightarrow> share_ent list \<Rightarrow> buf list" where
  "unshare_all H log ((b, dir) # bs) (e # es) =
     fst (do_unshare H log (e_paddr e) b dir) # unshare_all H (log @ [Unshare e]) bs es"
| "unshare_all H log _ _ = []"

text \<open>The buffers a caller passes are those of the request \<open>c\<close>.\<close>

definition req_match :: "buf list \<Rightarrow> buf list \<Rightarrow> inflight \<Rightarrow> bool" where
  "req_match inputs outputs c \<longleftrightarrow> matches (InputOutputIter_list (inputs, outputs)) (ents c)"

section \<open>Lists of descriptors\<close>

lemma linked_cong: "(\<And>i. i \<in> set is \<Longrightarrow> d_next (sh i) = d_next (sh' i)) \<Longrightarrow> linked sh is = linked sh' is"
  by (induction "is") auto

lemma linked_append:
  "linked sh (xs @ ys) \<longleftrightarrow>
     linked sh xs \<and> linked sh ys \<and> (xs \<noteq> [] \<and> ys \<noteq> [] \<longrightarrow> d_next (sh (last xs)) = hd ys)"
  by (induction xs) auto

lemma chain_cong: "(\<And>i. i \<in> set is \<Longrightarrow> sh i = sh' i) \<Longrightarrow> chain sh is es = chain sh' is es"
  by (induction "is" arbitrary: es) auto

lemma length_chain: "chain sh is es \<Longrightarrow> length es = length is"
  by (induction "is" arbitrary: es) auto

lemma chain_linked: "chain sh is es \<Longrightarrow> linked sh is"
proof (induction "is" arbitrary: es)
  case (Cons i "is")
  then obtain e es' where "sh i = ent_desc e (is \<noteq> []) (if is = [] then d_next (sh i) else hd is)" "linked sh is"
    by auto
  then show ?case by (cases "is = []") (simp_all add: ent_desc_def)
qed simp

lemma chain_ok_cong:
  "(\<And>i. i \<in> set (idxs c) \<Longrightarrow> sh i = sh' i \<and> il i = il' i) \<Longrightarrow> chain_ok sh il c = chain_ok sh' il' c"
  by (cases c) (auto cong: chain_cong)

lemma req_ok_Cons [simp]:
  "req_ok ((b, dir) # bs) \<longleftrightarrow> 0 < buf_len b \<and> buf_len b < 2 ^ 32 \<and> dir \<noteq> Both \<and> req_ok bs"
  "req_ok []"
  by (auto simp: req_ok_def)

section \<open>Adding buffers keeps the invariant\<close>

lemma set_buf_ok:
  assumes "buf_len b < 2 ^ 32" "dir \<noteq> Both"
  shows "Descriptor_set_buf H log d b dir DescFlags_NEXT =
    (let e = share_entry b dir (hal_share H log b dir) in (Ok (ent_desc e True (d_next d)), log @ [Share e]))"
  using assms by (cases dir) (auto simp: Descriptor_set_buf_def do_share_def Let_def share_entry_def ent_desc_def)

lemma add_direct_loop_ok:
  assumes "req_ok bs" "length bs \<le> length fl" "distinct fl" "linked (view (desc_shadow q)) fl"
    and "bs \<noteq> [] \<Longrightarrow> free_head q = hd fl" "\<forall>i\<in>set fl. unat i < length (desc_shadow q)"
    and "length (sm_desc (mem q)) = length (desc_shadow q)"
  shows "\<exists>ds md. add_direct_loop H bs lst q =
      (Ok (last (lst # take (length bs) fl)),
       q\<lparr>desc_shadow := ds, mem := (mem q)\<lparr>sm_desc := md\<rparr>,
         free_head := (if bs = [] then free_head q else d_next (view (desc_shadow q) (last (take (length bs) fl)))),
         hal_log := hal_log q @ map Share (share_all H (hal_log q) bs)\<rparr>)
    \<and> length ds = length (desc_shadow q) \<and> length md = length (desc_shadow q)
    \<and> (\<forall>i. i \<notin> set (take (length bs) fl) \<longrightarrow> view ds i = view (desc_shadow q) i \<and> view md i = view (sm_desc (mem q)) i)
    \<and> list_all2 (\<lambda>i e. view ds i = ent_desc e True (d_next (view (desc_shadow q) i)) \<and> view md i = view ds i)
        (take (length bs) fl) (share_all H (hal_log q) bs)"
  using assms
proof (induction bs arbitrary: q fl lst)
  case Nil
  then show ?case by - (rule exI [of _ "desc_shadow q"], rule exI [of _ "sm_desc (mem q)"], simp)
next
  case (Cons bd bs)
  obtain b dir where bd: "bd = (b, dir)" by (cases bd)
  from Cons.prems(2) obtain i fl' where fl: "fl = i # fl'" by (cases fl) auto
  from Cons.prems fl have i: "free_head q = i" "unat i < length (desc_shadow q)" by auto
  define e where "e = share_entry b dir (hal_share H (hal_log q) b dir)"
  define d where "d = ent_desc e True (d_next (view (desc_shadow q) i))"
  define q1 where "q1 = q\<lparr>hal_log := hal_log q @ [Share e], desc_shadow := (desc_shadow q)[unat i := d],
    free_head := d_next d, mem := (mem q)\<lparr>sm_desc := (sm_desc (mem q))[unat i := d]\<rparr>\<rparr>"
  have step: "add_direct_loop H (bd # bs) lst q = add_direct_loop H bs i q1"
    using Cons.prems(1,7) i
    by (simp add: bd set_buf_ok write_desc_def Let_def q1_def d_def e_def view_def)
  have nx: "d_next d = d_next (view (desc_shadow q) i)" by (simp add: d_def ent_desc_def)
  from Cons.prems fl have nl: "i \<notin> set fl'" "distinct fl'" by auto
  have "linked (view (desc_shadow q1)) fl' = linked (view (desc_shadow q)) fl'"
    using i nl by (intro linked_cong) (auto simp: q1_def)
  with Cons.prems(4) fl have lk: "linked (view (desc_shadow q1)) fl'" by simp
  have "\<exists>ds md. add_direct_loop H bs i q1 =
      (Ok (last (i # take (length bs) fl')),
       q1\<lparr>desc_shadow := ds, mem := (mem q1)\<lparr>sm_desc := md\<rparr>,
         free_head := (if bs = [] then free_head q1 else d_next (view (desc_shadow q1) (last (take (length bs) fl')))),
         hal_log := hal_log q1 @ map Share (share_all H (hal_log q1) bs)\<rparr>)
    \<and> length ds = length (desc_shadow q1) \<and> length md = length (desc_shadow q1)
    \<and> (\<forall>i. i \<notin> set (take (length bs) fl') \<longrightarrow> view ds i = view (desc_shadow q1) i \<and> view md i = view (sm_desc (mem q1)) i)
    \<and> list_all2 (\<lambda>i e. view ds i = ent_desc e True (d_next (view (desc_shadow q1) i)) \<and> view md i = view ds i)
        (take (length bs) fl') (share_all H (hal_log q1) bs)"
    using Cons.prems fl bd nl nx
    by (intro Cons.IH lk) (auto simp: q1_def)
  then obtain ds md where IH: "add_direct_loop H bs i q1 =
      (Ok (last (i # take (length bs) fl')),
       q1\<lparr>desc_shadow := ds, mem := (mem q1)\<lparr>sm_desc := md\<rparr>,
         free_head := (if bs = [] then free_head q1 else d_next (view (desc_shadow q1) (last (take (length bs) fl')))),
         hal_log := hal_log q1 @ map Share (share_all H (hal_log q1) bs)\<rparr>)"
    "length ds = length (desc_shadow q1)" "length md = length (desc_shadow q1)"
    "\<forall>i. i \<notin> set (take (length bs) fl') \<longrightarrow> view ds i = view (desc_shadow q1) i \<and> view md i = view (sm_desc (mem q1)) i"
    "list_all2 (\<lambda>i e. view ds i = ent_desc e True (d_next (view (desc_shadow q1) i)) \<and> view md i = view ds i)
        (take (length bs) fl') (share_all H (hal_log q1) bs)" by blast
  have ni: "i \<notin> set (take (length bs) fl')" using nl by (meson in_set_takeD)
  have ne: "bs \<noteq> [] \<Longrightarrow> take (length bs) fl' \<noteq> []" using Cons.prems(2) fl by (cases fl') auto
  have lasti: "bs \<noteq> [] \<Longrightarrow> last (take (length bs) fl') \<noteq> i"
    using ni ne last_in_set by metis
  show ?case
  proof (rule exI [of _ ds], rule exI [of _ md], intro conjI)
    show "add_direct_loop H (bd # bs) lst q =
      (Ok (last (lst # take (length (bd # bs)) fl)),
       q\<lparr>desc_shadow := ds, mem := (mem q)\<lparr>sm_desc := md\<rparr>,
         free_head := (if bd # bs = [] then free_head q else d_next (view (desc_shadow q) (last (take (length (bd # bs)) fl)))),
         hal_log := hal_log q @ map Share (share_all H (hal_log q) (bd # bs))\<rparr>)"
      using step IH(1) i ne lasti by (simp add: fl bd q1_def nx e_def Let_def)
  next
    show "list_all2 (\<lambda>i e. view ds i = ent_desc e True (d_next (view (desc_shadow q) i)) \<and> view md i = view ds i)
        (take (length (bd # bs)) fl) (share_all H (hal_log q) (bd # bs))"
    proof -
      have "list_all2 (\<lambda>i e. view ds i = ent_desc e True (d_next (view (desc_shadow q) i)) \<and> view md i = view ds i)
        (take (length bs) fl') (share_all H (hal_log q1) bs)"
        using IH(5) by (rule list.rel_mono_strong) (use i ni in \<open>auto simp: q1_def\<close>)
      then show ?thesis
        using IH(4) ni i Cons.prems(7) by (simp add: fl bd q1_def Let_def d_def e_def)
    qed
  qed (use IH ni i Cons.prems(7) fl in \<open>auto simp: q1_def\<close>)
qed
lemma list_all2_chain:
  assumes "list_all2 (\<lambda>i e. sh i = ent_desc e True (d_next (sh0 i))) is es" "linked sh0 is" "distinct is" "is \<noteq> []"
  shows "chain (sh(last is := (sh (last is))\<lparr>d_flags := d_flags (sh (last is)) AND NOT DescFlags_NEXT\<rparr>)) is es"
  using assms
proof (induction "is" arbitrary: es)
  case (Cons i "is")
  from Cons.prems(1) obtain e es' where es: "es = e # es'" "sh i = ent_desc e True (d_next (sh0 i))"
    and all: "list_all2 (\<lambda>i e. sh i = ent_desc e True (d_next (sh0 i))) is es'"
    by (auto simp: list_all2_Cons1)
  show ?case
  proof (cases "is = []")
    case True
    with all es show ?thesis by (simp add: ent_desc_def desc_flag_defs)
  next
    case False
    define sh' where "sh' = sh(last is := (sh (last is))\<lparr>d_flags := d_flags (sh (last is)) AND NOT DescFlags_NEXT\<rparr>)"
    have "chain sh' is es'" unfolding sh'_def using Cons.prems(2,3) False by (intro Cons.IH all) auto
    moreover have "last is \<noteq> i" using Cons.prems(3) False last_in_set by fastforce
    then have "sh' i = sh i" by (simp add: sh'_def)
    ultimately have "chain sh' (i # is) es" using es Cons.prems(2) False by simp
    moreover have "last (i # is) = last is" using False by simp
    ultimately show ?thesis by (simp only: sh'_def)
  qed
qed simp

lemma ent_ok_share_all: "req_ok bs \<Longrightarrow> \<forall>e\<in>set (share_all H log bs). ent_ok e"
  by (induction bs arbitrary: log) (auto simp: Let_def ent_ok_def share_entry_def)

lemma vq_inv_length: "vq_inv q fl cs \<Longrightarrow> length fl + unat (num_used q) = SIZE q"
proof -
  assume inv: "vq_inv q fl cs"
  have "bij_betw unat {i::u16. unat i < SIZE q} {..<SIZE q}"
  proof (rule bij_betw_byWitness [of _ of_nat])
    show "\<forall>a\<in>{i::u16. unat i < SIZE q}. of_nat (unat a) = a" by simp
    from inv have "SIZE q \<le> 65535" by (simp add: vq_inv_def SIZE_OK_def)
    then show "\<forall>a\<in>{..<SIZE q}. unat (of_nat a :: u16) = a" "of_nat ` {..<SIZE q} \<subseteq> {i::u16. unat i < SIZE q}"
      by (auto simp: unat_of_nat take_bit_nat_eq_self)
  qed auto
  then have "card {i::u16. unat i < SIZE q} = SIZE q" using bij_betw_same_card by fastforce
  moreover have "card (set (fl @ owned cs)) = length (fl @ owned cs)"
    using inv by (intro distinct_card) (simp add: vq_inv_def)
  ultimately show ?thesis using inv by (simp add: vq_inv_def del: set_append)
qed

lemma vq_inv_consume:
  assumes inv: "vq_inv q (idxs c @ fl) cs" and same: "SIZE q' = SIZE q" "mem_ok (SIZE q) (mem q')"
    "length (desc_shadow q') = SIZE q" "length (indirect_lists q') = SIZE q"
    and n: "num_used q' = num_used q + of_nat (length (idxs c))"
    and fh: "fl \<noteq> [] \<Longrightarrow> free_head q' = hd fl"
    and other: "\<And>i. i \<notin> set (idxs c) \<Longrightarrow> view (desc_shadow q') i = view (desc_shadow q) i"
      "\<And>i. i \<notin> set (idxs c) \<Longrightarrow> view (indirect_lists q') i = view (indirect_lists q) i"
    and c: "chain_ok (view (desc_shadow q')) (view (indirect_lists q')) c"
  shows "vq_inv q' fl (c # cs)"
proof -
  let ?sh = "view (desc_shadow q)" and ?sh' = "view (desc_shadow q')"
    and ?il = "view (indirect_lists q)" and ?il' = "view (indirect_lists q')"
  have own: "owned (c # cs) = idxs c @ owned cs" by (simp add: owned_def)
  have dis: "set (idxs c) \<inter> (set fl \<union> set (owned cs)) = {}" and sz: "SIZE_OK (SIZE q)"
    using inv by (auto simp: vq_inv_def)
  have "length (idxs c @ fl) + length (owned cs) = SIZE q"
    using vq_inv_length [OF inv] inv by (simp add: vq_inv_def)
  then have "unat (num_used q') = length (owned (c # cs))"
    using n inv sz by (simp add: own vq_inv_def SIZE_OK_def unat_word_ariths unat_of_nat take_bit_eq_mod)
  moreover have "linked ?sh' fl = linked ?sh fl"
    using dis other by (intro linked_cong) (metis IntI UnI1 empty_iff)
  moreover have "\<forall>i\<in>set fl. ?sh' i = ?sh i \<and> ?il' i = ?il i"
    using dis other by (metis IntI UnI1 empty_iff)
  moreover have "chain_ok ?sh' ?il' c' = chain_ok ?sh ?il c'" if "c' \<in> set cs" for c'
  proof (rule chain_ok_cong)
    fix i assume "i \<in> set (idxs c')"
    with that dis have "i \<notin> set (idxs c)" by (auto simp: owned_def)
    with other show "?sh' i = ?sh i \<and> ?il' i = ?il i" by simp
  qed
  moreover have "linked ?sh fl" using inv by (simp add: vq_inv_def linked_append)
  ultimately show ?thesis
    using inv same fh c dis by (auto simp: vq_inv_def own)
qed

lemma add_direct_ok:
  assumes inv: "vq_inv q fl cs" and req: "req_ok (InputOutputIter_list (inputs, outputs))"
    and n: "n = length inputs + length outputs" "0 < n" "unat (num_used q) + n \<le> SIZE q"
    and es: "es = share_all H (hal_log q) (InputOutputIter_list (inputs, outputs))"
  shows "\<exists>q'. add_direct H inputs outputs q = (Ok (hd fl), q')
    \<and> vq_inv q' (drop n fl) (Direct (take n fl) es # cs)
    \<and> (\<forall>i\<in>set (take n fl). view (sm_desc (mem q')) i = view (desc_shadow q') i)
    \<and> q' = q\<lparr>desc_shadow := desc_shadow q', free_head := free_head q', num_used := num_used q + of_nat n,
             mem := (mem q)\<lparr>sm_desc := sm_desc (mem q')\<rparr>, hal_log := hal_log q @ map Share es\<rparr>"
proof -
  let ?bs = "InputOutputIter_list (inputs, outputs)" and ?is = "take n fl"
  from vq_inv_length [OF inv] n have fl: "n \<le> length fl" by linarith
  have nb: "length ?bs = n" by (simp add: n)
  have bne: "?bs \<noteq> []" using nb n(2) by fastforce
  have fne: "fl \<noteq> []" "?is \<noteq> []" using fl n by auto
  have sz: "length (desc_shadow q) = SIZE q" "length (sm_desc (mem q)) = SIZE q" "free_head q = hd fl"
    "\<forall>i\<in>set fl. unat i < SIZE q" "distinct fl" "linked (view (desc_shadow q)) fl"
    using inv fne by (auto simp: vq_inv_def mem_ok_def)
  obtain ds md where loop: "add_direct_loop H ?bs (free_head q) q =
      (Ok (last (free_head q # ?is)),
       q\<lparr>desc_shadow := ds, mem := (mem q)\<lparr>sm_desc := md\<rparr>,
         free_head := d_next (view (desc_shadow q) (last ?is)),
         hal_log := hal_log q @ map Share es\<rparr>)"
    and lens: "length ds = SIZE q" "length md = SIZE q"
    and other: "\<forall>i. i \<notin> set ?is \<longrightarrow> view ds i = view (desc_shadow q) i \<and> view md i = view (sm_desc (mem q)) i"
    and all: "list_all2 (\<lambda>i e. view ds i = ent_desc e True (d_next (view (desc_shadow q) i)) \<and> view md i = view ds i) ?is es"
    using add_direct_loop_ok [of ?bs fl q H "free_head q"] req fl sz bne unfolding nb es by auto
  define l where "l = last ?is"
  have "l \<in> set fl" using fne last_in_set [of ?is] by (metis l_def in_set_takeD)
  then have l: "unat l < SIZE q" "l \<in> set ?is" "last (free_head q # ?is) = l"
    using fne sz(4) by (auto simp: l_def)
  define d where "d = (view ds l)\<lparr>d_flags := d_flags (view ds l) AND NOT DescFlags_NEXT\<rparr>"
  define q' where "q' = q\<lparr>desc_shadow := ds[unat l := d], mem := (mem q)\<lparr>sm_desc := md[unat l := d]\<rparr>,
         free_head := d_next (view (desc_shadow q) l), num_used := num_used q + of_nat n,
         hal_log := hal_log q @ map Share es\<rparr>"
  have eq: "add_direct H inputs outputs q = (Ok (hd fl), q')"
  proof -
    have "SIZE q \<le> 65535" using inv by (simp add: vq_inv_def SIZE_OK_def)
    then have "unat (of_nat n :: u16) = n" "unat (num_used q) + n < 65536"
      using n(3) by (simp_all add: unat_of_nat take_bit_nat_eq_self)
    then show ?thesis
      using loop [unfolded l(3), folded l_def] l(1) lens unfolding add_direct_def n(1) [symmetric]
      by (simp add: Let_def write_desc_def q'_def d_def view_def sz(3))
  qed
  have sh': "view (desc_shadow q') = (view ds)(l := d)" "view (sm_desc (mem q')) = (view md)(l := d)"
    using l lens by (simp_all add: q'_def)
  have ch: "chain (view (desc_shadow q')) ?is es"
    unfolding sh' d_def l_def
    using all sz fne by (intro list_all2_chain [of _ "view (desc_shadow q)"])
      (auto elim!: list_all2_mono simp: linked_append [of _ ?is "drop n fl", simplified])
  have "view md i = view ds i" if "i \<in> set ?is" for i
    using that list_all2_nthD [OF all] by (metis in_set_conv_nth)
  then have "\<forall>i\<in>set ?is. view (sm_desc (mem q')) i = view (desc_shadow q') i" by (simp add: sh')
  moreover have "vq_inv q' (drop n fl) (Direct ?is es # cs)"
  proof (rule vq_inv_consume)
    show "vq_inv q (idxs (Direct ?is es) @ drop n fl) cs" using inv by simp
    show "free_head q' = hd (drop n fl)" if "drop n fl \<noteq> []"
      using sz(6) fne that linked_append [of "view (desc_shadow q)" ?is "drop n fl"] by (simp add: q'_def l_def)
    show "chain_ok (view (desc_shadow q')) (view (indirect_lists q')) (Direct ?is es)"
      using ch fne inv ent_ok_share_all [OF req] by (auto simp: q'_def vq_inv_def es dest: in_set_takeD)
    show "\<And>i. i \<notin> set (idxs (Direct ?is es)) \<Longrightarrow> view (desc_shadow q') i = view (desc_shadow q) i"
      using other l(2) unfolding sh' by auto
  qed (use inv lens n fl in \<open>auto simp: q'_def mem_ok_def vq_inv_def\<close>)
  ultimately show ?thesis using eq by (auto simp: q'_def)
qed

lemma length_open_itab [simp]: "length (open_itab k es) = length es"
  by (induction es arbitrary: k) auto

lemma ent_desc_next [simp]: "(ent_desc e m x)\<lparr>d_next := y\<rparr> = ent_desc e m y"
  by (simp add: ent_desc_def)

lemma fill_indirect_ok:
  assumes "req_ok bs"
  shows "fill_indirect H k bs log = (Ok (open_itab k (share_all H log bs)), log @ map Share (share_all H log bs))"
  using assms
proof (induction bs arbitrary: k log)
  case (Cons bd bs)
  obtain b dir where bd: "bd = (b, dir)" by (cases bd)
  show ?case using Cons.prems Cons.IH [of "k + 1"] by (simp add: bd set_buf_ok Let_def)
qed simp

lemma itab_eq:
  assumes "es \<noteq> []"
  shows "(open_itab k es)[length (open_itab k es) - 1 :=
    (last (open_itab k es))\<lparr>d_flags := d_flags (last (open_itab k es)) AND NOT DescFlags_NEXT\<rparr>] = itab k es"
  using assms
proof (induction es arbitrary: k)
  case (Cons e es)
  show ?case
  proof (cases es)
    case Nil
    then show ?thesis by (simp add: ent_desc_def desc_flag_defs)
  next
    case (Cons e' es')
    with Cons.IH [of "k + 1"] show ?thesis by simp
  qed
qed simp

lemma length_desc_bytes [simp]: "length (desc_bytes d) = 16"
  by (simp add: desc_bytes_def)

lemma length_concat_desc_bytes [simp]: "length (concat (map desc_bytes ds)) = 16 * length ds"
  by (induction ds) auto

lemma add_indirect_ok:
  assumes inv: "vq_inv q fl cs" and req: "req_ok (InputOutputIter_list (inputs, outputs))"
    and n: "n = length inputs + length outputs" "0 < n" "n \<le> SIZE q" "unat (num_used q) + 1 \<le> SIZE q"
    and es: "es = share_all H (hal_log q) (InputOutputIter_list (inputs, outputs))"
  shows "\<exists>q' p pa. add_indirect H inputs outputs q = (Ok (hd fl), q')
    \<and> vq_inv q' (tl fl) (Indirect (hd fl) p pa es # cs)
    \<and> view (sm_desc (mem q')) (hd fl) = view (desc_shadow q') (hd fl)
    \<and> q' = q\<lparr>desc_shadow := desc_shadow q', free_head := free_head q', num_used := num_used q + 1,
             mem := (mem q)\<lparr>sm_desc := sm_desc (mem q')\<rparr>, indirect_lists := indirect_lists q',
             hal_log := hal_log q @ map Share es @ [Share (list_ent p pa n)]\<rparr>"
proof -
  let ?bs = "InputOutputIter_list (inputs, outputs)"
  from vq_inv_length [OF inv] n obtain h fl' where fl: "fl = h # fl'" by (cases fl) auto
  have nb: "length ?bs = n" by (simp add: n)
  have nes: "length es = n" by (simp only: es length_share_all nb)
  then have ene: "es \<noteq> []" using n(2) by auto
  have sz: "length (desc_shadow q) = SIZE q" "length (sm_desc (mem q)) = SIZE q" "free_head q = h"
    "unat h < SIZE q" "length (indirect_lists q) = SIZE q" "indirect_lists q ! unat h = None" "SIZE q \<le> 65535"
    using inv fl by (auto simp: vq_inv_def mem_ok_def view_def SIZE_OK_def)
  let ?ds = "open_itab 0 es"
  have fill: "fill_indirect H 0 ?bs (hal_log q) = (Ok ?ds, hal_log q @ map Share es)"
    unfolding es by (rule fill_indirect_ok [OF req])
  have tab: "?ds[length ?ds - 1 := (last ?ds)\<lparr>d_flags := d_flags (last ?ds) AND NOT DescFlags_NEXT\<rparr>] = itab 0 es"
    by (rule itab_eq [OF ene])
  define p where "p = hal_box_ptr H (hal_log q) n"
  define lb where "lb = \<lparr>b_ptr = p, b_data = concat (map desc_bytes (itab 0 es))\<rparr>"
  define pa where "pa = hal_share H (hal_log q @ map Share es) lb DriverToDevice"
  define d where "d = \<lparr>d_addr = pa, d_len = of_nat (16 * n), d_flags = DescFlags_INDIRECT,
    d_next = d_next (view (desc_shadow q) h)\<rparr>"
  have lb: "buf_len lb = 16 * n" by (simp add: lb_def buf_len_def nes)
  have sb: "Descriptor_set_buf H (hal_log q @ map Share es) (view (desc_shadow q) h) lb DriverToDevice DescFlags_INDIRECT
    = (Ok d, hal_log q @ map Share es @ [Share (list_ent p pa n)])"
    using n(3) sz(7) lb
    by (simp add: Descriptor_set_buf_def do_share_def Let_def share_entry_def list_ent_def d_def pa_def)
       (simp add: lb_def)
  define q' where "q' = q\<lparr>desc_shadow := (desc_shadow q)[unat h := d],
      mem := (mem q)\<lparr>sm_desc := (sm_desc (mem q))[unat h := d]\<rparr>,
      free_head := d_next (view (desc_shadow q) h), num_used := num_used q + 1,
      indirect_lists := (indirect_lists q)[unat h := Some (p, itab 0 es)],
      hal_log := hal_log q @ map Share es @ [Share (list_ent p pa n)]\<rparr>"
  have dne: "?ds \<noteq> []" using ene by (cases es) auto
  have eq: "add_indirect H inputs outputs q = (Ok (hd fl), q')"
    using fill tab sb dne sz n(4)
    unfolding add_indirect_def n(1) [symmetric]
    by (simp only: Let_def lift_then_simps) (simp add: fl q'_def p_def lb_def view_def write_desc_def Let_def)
  have "vq_inv q' fl' (Indirect h p pa es # cs)"
  proof (rule vq_inv_consume)
    show "vq_inv q (idxs (Indirect h p pa es) @ fl') cs" using inv fl by simp
    show "free_head q' = hd fl'" if "fl' \<noteq> []" using inv that by (simp add: q'_def vq_inv_def fl)
    show "chain_ok (view (desc_shadow q')) (view (indirect_lists q')) (Indirect h p pa es)"
      using sz ene ent_ok_share_all [OF req, of H "hal_log q", folded es] by (simp add: q'_def d_def nes)
  qed (use inv sz in \<open>auto simp: q'_def mem_ok_def vq_inv_def\<close>)
  with eq sz show ?thesis
    by - (rule exI [of _ q'], rule exI [of _ p], rule exI [of _ pa], auto simp: fl q'_def)
qed
section \<open>Taking buffers back keeps the invariant\<close>

lemma flags_ent_desc [simp]:
  "contains (d_flags (ent_desc e m x)) DescFlags_NEXT = m"
  "\<not> contains (d_flags (ent_desc e m x)) DescFlags_INDIRECT"
  by (auto simp: ent_desc_def desc_flag_defs contains_def)

lemma Descriptor_next_unset [simp]:
  "Descriptor_next (Descriptor_unset_buf (ent_desc e m x)) = (if m then Some x else None)"
  by (auto simp: Descriptor_next_def Descriptor_unset_buf_def) (auto simp: ent_desc_def)

lemma matches_simps [simp]:
  "matches [] es \<longleftrightarrow> es = []"
  "matches bs [] \<longleftrightarrow> bs = []"
  "matches ((b, dir) # bs) (e # es) \<longleftrightarrow> share_entry b dir (e_paddr e) = e \<and> matches bs es"
  by (auto simp: matches_def)

lemma matches_share_all: "matches bs (share_all H log bs)"
  by (induction bs arbitrary: log) (auto simp: Let_def share_entry_def)

lemma matches_length: "matches bs es \<Longrightarrow> length bs = length es"
  by (auto simp: matches_def dest: list_all2_lengthD)

lemma map_buf_len_unshare_all [simp]:
  "length bs = length es \<Longrightarrow> map buf_len (unshare_all H log bs es) = map (buf_len \<circ> fst) bs"
  by (induction H log bs es rule: unshare_all.induct) auto

lemma map_b_ptr_unshare_all [simp]:
  "length bs = length es \<Longrightarrow> map b_ptr (unshare_all H log bs es) = map (b_ptr \<circ> fst) bs"
  by (induction H log bs es rule: unshare_all.induct) (auto simp: do_unshare_def)

lemma do_unshare_match:
  "share_entry b dir (e_paddr e) = e \<Longrightarrow>
     do_unshare H log (e_paddr e) b dir = (fst (do_unshare H log (e_paddr e) b dir), log @ [Unshare e])"
  by (simp add: do_unshare_def)

lemma buf_len_match: "share_entry b dir (e_paddr e) = e \<Longrightarrow> buf_len b = e_len e"
  by (metis share_entry_def share_ent.select_convs(2))

lemma recycle_direct_loop_ok:
  assumes "chain (view (desc_shadow q)) is es" "matches bs es" "distinct is" "\<forall>e\<in>set es. ent_ok e"
    and "\<forall>i\<in>set is. unat i < length (desc_shadow q)" "length (sm_desc (mem q)) = length (desc_shadow q)"
    and "length is \<le> unat (num_used q)"
  shows "\<exists>ds md. recycle_direct_loop H orig bs (if is = [] then None else Some (hd is)) q =
      (Ok (None, unshare_all H (hal_log q) bs es),
       q\<lparr>desc_shadow := ds, mem := (mem q)\<lparr>sm_desc := md\<rparr>,
         num_used := num_used q - of_nat (length is), hal_log := hal_log q @ map Unshare es\<rparr>)
    \<and> length ds = length (desc_shadow q) \<and> length md = length (desc_shadow q)
    \<and> (\<forall>i. i \<notin> set is \<longrightarrow> view ds i = view (desc_shadow q) i \<and> view md i = view (sm_desc (mem q)) i)
    \<and> (\<forall>i\<in>set is. d_addr (view ds i) = 0 \<and> d_len (view ds i) = 0 \<and> view md i = view ds i)
    \<and> linked (view ds) is \<and> (is \<noteq> [] \<longrightarrow> d_next (view ds (last is)) = orig)"
  using assms
proof (induction "is" arbitrary: q bs es)
  case Nil
  then show ?case by - (rule exI [of _ "desc_shadow q"], rule exI [of _ "sm_desc (mem q)"], simp)
next
  case (Cons i "is")
  from Cons.prems(1,2) obtain e es' b dir bs' where es: "es = e # es'" and bs: "bs = (b, dir) # bs'"
    and d: "view (desc_shadow q) i = ent_desc e (is \<noteq> []) (if is = [] then d_next (view (desc_shadow q) i) else hd is)"
    and ch: "chain (view (desc_shadow q)) is es'" and m: "matches bs' es'" "share_entry b dir (e_paddr e) = e"
    by (cases bs) auto
  have i: "unat i < length (desc_shadow q)" "i \<notin> set is" "buf_len b \<noteq> 0" "num_used q \<noteq> 0"
    using Cons.prems(3-7) buf_len_match [OF m(2)] by (auto simp: es ent_ok_def unat_eq_zero)
  define d1 where "d1 = (Descriptor_unset_buf (view (desc_shadow q) i))\<lparr>d_next := if is = [] then orig else hd is\<rparr>"
  define q1 where "q1 = q\<lparr>desc_shadow := (desc_shadow q)[unat i := d1], num_used := num_used q - 1,
    mem := (mem q)\<lparr>sm_desc := (sm_desc (mem q))[unat i := d1]\<rparr>, hal_log := hal_log q @ [Unshare e]\<rparr>"
  have nx: "Descriptor_next (Descriptor_unset_buf (view (desc_shadow q) i)) = (if is = [] then None else Some (hd is))"
    by (subst d) simp
  have ad: "d_addr (view (desc_shadow q) i) = e_paddr e" by (subst d) (simp add: ent_desc_def)
  have keep: "is \<noteq> [] \<Longrightarrow> Descriptor_unset_buf (view (desc_shadow q) i) = d1"
    unfolding d1_def by (subst (1 2) d) (simp add: Descriptor_unset_buf_def ent_desc_def)
  have sh1: "view (desc_shadow q1) = (view (desc_shadow q))(i := d1)"
    "view (sm_desc (mem q1)) = (view (sm_desc (mem q)))(i := d1)"
    using i Cons.prems(6) by (simp_all add: q1_def)
  have d1: "(if (if is = [] then None else Some (hd is)) = None
      then (Descriptor_unset_buf (view (desc_shadow q) i))\<lparr>d_next := orig\<rparr>
      else Descriptor_unset_buf (view (desc_shadow q) i)) = d1"
    using keep by (cases "is = []") (simp_all add: d1_def)
  define b' where "b' = fst (do_unshare H (hal_log q) (e_paddr e) b dir)"
  have du: "do_unshare H (hal_log q) (e_paddr e) b dir = (b', hal_log q @ [Unshare e])"
    using do_unshare_match [OF m(2)] by (simp only: b'_def)
  have step: "recycle_direct_loop H orig bs (Some i) q =
    and_then (recycle_direct_loop H orig bs' (if is = [] then None else Some (hd is)) q1)
      (\<lambda>(nxt, us) q. (Ok (nxt, b' # us), q))"
    using i Cons.prems(6) nx ad d1
    by (cases "is = []") (simp_all add: bs Let_def view_def write_desc_def du q1_def)
  have "chain (view (desc_shadow q1)) is es' = chain (view (desc_shadow q)) is es'"
    using i(2) by (intro chain_cong) (auto simp: sh1)
  with ch have ch1: "chain (view (desc_shadow q1)) is es'" by simp
  have p1: "distinct is" "\<forall>e\<in>set es'. ent_ok e" "\<forall>i\<in>set is. unat i < length (desc_shadow q1)"
    "length (sm_desc (mem q1)) = length (desc_shadow q1)" "length is \<le> unat (num_used q1)"
    using Cons.prems(3-7) i(4) by (auto simp: es q1_def unat_minus_one)
  obtain ds md where IH:
    "recycle_direct_loop H orig bs' (if is = [] then None else Some (hd is)) q1 =
      (Ok (None, unshare_all H (hal_log q1) bs' es'),
       q1\<lparr>desc_shadow := ds, mem := (mem q1)\<lparr>sm_desc := md\<rparr>,
         num_used := num_used q1 - of_nat (length is), hal_log := hal_log q1 @ map Unshare es'\<rparr>)"
    "length ds = length (desc_shadow q1)" "length md = length (desc_shadow q1)"
    "\<forall>i. i \<notin> set is \<longrightarrow> view ds i = view (desc_shadow q1) i \<and> view md i = view (sm_desc (mem q1)) i"
    "\<forall>i\<in>set is. d_addr (view ds i) = 0 \<and> d_len (view ds i) = 0 \<and> view md i = view ds i"
    "linked (view ds) is" "is \<noteq> [] \<longrightarrow> d_next (view ds (last is)) = orig"
    using Cons.IH [OF ch1 m(1) p1] by blast
  have vi: "view ds i = d1" "view md i = d1" using IH(4) i(2) by (simp_all add: sh1)
  have d1z: "d_addr d1 = 0" "d_len d1 = 0" "d_next d1 = (if is = [] then orig else hd is)"
    by (simp_all add: d1_def Descriptor_unset_buf_def)
  show ?case
  proof (rule exI [of _ ds], rule exI [of _ md], intro conjI)
    show "recycle_direct_loop H orig bs (if i # is = [] then None else Some (hd (i # is))) q =
      (Ok (None, unshare_all H (hal_log q) bs es),
       q\<lparr>desc_shadow := ds, mem := (mem q)\<lparr>sm_desc := md\<rparr>,
         num_used := num_used q - of_nat (length (i # is)), hal_log := hal_log q @ map Unshare es\<rparr>)"
      using step IH(1) by (simp add: es bs q1_def b'_def)
    show "\<forall>j. j \<notin> set (i # is) \<longrightarrow> view ds j = view (desc_shadow q) j \<and> view md j = view (sm_desc (mem q)) j"
      using IH(4) by (simp add: sh1)
    show "linked (view ds) (i # is)" using IH(6) vi d1z by simp
    show "i # is \<noteq> [] \<longrightarrow> d_next (view ds (last (i # is))) = orig" using IH(7) vi d1z by simp
    show "length ds = length (desc_shadow q)" "length md = length (desc_shadow q)"
      using IH(2,3) by (simp_all add: q1_def)
    show "\<forall>j\<in>set (i # is). d_addr (view ds j) = 0 \<and> d_len (view ds j) = 0 \<and> view md j = view ds j"
      using IH(5) vi d1z by simp
  qed
qed

lemma owned_split: "owned (cs1 @ c # cs2) = owned cs1 @ idxs c @ owned cs2"
  by (simp add: owned_def)

lemma vq_inv_release:
  assumes inv: "vq_inv q fl (cs1 @ c # cs2)" and same: "SIZE q' = SIZE q" "mem_ok (SIZE q) (mem q')"
    "length (desc_shadow q') = SIZE q" "length (indirect_lists q') = SIZE q"
    and n: "num_used q' = num_used q - of_nat (length (idxs c))" and ne: "idxs c \<noteq> []"
    and fh: "free_head q' = hd (idxs c)"
    and lk: "linked (view (desc_shadow q')) (idxs c)" "d_next (view (desc_shadow q') (last (idxs c))) = free_head q"
    and other: "\<And>i. i \<notin> set (idxs c) \<Longrightarrow> view (desc_shadow q') i = view (desc_shadow q) i"
      "\<And>i. i \<notin> set (idxs c) \<Longrightarrow> view (indirect_lists q') i = view (indirect_lists q) i"
    and z: "\<And>i. i \<in> set (idxs c) \<Longrightarrow> view (indirect_lists q') i = None
      \<and> d_addr (view (desc_shadow q') i) = 0 \<and> d_len (view (desc_shadow q') i) = 0"
  shows "vq_inv q' (idxs c @ fl) (cs1 @ cs2)"
proof -
  let ?sh = "view (desc_shadow q)" and ?sh' = "view (desc_shadow q')"
    and ?il = "view (indirect_lists q)" and ?il' = "view (indirect_lists q')"
  have own: "owned (cs1 @ cs2) = owned cs1 @ owned cs2" by (simp add: owned_def)
  have dis: "set (idxs c) \<inter> (set fl \<union> set (owned (cs1 @ cs2))) = {}"
    using inv by (auto simp: vq_inv_def owned_split own)
  have le: "unat (num_used q) = length (owned cs1) + length (idxs c) + length (owned cs2)" "unat (num_used q) \<le> SIZE q"
    using inv vq_inv_length [OF inv] by (simp_all add: vq_inv_def owned_split)
  moreover have "SIZE q \<le> 65535" using inv by (simp add: vq_inv_def SIZE_OK_def)
  ultimately have "unat (num_used q') = length (owned (cs1 @ cs2))"
    using n unat_sub [of "of_nat (length (idxs c))" "num_used q"]
    by (simp add: own word_le_nat_alt unat_of_nat take_bit_nat_eq_self)
  moreover have "linked ?sh' fl = linked ?sh fl"
    using dis other by (intro linked_cong) (metis IntI UnI1 empty_iff)
  moreover have "\<forall>i\<in>set fl. ?sh' i = ?sh i \<and> ?il' i = ?il i"
    using dis other by (metis IntI UnI1 empty_iff)
  moreover have "chain_ok ?sh' ?il' c' = chain_ok ?sh ?il c'" if "c' \<in> set (cs1 @ cs2)" for c'
  proof (rule chain_ok_cong)
    fix i assume "i \<in> set (idxs c')"
    with that dis have "i \<notin> set (idxs c)" by (auto simp: owned_def)
    with other show "?sh' i = ?sh i \<and> ?il' i = ?il i" by simp
  qed
  moreover have "linked ?sh fl" "fl \<noteq> [] \<longrightarrow> free_head q = hd fl" using inv by (simp_all add: vq_inv_def)
  moreover have "distinct (idxs c @ fl @ owned (cs1 @ cs2))" "set (idxs c @ fl @ owned (cs1 @ cs2)) = {i. unat i < SIZE q}"
    using inv by (auto simp: vq_inv_def owned_split own)
  ultimately show ?thesis
    using inv same fh lk z ne by (auto simp: vq_inv_def linked_append)
qed

lemma unshare_indirect_ok:
  assumes "matches bs es" "\<forall>e\<in>set es. ent_ok e"
  shows "unshare_indirect H bs (itab k es) log = (Ok (unshare_all H log bs es), log @ map Unshare es)"
  using assms
proof (induction bs arbitrary: es k log)
  case (Cons bd bs)
  obtain b dir where bd: "bd = (b, dir)" by (cases bd)
  with Cons.prems obtain e es' where es: "es = e # es'" "share_entry b dir (e_paddr e) = e" "matches bs es'"
    by (cases es) auto
  have a: "d_addr (ent_desc e m x) = e_paddr e" for m x by (simp add: ent_desc_def)
  have len: "buf_len b \<noteq> 0" using buf_len_match [OF es(2)] Cons.prems(2) es(1) by (simp add: ent_ok_def)
  define b' where "b' = fst (do_unshare H log (e_paddr e) b dir)"
  have du: "do_unshare H log (e_paddr e) b dir = (b', log @ [Unshare e])"
    using do_unshare_match [OF es(2)] by (simp only: b'_def)
  show ?case using Cons.IH [OF es(3), of "k + 1" "log @ [Unshare e]"] Cons.prems(2)
    by (simp add: bd es(1) len a du)
qed simp

lemma recycle_direct_ok:
  assumes inv: "vq_inv q fl (cs1 @ Direct is es # cs2)" and m: "req_match inputs outputs (Direct is es)"
  shows "\<exists>q'. recycle_descriptors H (hd is) inputs outputs q =
      (Ok (unshare_all H (hal_log q) (InputOutputIter_list (inputs, outputs)) es), q')
    \<and> vq_inv q' (is @ fl) (cs1 @ cs2)
    \<and> q' = q\<lparr>desc_shadow := desc_shadow q', free_head := hd is, num_used := num_used q',
         mem := (mem q)\<lparr>sm_desc := sm_desc (mem q')\<rparr>, hal_log := hal_log q @ map Unshare es\<rparr>"
proof -
  let ?c = "Direct is es" and ?bs = "InputOutputIter_list (inputs, outputs)"
  let ?q0 = "q\<lparr>free_head := hd is\<rparr>"
  have c: "is \<noteq> []" "chain (view (desc_shadow q)) is es" "\<forall>i\<in>set is. view (indirect_lists q) i = None"
    "\<forall>e\<in>set es. ent_ok e" and d: "distinct is" and s: "\<forall>i\<in>set is. unat i < SIZE q"
    and l: "length (desc_shadow q) = SIZE q" "length (sm_desc (mem q)) = SIZE q" "length is \<le> unat (num_used q)"
    using inv by (auto simp: vq_inv_def owned_split mem_ok_def)
  from recycle_direct_loop_ok [of ?q0 "is" es ?bs H "free_head q"] c d s l m
  obtain ds md where loop: "recycle_direct_loop H (free_head q) ?bs (Some (hd is)) ?q0 =
      (Ok (None, unshare_all H (hal_log q) ?bs es),
       q\<lparr>free_head := hd is, desc_shadow := ds, mem := (mem q)\<lparr>sm_desc := md\<rparr>,
         num_used := num_used q - of_nat (length is), hal_log := hal_log q @ map Unshare es\<rparr>)"
    and r: "length ds = SIZE q" "length md = SIZE q"
      "\<forall>i. i \<notin> set is \<longrightarrow> view ds i = view (desc_shadow q) i"
      "\<forall>i\<in>set is. d_addr (view ds i) = 0 \<and> d_len (view ds i) = 0"
      "linked (view ds) is" "d_next (view ds (last is)) = free_head q"
    by (auto simp: req_match_def simp del: InputOutputIter_list_eq)
  define q' where "q' = q\<lparr>free_head := hd is, desc_shadow := ds, mem := (mem q)\<lparr>sm_desc := md\<rparr>,
         num_used := num_used q - of_nat (length is), hal_log := hal_log q @ map Unshare es\<rparr>"
  obtain e es' i "is'" where e: "es = e # es'" "is = i # is'" "view (desc_shadow q) i = ent_desc e (is' \<noteq> []) (if is' = [] then d_next (view (desc_shadow q) i) else hd is')"
    using c(1,2) by (cases "is") auto
  have "\<not> contains (d_flags (view (desc_shadow q) (hd is))) DescFlags_INDIRECT"
    by (simp only: e(2) list.sel, subst e(3)) simp
  then have "recycle_descriptors H (hd is) inputs outputs q = (Ok (unshare_all H (hal_log q) ?bs es), q')"
    using loop s l c(1)
    by (simp add: recycle_descriptors_def Let_def view_def q'_def del: InputOutputIter_list_eq)
  moreover have "vq_inv q' (idxs ?c @ fl) (cs1 @ cs2)"
    using inv by (rule vq_inv_release) (use inv r c in \<open>auto simp: q'_def mem_ok_def vq_inv_def\<close>)
  ultimately show ?thesis by (intro exI [of _ q']) (auto simp: q'_def)
qed

lemma recycle_indirect_ok:
  assumes inv: "vq_inv q fl (cs1 @ Indirect h p pa es # cs2)" and m: "req_match inputs outputs (Indirect h p pa es)"
  shows "\<exists>q'. recycle_descriptors H h inputs outputs q =
      (Ok (unshare_all H (hal_log q @ [Unshare (list_ent p pa (length es))]) (InputOutputIter_list (inputs, outputs)) es), q')
    \<and> vq_inv q' (h # fl) (cs1 @ cs2)
    \<and> q' = q\<lparr>desc_shadow := desc_shadow q', free_head := h, num_used := num_used q',
         indirect_lists := indirect_lists q',
         hal_log := hal_log q @ map Unshare (shared_ents (Indirect h p pa es))\<rparr>"
proof -
  let ?c = "Indirect h p pa es" and ?bs = "InputOutputIter_list (inputs, outputs)"
  have c: "d_addr (view (desc_shadow q) h) = pa" "d_flags (view (desc_shadow q) h) = DescFlags_INDIRECT"
    "view (indirect_lists q) h = Some (p, itab 0 es)" "\<forall>e\<in>set es. ent_ok e" and s: "unat h < SIZE q"
    and l: "length (desc_shadow q) = SIZE q" "length (indirect_lists q) = SIZE q" "0 < unat (num_used q)"
    using inv by (auto simp: vq_inv_def owned_split)
  define q' where "q' = q\<lparr>free_head := h, indirect_lists := (indirect_lists q)[unat h := None],
    num_used := num_used q - 1,
    desc_shadow := (desc_shadow q)[unat h := (Descriptor_unset_buf (view (desc_shadow q) h))\<lparr>d_next := free_head q\<rparr>],
    hal_log := hal_log q @ Unshare (list_ent p pa (length es)) # map Unshare es\<rparr>"
  have len: "length es = length inputs + length outputs"
    using m by (auto simp: req_match_def dest: matches_length)
  have us: "unshare_indirect H ?bs (itab 0 es) log = (Ok (unshare_all H log ?bs es), log @ map Unshare es)" for log
    using m c(4) by (intro unshare_indirect_ok) (simp_all add: req_match_def del: InputOutputIter_list_eq)
  have "recycle_descriptors H h inputs outputs q =
      (Ok (unshare_all H (hal_log q @ [Unshare (list_ent p pa (length es))]) ?bs es), q')"
    using c(1-3) s l len us
    by (simp add: recycle_descriptors_def Let_def view_def q'_def do_unshare_def share_entry_def buf_len_def
        list_ent_def contains_def unat_gt_0 del: InputOutputIter_list_eq)
  moreover have "vq_inv q' (idxs ?c @ fl) (cs1 @ cs2)"
    using inv by (rule vq_inv_release)
      (use inv s l in \<open>auto simp: q'_def mem_ok_def vq_inv_def Descriptor_unset_buf_def\<close>)
  ultimately show ?thesis by (intro exI [of _ q']) (auto simp: q'_def)
qed
end
