(* ===== verification/Virt_Queue_Spec.thy ===== *)
theory Virt_Queue_Spec
  imports Virt_Queue_Inv
begin

text \<open>
  What the driver's virtqueue promises its clients, and the proof that it does.

  The locale \<open>request_queue\<close> is the contract every driver of the crate relies on: a table of requests
  in flight, by token; \<^verbatim>\<open>add\<close> enters a request under a fresh token or changes nothing; \<^verbatim>\<open>pop_used\<close>
  removes exactly the request it is asked for or changes nothing; neither panics, whatever the
  device writes to the shared memory. It is interpreted on \<open>VirtQueue_add\<close> and
  \<open>VirtQueue_pop_used\<close>. The ledger of \<^verbatim>\<open>Hal::share\<close> and \<^verbatim>\<open>Hal::unshare\<close> calls is part of what the
  interpretation keeps.
\<close>

section \<open>Vocabulary\<close>

text \<open>The guard of \<^verbatim>\<open>add\<close> for a request of \<open>n\<close> buffers, and what the device can read of a request.\<close>

definition queue_full :: "nat \<Rightarrow> vq \<Rightarrow> bool" where
  "queue_full n q \<longleftrightarrow> unat (num_used q) + 1 > SIZE q \<or> n > SIZE q \<or> \<not> indirect q \<and> unat (num_used q) + n > SIZE q"

definition published :: "vq \<Rightarrow> inflight \<Rightarrow> bool" where
  "published q c \<longleftrightarrow> (\<forall>i\<in>set (idxs c). view (sm_desc (mem q)) i = view (desc_shadow q) i)"

section \<open>The contract\<close>

type_synonym key = "(u64 \<times> nat \<times> BufferDirection) list"

definition req_key :: "buf list \<Rightarrow> buf list \<Rightarrow> key" where
  "req_key inputs outputs = map (\<lambda>(b, dir). (b_ptr b, buf_len b, dir)) (InputOutputIter_list (inputs, outputs))"

definition ent_key :: "share_ent list \<Rightarrow> key" where
  "ent_key es = map (\<lambda>e. (e_ptr e, e_len e, e_dir e)) es"

text \<open>
  Runs of a queue with its client and its device. The table \<open>A\<close> is what the client knows: the
  buffers it has in flight, by token. The client obeys the safety contract of \<^verbatim>\<open>add\<close> and
  \<^verbatim>\<open>pop_used\<close>: it pops a token only with the buffers it added under it.
\<close>

inductive rq_run ::
  "(buf list \<Rightarrow> buf list \<Rightarrow> 'q \<Rightarrow> u16 result \<times> 'q) \<Rightarrow>
   (u16 \<Rightarrow> buf list \<Rightarrow> buf list \<Rightarrow> 'q \<Rightarrow> (u32 \<times> buf list) result \<times> 'q) \<Rightarrow>
   ('q \<Rightarrow> 'q \<Rightarrow> bool) \<Rightarrow> 'q \<Rightarrow> 'q \<Rightarrow> (u16 \<rightharpoonup> key) \<Rightarrow> bool"
  for add pop device q0
where
  start: "rq_run add pop device q0 q0 Map.empty"
| step_device: "rq_run add pop device q0 q A \<Longrightarrow> device q q' \<Longrightarrow> rq_run add pop device q0 q' A"
| step_add: "rq_run add pop device q0 q A \<Longrightarrow> req_ok (InputOutputIter_list (inputs, outputs)) \<Longrightarrow>
     add inputs outputs q = (Ok tok, q') \<Longrightarrow> rq_run add pop device q0 q' (A(tok \<mapsto> req_key inputs outputs))"
| step_add_err: "rq_run add pop device q0 q A \<Longrightarrow> req_ok (InputOutputIter_list (inputs, outputs)) \<Longrightarrow>
     add inputs outputs q = (Err e, q') \<Longrightarrow> rq_run add pop device q0 q' A"
| step_pop: "rq_run add pop device q0 q A \<Longrightarrow> A tok = Some (req_key inputs outputs) \<Longrightarrow>
     pop tok inputs outputs q = (Ok r, q') \<Longrightarrow> rq_run add pop device q0 q' (A(tok := None))"
| step_pop_err: "rq_run add pop device q0 q A \<Longrightarrow> A tok = Some (req_key inputs outputs) \<Longrightarrow>
     pop tok inputs outputs q = (Err e, q') \<Longrightarrow> rq_run add pop device q0 q' A"

text \<open>The outcomes the contract allows.\<close>

fun add_law :: "('q \<Rightarrow> (u16 \<rightharpoonup> key) \<Rightarrow> bool) \<Rightarrow> 'q \<Rightarrow> (u16 \<rightharpoonup> key) \<Rightarrow> key \<Rightarrow> u16 result \<times> 'q \<Rightarrow> bool" where
  "add_law rep q A k (Ok tok, q') \<longleftrightarrow> A tok = None \<and> rep q' (A(tok \<mapsto> k))"
| "add_law rep q A k (Err e, q') \<longleftrightarrow> q' = q \<and> (e = QueueFull \<or> e = InvalidParam \<and> k = [])"
| "add_law rep q A k (Panic, q') \<longleftrightarrow> False"
| "add_law rep q A k (Diverge, q') \<longleftrightarrow> False"

fun pop_law ::
  "('q \<Rightarrow> (u16 \<rightharpoonup> key) \<Rightarrow> bool) \<Rightarrow> 'q \<Rightarrow> (u16 \<rightharpoonup> key) \<Rightarrow> u16 \<Rightarrow> nat list \<Rightarrow> (u32 \<times> buf list) result \<times> 'q \<Rightarrow> bool"
where
  "pop_law rep q A tok lens (Ok (n, bs), q') \<longleftrightarrow> rep q' (A(tok := None)) \<and> map buf_len bs = lens"
| "pop_law rep q A tok lens (Err e, q') \<longleftrightarrow> q' = q \<and> (e = NotReady \<or> e = WrongToken)"
| "pop_law rep q A tok lens (Panic, q') \<longleftrightarrow> False"
| "pop_law rep q A tok lens (Diverge, q') \<longleftrightarrow> False"

locale request_queue =
  fixes add :: "buf list \<Rightarrow> buf list \<Rightarrow> 'q \<Rightarrow> u16 result \<times> 'q"
    and pop :: "u16 \<Rightarrow> buf list \<Rightarrow> buf list \<Rightarrow> 'q \<Rightarrow> (u32 \<times> buf list) result \<times> 'q"
    and device :: "'q \<Rightarrow> 'q \<Rightarrow> bool"
    and rep :: "'q \<Rightarrow> (u16 \<rightharpoonup> key) \<Rightarrow> bool"
  assumes add_ok: "rep q A \<Longrightarrow> req_ok (InputOutputIter_list (inputs, outputs)) \<Longrightarrow>
      add_law rep q A (req_key inputs outputs) (add inputs outputs q)"
    and pop_ok: "rep q A \<Longrightarrow> A tok = Some (req_key inputs outputs) \<Longrightarrow>
      pop_law rep q A tok (map buf_len (inputs @ outputs)) (pop tok inputs outputs q)"
    and device_ok: "rep q A \<Longrightarrow> device q q' \<Longrightarrow> rep q' A"
begin

lemma run_rep: "rq_run add pop device q0 q A \<Longrightarrow> rep q0 Map.empty \<Longrightarrow> rep q A"
proof (induction rule: rq_run.induct)
  case (step_add q A inputs outputs tok q')
  then show ?case using add_ok [of q A inputs outputs] by (simp del: fun_upd_apply)
next
  case (step_add_err q A inputs outputs e q')
  then show ?case using add_ok [of q A inputs outputs] by simp
next
  case (step_pop q A tok inputs outputs r q')
  then show ?case using pop_ok [of q A tok inputs outputs] by (cases r) (simp del: fun_upd_apply)
next
  case (step_pop_err q A tok inputs outputs e q')
  then show ?case using pop_ok [of q A tok inputs outputs] by simp
qed (auto intro: device_ok)

lemma run_add: "rq_run add pop device q0 q A \<Longrightarrow> rep q0 Map.empty \<Longrightarrow> req_ok (InputOutputIter_list (inputs, outputs))
    \<Longrightarrow> add_law rep q A (req_key inputs outputs) (add inputs outputs q)"
  by (rule add_ok [OF run_rep])

lemma run_pop: "rq_run add pop device q0 q A \<Longrightarrow> rep q0 Map.empty \<Longrightarrow> A tok = Some (req_key inputs outputs)
    \<Longrightarrow> pop_law rep q A tok (map buf_len (inputs @ outputs)) (pop tok inputs outputs q)"
  by (rule pop_ok [OF run_rep])

end

section \<open>The virtqueue implements the contract\<close>

text \<open>The ledger of a history of HAL calls: what was shared and what was taken back.\<close>

fun shares :: "hal_event list \<Rightarrow> share_ent multiset" where
  "shares [] = {#}"
| "shares (Share e # log) = add_mset e (shares log)"
| "shares (ev # log) = shares log"

fun unshares :: "hal_event list \<Rightarrow> share_ent multiset" where
  "unshares [] = {#}"
| "unshares (Unshare e # log) = add_mset e (unshares log)"
| "unshares (ev # log) = unshares log"

definition balanced :: "hal_event list \<Rightarrow> hal_event list \<Rightarrow> inflight list \<Rightarrow> bool" where
  "balanced log0 log cs \<longleftrightarrow>
     shares log + unshares log0 = shares log0 + unshares log + mset (concat (map shared_ents cs))"

definition vq_table :: "inflight list \<Rightarrow> (u16 \<rightharpoonup> key)" where
  "vq_table cs = map_of (map (\<lambda>c. (token_of c, ent_key (ents c))) cs)"

definition vq_rep :: "hal_event list \<Rightarrow> vq \<Rightarrow> (u16 \<rightharpoonup> key) \<Rightarrow> bool" where
  "vq_rep log0 q A \<longleftrightarrow> (\<exists>fl cs. vq_inv q fl cs \<and> A = vq_table cs \<and> balanced log0 (hal_log q) cs)"

text \<open>The free list of a new queue.\<close>

definition fresh_free :: "nat \<Rightarrow> u16 list" where
  "fresh_free n = map of_nat [0..<n]"

text \<open>The device writes anything anywhere in the shared memory.\<close>

definition vq_device :: "vq \<Rightarrow> vq \<Rightarrow> bool" where
  "vq_device q q' \<longleftrightarrow> (\<exists>m. mem_ok (SIZE q) m \<and> q' = q\<lparr>mem := m\<rparr>)"

lemma ring_slot_less: "SIZE_OK n \<Longrightarrow> ring_slot n idx < n"
  by (simp add: ring_slot_eq) (simp add: SIZE_OK_def is_power_of_two_def)

lemma vq_inv_frame:
  assumes "vq_inv q fl cs" "mem_ok (SIZE q) (mem q')"
    and "SIZE q' = SIZE q" "num_used q' = num_used q" "free_head q' = free_head q"
    and "desc_shadow q' = desc_shadow q" "indirect_lists q' = indirect_lists q"
  shows "vq_inv q' fl cs"
  using assms by (simp add: vq_inv_def)

lemma vq_inv_publish: "vq_inv q fl cs \<Longrightarrow> vq_inv (publish_avail h q) fl cs"
  by (rule vq_inv_frame [of q]) (auto simp: publish_avail_def Let_def vq_inv_def mem_ok_def)

lemma VirtQueue_add_ok:
  assumes inv: "vq_inv q fl cs" and req: "req_ok (InputOutputIter_list (inputs, outputs))"
    and ne: "inputs \<noteq> [] \<or> outputs \<noteq> []" and nf: "\<not> queue_full (length inputs + length outputs) q"
  shows "\<exists>q' c fl' evs. VirtQueue_add H inputs outputs q = (Ok (hd fl), q')
    \<and> fl = idxs c @ fl' \<and> idxs c \<noteq> [] \<and> vq_inv q' fl' (c # cs)
    \<and> ents c = share_all H (hal_log q) (InputOutputIter_list (inputs, outputs))
    \<and> hal_log q' = hal_log q @ map Share evs \<and> mset evs = mset (shared_ents c)
    \<and> (is_direct c \<longleftrightarrow> \<not> (indirect q \<and> length inputs + length outputs > 1))
    \<and> published q' c
    \<and> avail_idx q' = avail_idx q + 1 \<and> a_idx (sm_avail (mem q')) = avail_idx q + 1
    \<and> a_ring (sm_avail (mem q')) = (a_ring (sm_avail (mem q)))[ring_slot (SIZE q) (avail_idx q) := hd fl]
    \<and> last_used_idx q' = last_used_idx q \<and> sm_used (mem q') = sm_used (mem q)
    \<and> SIZE q' = SIZE q \<and> event_idx q' = event_idx q \<and> indirect q' = indirect q \<and> queue_idx q' = queue_idx q"
proof -
  let ?n = "length inputs + length outputs" and ?bs = "InputOutputIter_list (inputs, outputs)"
  define es where "es = share_all H (hal_log q) ?bs"
  have n: "0 < ?n" using ne by auto
  have "length es = ?n" by (simp add: es_def)
  show ?thesis
  proof (cases "indirect q \<and> ?n > 1")
    case True
    from nf have "?n \<le> SIZE q" "unat (num_used q) + 1 \<le> SIZE q" by (auto simp: queue_full_def)
    from add_indirect_ok [OF inv req refl n this es_def] obtain q' p pa where r:
      "add_indirect H inputs outputs q = (Ok (hd fl), q')" "vq_inv q' (tl fl) (Indirect (hd fl) p pa es # cs)"
      "view (sm_desc (mem q')) (hd fl) = view (desc_shadow q') (hd fl)"
      "q' = q\<lparr>desc_shadow := desc_shadow q', free_head := free_head q', num_used := num_used q + 1,
             mem := (mem q)\<lparr>sm_desc := sm_desc (mem q')\<rparr>, indirect_lists := indirect_lists q',
             hal_log := hal_log q @ map Share es @ [Share (list_ent p pa ?n)]\<rparr>" by blast
    have ne: "fl \<noteq> []" using vq_inv_length [OF inv] \<open>unat (num_used q) + 1 \<le> SIZE q\<close> by auto
    have "VirtQueue_add H inputs outputs q = (Ok (hd fl), publish_avail (hd fl) q')"
      using True nf n r(1) by (auto simp: VirtQueue_add_def queue_full_def Let_def)
    moreover have "hal_log q' = hal_log q @ map Share (es @ [list_ent p pa ?n])"
      "avail_idx q' = avail_idx q" "sm_avail (mem q') = sm_avail (mem q)" "SIZE q' = SIZE q"
      "last_used_idx q' = last_used_idx q" "sm_used (mem q') = sm_used (mem q)"
      "event_idx q' = event_idx q" "indirect q' = indirect q" "queue_idx q' = queue_idx q"
      by (subst r(4), simp)+
    ultimately show ?thesis
      using vq_inv_publish [OF r(2), of "hd fl"] r(3) ne True \<open>length es = ?n\<close>
      by (intro exI [of _ "publish_avail (hd fl) q'"] exI [of _ "Indirect (hd fl) p pa es"] exI [of _ "tl fl"]
          exI [of _ "es @ [list_ent p pa ?n]"])
         (auto simp: publish_avail_def Let_def published_def es_def)
  next
    case False
    with nf n have nd: "unat (num_used q) + ?n \<le> SIZE q" by (cases "indirect q") (auto simp: queue_full_def)
    from add_direct_ok [OF inv req refl n nd es_def] obtain q' where r:
      "add_direct H inputs outputs q = (Ok (hd fl), q')" "vq_inv q' (drop ?n fl) (Direct (take ?n fl) es # cs)"
      "\<forall>i\<in>set (take ?n fl). view (sm_desc (mem q')) i = view (desc_shadow q') i"
      "q' = q\<lparr>desc_shadow := desc_shadow q', free_head := free_head q', num_used := num_used q + of_nat ?n,
             mem := (mem q)\<lparr>sm_desc := sm_desc (mem q')\<rparr>, hal_log := hal_log q @ map Share es\<rparr>" by blast
    have len: "?n \<le> length fl" using vq_inv_length [OF inv] nd by linarith
    have "VirtQueue_add H inputs outputs q = (Ok (hd fl), publish_avail (hd fl) q')"
      using False nf n r(1) by (auto simp: VirtQueue_add_def queue_full_def Let_def)
    moreover have "hal_log q' = hal_log q @ map Share es"
      "avail_idx q' = avail_idx q" "sm_avail (mem q') = sm_avail (mem q)" "SIZE q' = SIZE q"
      "last_used_idx q' = last_used_idx q" "sm_used (mem q') = sm_used (mem q)"
      "event_idx q' = event_idx q" "indirect q' = indirect q" "queue_idx q' = queue_idx q"
      by (subst r(4), simp)+
    ultimately show ?thesis
      using vq_inv_publish [OF r(2), of "hd fl"] r(3) n len False
      by (intro exI [of _ "publish_avail (hd fl) q'"] exI [of _ "Direct (take ?n fl) es"] exI [of _ "drop ?n fl"]
          exI [of _ es])
         (auto simp: publish_avail_def Let_def published_def es_def)
  qed
qed

lemma VirtQueue_add_err:
  "VirtQueue_add H [] [] q = (Err InvalidParam, q)"
  "inputs \<noteq> [] \<or> outputs \<noteq> [] \<Longrightarrow> queue_full (length inputs + length outputs) q
     \<Longrightarrow> VirtQueue_add H inputs outputs q = (Err QueueFull, q)"
  by (auto simp: VirtQueue_add_def queue_full_def Let_def)

lemma recycle_ok:
  assumes "vq_inv q fl (cs1 @ c # cs2)" "req_match inputs outputs c"
  shows "\<exists>q' bs. recycle_descriptors H (token_of c) inputs outputs q = (Ok bs, q')
    \<and> map buf_len bs = map buf_len (inputs @ outputs) \<and> map b_ptr bs = map b_ptr (inputs @ outputs)
    \<and> vq_inv q' (idxs c @ fl) (cs1 @ cs2)
    \<and> hal_log q' = hal_log q @ map Unshare (shared_ents c)
    \<and> SIZE q' = SIZE q \<and> avail_idx q' = avail_idx q \<and> last_used_idx q' = last_used_idx q \<and> event_idx q' = event_idx q
    \<and> indirect q' = indirect q \<and> queue_idx q' = queue_idx q
    \<and> sm_used (mem q') = sm_used (mem q) \<and> sm_avail (mem q') = sm_avail (mem q)"
proof (cases c)
  case (Direct "is" es)
  from assms have "length (InputOutputIter_list (inputs, outputs)) = length es"
    by (auto simp: req_match_def Direct dest: matches_length)
  with assms recycle_direct_ok [of q fl cs1 "is" es cs2 inputs outputs H] obtain q' where r:
      "recycle_descriptors H (hd is) inputs outputs q =
        (Ok (unshare_all H (hal_log q) (InputOutputIter_list (inputs, outputs)) es), q')"
      "vq_inv q' (is @ fl) (cs1 @ cs2)"
      "q' = q\<lparr>desc_shadow := desc_shadow q', free_head := hd is, num_used := num_used q',
         mem := (mem q)\<lparr>sm_desc := sm_desc (mem q')\<rparr>, hal_log := hal_log q @ map Unshare es\<rparr>"
      "length (InputOutputIter_list (inputs, outputs)) = length es"
    unfolding Direct by blast
  have "hal_log q' = hal_log q @ map Unshare es" "SIZE q' = SIZE q" "avail_idx q' = avail_idx q"
    "last_used_idx q' = last_used_idx q" "event_idx q' = event_idx q" "indirect q' = indirect q" "queue_idx q' = queue_idx q"
    "sm_used (mem q') = sm_used (mem q)" "sm_avail (mem q') = sm_avail (mem q)"
    by (subst r(3), simp)+
  with r(1,2,4) show ?thesis
    by (intro exI [of _ q'] exI conjI) (auto simp: Direct token_of_def)
next
  case (Indirect h p pa es)
  from assms have "length (InputOutputIter_list (inputs, outputs)) = length es"
    by (auto simp: req_match_def Indirect dest: matches_length)
  with assms recycle_indirect_ok [of q fl cs1 h p pa es cs2 inputs outputs H] obtain q' where r:
      "recycle_descriptors H h inputs outputs q =
        (Ok (unshare_all H (hal_log q @ [Unshare (list_ent p pa (length es))]) (InputOutputIter_list (inputs, outputs)) es), q')"
      "vq_inv q' (h # fl) (cs1 @ cs2)"
      "q' = q\<lparr>desc_shadow := desc_shadow q', free_head := h, num_used := num_used q',
         indirect_lists := indirect_lists q',
         hal_log := hal_log q @ map Unshare (shared_ents (Indirect h p pa es))\<rparr>"
      "length (InputOutputIter_list (inputs, outputs)) = length es"
    unfolding Indirect by blast
  have "hal_log q' = hal_log q @ map Unshare (shared_ents (Indirect h p pa es))" "SIZE q' = SIZE q" "avail_idx q' = avail_idx q"
    "last_used_idx q' = last_used_idx q" "event_idx q' = event_idx q" "indirect q' = indirect q" "queue_idx q' = queue_idx q" "mem q' = mem q"
    by (subst r(3), simp)+
  with r(1,2,4) show ?thesis
    by (intro exI [of _ q'] exI conjI) (auto simp: Indirect token_of_def)
qed

lemma pop_used_ok:
  assumes inv: "vq_inv q fl (cs1 @ c # cs2)" and m: "req_match inputs outputs c"
    and u: "can_pop q" "ucast (ue_id (used_slot q)) = token_of c"
  shows "\<exists>q' bs. VirtQueue_pop_used H (token_of c) inputs outputs q = (Ok (ue_len (used_slot q), bs), q')
    \<and> map buf_len bs = map buf_len (inputs @ outputs) \<and> map b_ptr bs = map b_ptr (inputs @ outputs)
    \<and> vq_inv q' (idxs c @ fl) (cs1 @ cs2)
    \<and> hal_log q' = hal_log q @ map Unshare (shared_ents c)
    \<and> last_used_idx q' = last_used_idx q + 1
    \<and> a_used_event (sm_avail (mem q')) = (if event_idx q then last_used_idx q + 1 else a_used_event (sm_avail (mem q)))
    \<and> SIZE q' = SIZE q \<and> avail_idx q' = avail_idx q \<and> event_idx q' = event_idx q \<and> indirect q' = indirect q
    \<and> queue_idx q' = queue_idx q
    \<and> sm_used (mem q') = sm_used (mem q)
    \<and> a_idx (sm_avail (mem q')) = a_idx (sm_avail (mem q)) \<and> a_ring (sm_avail (mem q')) = a_ring (sm_avail (mem q))"
proof -
  from recycle_ok [OF inv m, of H] obtain q1 bs where r:
    "recycle_descriptors H (token_of c) inputs outputs q = (Ok bs, q1)"
    "map buf_len bs = map buf_len (inputs @ outputs)" "vq_inv q1 (idxs c @ fl) (cs1 @ cs2)"
    "map b_ptr bs = map b_ptr (inputs @ outputs)"
    "hal_log q1 = hal_log q @ map Unshare (shared_ents c)"
    "SIZE q1 = SIZE q" "avail_idx q1 = avail_idx q" "last_used_idx q1 = last_used_idx q" "event_idx q1 = event_idx q"
    "indirect q1 = indirect q" "queue_idx q1 = queue_idx q" "sm_used (mem q1) = sm_used (mem q)" "sm_avail (mem q1) = sm_avail (mem q)"
    by blast
  define q2 where "q2 = q1\<lparr>last_used_idx := last_used_idx q1 + 1\<rparr>"
  define q' where "q' = (if event_idx q2
    then q2\<lparr>mem := (mem q2)\<lparr>sm_avail := (sm_avail (mem q2))\<lparr>a_used_event := last_used_idx q2\<rparr>\<rparr>\<rparr> else q2)"
  have "VirtQueue_pop_used H (token_of c) inputs outputs q = (Ok (ue_len (used_slot q), bs), q')"
    using u r(1) by (simp add: VirtQueue_pop_used_def Let_def q'_def q2_def)
  moreover have "vq_inv q' (idxs c @ fl) (cs1 @ cs2)"
    using r(3) by (rule vq_inv_frame) (use r(3) in \<open>auto simp: q'_def q2_def vq_inv_def mem_ok_def\<close>)
  ultimately show ?thesis
    using r by (intro exI [of _ q'] exI [of _ bs]) (auto simp: q'_def q2_def)
qed

lemma pop_used_err:
  "\<not> can_pop q \<Longrightarrow> VirtQueue_pop_used H tok inputs outputs q = (Err NotReady, q)"
  "can_pop q \<Longrightarrow> ucast (ue_id (used_slot q)) \<noteq> tok \<Longrightarrow> VirtQueue_pop_used H tok inputs outputs q = (Err WrongToken, q)"
  by (simp_all add: VirtQueue_pop_used_def)
lemma shares_append [simp]:
  "shares (l @ l') = shares l + shares l'" "unshares (l @ l') = unshares l + unshares l'"
  by (induction l rule: shares.induct) auto

lemma shares_map [simp]:
  "shares (map Share es) = mset es" "shares (map Unshare es) = {#}"
  "unshares (map Unshare es) = mset es" "unshares (map Share es) = {#}"
  by (induction es) auto

lemma share_entry_key: "share_entry b dir (e_paddr e) = e \<longleftrightarrow> (b_ptr b, buf_len b, dir) = (e_ptr e, e_len e, e_dir e)"
  by (cases e) (auto simp: share_entry_def)

lemma matches_key: "matches bs es \<longleftrightarrow> map (\<lambda>(b, dir). (b_ptr b, buf_len b, dir)) bs = ent_key es"
proof (induction bs arbitrary: es)
  case (Cons bd bs)
  then show ?case by (cases es; cases bd) (auto simp: ent_key_def share_entry_key)
qed (auto simp: ent_key_def)

lemma req_match_key: "req_match inputs outputs c \<longleftrightarrow> req_key inputs outputs = ent_key (ents c)"
  by (simp add: req_match_def req_key_def matches_key del: InputOutputIter_list_eq)

lemma chain_ok_idxs: "chain_ok sh il c \<Longrightarrow> idxs c \<noteq> []"
  by (cases c) auto

lemma vq_inv_tokens: "vq_inv q fl cs \<Longrightarrow> distinct (map token_of cs) \<and> (\<forall>c\<in>set cs. idxs c \<noteq> [])"
proof -
  assume inv: "vq_inv q fl cs"
  then have ne: "\<forall>c\<in>set cs. idxs c \<noteq> []"
    using chain_ok_idxs unfolding vq_inv_def by blast
  have "distinct (owned cs)" using inv by (simp add: vq_inv_def)
  then have "distinct (map token_of cs)"
    using ne by (induction cs) (auto simp: owned_def token_of_def, metis hd_in_set disjoint_iff UN_I)
  with ne show ?thesis by simp
qed

lemma vq_table_remove:
  assumes "distinct (map token_of (cs1 @ c # cs2))"
  shows "vq_table (cs1 @ cs2) = (vq_table (cs1 @ c # cs2))(token_of c := None)"
proof
  fix t
  show "vq_table (cs1 @ cs2) t = ((vq_table (cs1 @ c # cs2))(token_of c := None)) t"
    using assms
    by (induction cs1) (auto simp: vq_table_def map_of_eq_None_iff image_iff)
qed

lemma vq_table_Some:
  assumes "vq_table cs tok = Some k"
  obtains cs1 c cs2 where "cs = cs1 @ c # cs2" "token_of c = tok" "ent_key (ents c) = k"
  using map_of_SomeD [OF assms [unfolded vq_table_def]] split_list by force

lemma vq_table_None:
  assumes "vq_inv q (idxs c @ fl) cs" "idxs c \<noteq> []"
  shows "vq_table cs (token_of c) = None"
proof -
  have "token_of c \<notin> set (owned cs)"
    using assms by (auto simp: vq_inv_def token_of_def dest: hd_in_set)
  moreover have "token_of c' \<in> set (owned cs)" if "c' \<in> set cs" for c'
    using that vq_inv_tokens [OF assms(1)] by (auto simp: owned_def token_of_def intro!: bexI [of _ c'] hd_in_set)
  ultimately show ?thesis by (auto simp: vq_table_def map_of_eq_None_iff)
qed

lemma vq_rep_add:
  assumes "vq_rep log0 q A" and req: "req_ok (InputOutputIter_list (inputs, outputs))"
  shows "add_law (vq_rep log0) q A (req_key inputs outputs) (VirtQueue_add H inputs outputs q)"
proof -
  from assms(1) obtain fl cs where r: "vq_inv q fl cs" "A = vq_table cs" "balanced log0 (hal_log q) cs"
    by (auto simp: vq_rep_def)
  consider (empty) "inputs = []" "outputs = []"
    | (full) "inputs \<noteq> [] \<or> outputs \<noteq> []" "queue_full (length inputs + length outputs) q"
    | (ok) "inputs \<noteq> [] \<or> outputs \<noteq> []" "\<not> queue_full (length inputs + length outputs) q" by blast
  then show ?thesis
  proof cases
    case empty
    then show ?thesis by (simp add: VirtQueue_add_err req_key_def)
  next
    case full
    then show ?thesis by (simp add: VirtQueue_add_err(2))
  next
    case ok
    from VirtQueue_add_ok [OF r(1) req ok, of H] obtain q' c fl' evs where a:
      "VirtQueue_add H inputs outputs q = (Ok (hd fl), q')" "fl = idxs c @ fl'" "idxs c \<noteq> []" "vq_inv q' fl' (c # cs)"
      "ents c = share_all H (hal_log q) (InputOutputIter_list (inputs, outputs))"
      "hal_log q' = hal_log q @ map Share evs" "mset evs = mset (shared_ents c)" by blast
    have tok: "hd fl = token_of c" using a(2,3) by (simp add: token_of_def)
    have key: "req_key inputs outputs = ent_key (ents c)"
      using matches_share_all [of "InputOutputIter_list (inputs, outputs)" H "hal_log q"]
      by (simp only: req_key_def matches_key a(5))
    have "vq_table (c # cs) = A(token_of c \<mapsto> req_key inputs outputs)"
      by (simp add: vq_table_def r(2) key)
    moreover have "balanced log0 (hal_log q') (c # cs)"
      using r(3) a(6,7) by (simp add: balanced_def ac_simps)
    moreover have "A (token_of c) = None" using vq_table_None r(1,2) a(2,3) by simp
    ultimately have "vq_rep log0 q' (A(token_of c \<mapsto> req_key inputs outputs))" "A (token_of c) = None"
      unfolding vq_rep_def using a(4) by metis+
    then show ?thesis using a(1) tok by simp
  qed
qed

lemma vq_rep_pop:
  assumes "vq_rep log0 q A" "A tok = Some (req_key inputs outputs)"
  shows "pop_law (vq_rep log0) q A tok (map buf_len (inputs @ outputs)) (VirtQueue_pop_used H tok inputs outputs q)"
proof -
  from assms(1) obtain fl cs where r: "vq_inv q fl cs" "A = vq_table cs" "balanced log0 (hal_log q) cs"
    by (auto simp: vq_rep_def)
  obtain cs1 c cs2 where c: "cs = cs1 @ c # cs2" "token_of c = tok" "ent_key (ents c) = req_key inputs outputs"
    using assms(2) r(2) vq_table_Some by metis
  show ?thesis
  proof (cases "can_pop q \<and> ucast (ue_id (used_slot q)) = tok")
    case False
    then show ?thesis by (cases "can_pop q") (auto simp: pop_used_err)
  next
    case True
    with pop_used_ok [of q fl cs1 c cs2 inputs outputs H] r(1) c obtain q' bs where p:
      "VirtQueue_pop_used H tok inputs outputs q = (Ok (ue_len (used_slot q), bs), q')"
      "map buf_len bs = map buf_len (inputs @ outputs)" "vq_inv q' (idxs c @ fl) (cs1 @ cs2)"
      "hal_log q' = hal_log q @ map Unshare (shared_ents c)"
      by (auto simp: req_match_key)
    have "vq_table (cs1 @ cs2) = A(tok := None)"
      using vq_table_remove [of cs1 c cs2] vq_inv_tokens [OF r(1)] c r(2) by simp
    moreover have "balanced log0 (hal_log q') (cs1 @ cs2)"
      using r(3) p(4) by (simp add: balanced_def c ac_simps)
    ultimately have "vq_rep log0 q' (A(tok := None))" unfolding vq_rep_def using p(3) by metis
    then show ?thesis using p by simp
  qed
qed

lemma vq_rep_device: "vq_rep log0 q A \<Longrightarrow> vq_device q q' \<Longrightarrow> vq_rep log0 q' A"
  unfolding vq_rep_def vq_device_def by (force intro: vq_inv_frame)

interpretation vqi: request_queue "VirtQueue_add H" "VirtQueue_pop_used H" vq_device "vq_rep log0" for H log0
  by unfold_locales (rule vq_rep_add vq_rep_pop vq_rep_device, assumption+)+


section \<open>A new queue\<close>

lemma link_descs_fold:
  "k \<le> length ds \<Longrightarrow>
     length (fold (\<lambda>i ds. ds[i := (ds ! i)\<lparr>d_next := of_nat i + 1\<rparr>]) [0..<k] ds) = length ds \<and>
     (\<forall>j<length ds. fold (\<lambda>i ds. ds[i := (ds ! i)\<lparr>d_next := of_nat i + 1\<rparr>]) [0..<k] ds ! j
        = (if j < k then (ds ! j)\<lparr>d_next := of_nat j + 1\<rparr> else ds ! j))"
  by (induction k) (auto simp: nth_list_update less_Suc_eq)

lemma length_link_descs [simp]: "n \<le> length ds \<Longrightarrow> length (link_descs n ds) = length ds"
  using link_descs_fold [of "n - 1" ds] by (simp add: link_descs_def)

lemma nth_link_descs:
  "n \<le> length ds \<Longrightarrow> j < length ds \<Longrightarrow>
     link_descs n ds ! j = (if j < n - 1 then (ds ! j)\<lparr>d_next := of_nat j + 1\<rparr> else ds ! j)"
  using link_descs_fold [of "n - 1" ds] by (simp add: link_descs_def)

lemma linked_upt:
  assumes "\<And>i. k \<le> i \<Longrightarrow> Suc i < n \<Longrightarrow> d_next (sh (of_nat i)) = of_nat (Suc i)"
  shows "linked sh (map of_nat [k..<n])"
  using assms
proof (induction "n - k" arbitrary: k)
  case (Suc x)
  then have "[k..<n] = k # [Suc k..<n]" by (simp add: upt_conv_Cons)
  moreover have "linked sh (map of_nat [Suc k..<n])" using Suc by auto
  moreover have "d_next (sh (of_nat k)) = hd (map of_nat [Suc k..<n])" if "[Suc k..<n] \<noteq> []"
    using Suc.prems [of k] that by (simp add: hd_map)
  ultimately show ?case by auto
qed simp

lemma set_fresh_free:
  assumes "n \<le> 65535"
  shows "distinct (fresh_free n)" "set (fresh_free n) = {i. unat i < n}"
proof -
  have u: "i < n \<Longrightarrow> unat (of_nat i :: u16) = i" for i
    using assms by (simp add: unat_of_nat take_bit_nat_eq_self)
  have "inj_on (of_nat :: nat \<Rightarrow> u16) {0..<n}"
    by (rule inj_on_inverseI [of _ unat]) (simp add: u)
  then show "distinct (fresh_free n)" by (simp add: fresh_free_def distinct_map)
  show "set (fresh_free n) = {i. unat i < n}"
    by (auto simp: fresh_free_def u image_iff) (metis atLeastLessThan_iff le0 of_nat_unat ucast_id)
qed

lemma vq_inv_fresh:
  assumes "SIZE_OK n" "mem_ok n (mem q)" "SIZE q = n" "num_used q = 0" "free_head q = 0"
    "desc_shadow q = link_descs n (replicate n zero_desc)" "indirect_lists q = replicate n None"
  shows "vq_inv q (fresh_free n) []"
proof -
  have n: "0 < n" "n \<le> 65535" using assms(1) by (auto simp: SIZE_OK_def is_power_of_two_def)
  let ?sh = "view (desc_shadow q)"
  have sh: "?sh i = (if unat i < n - 1 then zero_desc\<lparr>d_next := i + 1\<rparr> else zero_desc)" if "unat i < n" for i
    using that by (simp add: view_def assms(6) nth_link_descs)
  have "linked ?sh (fresh_free n)"
    unfolding fresh_free_def
    by (rule linked_upt) (use n in \<open>auto simp: sh unat_of_nat take_bit_nat_eq_self\<close>)
  moreover have "hd (fresh_free n) = 0" "fresh_free n \<noteq> []" using n by (simp_all add: fresh_free_def hd_map)
  moreover have "\<forall>i\<in>set (fresh_free n). view (indirect_lists q) i = None \<and> d_addr (?sh i) = 0 \<and> d_len (?sh i) = 0"
    unfolding set_fresh_free(2) [OF n(2)] by (auto simp: sh assms(7) zero_desc_def) (simp add: view_def)
  ultimately show ?thesis
    using assms set_fresh_free [OF n(2)] by (simp add: vq_inv_def owned_def)
qed

lemma VirtQueue_new_Ok:
  assumes "VirtQueue_new T H m n idx ind ev (t, log) = (Ok q, (t', log'))" "SIZE_OK n" "mem_ok n m"
  shows "vq_inv q (fresh_free n) []" "layout_wf n (layout q)" "hal_log q = log'"
    "SIZE q = n" "avail_idx q = 0" "last_used_idx q = 0" "queue_idx q = idx" "indirect q = ind" "event_idx q = ev"
proof -
  have n: "n \<le> 65535" using assms(2) by (simp add: SIZE_OK_def)
  from assms(1) obtain lay l1 where lay:
    "allocate_legacy H n log = (Ok lay, l1) \<or> allocate_flexible H n log = (Ok lay, l1)"
    and q: "q = \<lparr>layout = lay, mem = m\<lparr>sm_desc := link_descs n (sm_desc m)\<rparr>,
            SIZE = n, queue_idx = idx, num_used = 0, free_head = 0,
            desc_shadow = link_descs n (replicate n zero_desc),
            avail_idx = 0, last_used_idx = 0, event_idx = ev, indirect = ind,
            indirect_lists = replicate n None, hal_log = log'\<rparr>"
    unfolding VirtQueue_new_def
    by (auto simp: lift_then_Ok_iff and_then_Ok_iff split: if_split_asm)
  show "vq_inv q (fresh_free n) []"
    using assms(2,3) by (intro vq_inv_fresh) (auto simp: q mem_ok_def)
  show "layout_wf n (layout q)"
    using lay n by (auto simp: q split: if_split_asm intro: allocate_legacy_wf allocate_flexible_wf)
  show "hal_log q = log'" "SIZE q = n" "avail_idx q = 0" "last_used_idx q = 0" "queue_idx q = idx"
    "indirect q = ind" "event_idx q = ev"
    by (simp_all add: q)
qed
end
