(* ===== verification/Virt_Queue_Props.thy ===== *)
theory Virt_Queue_Props
  imports Virt_Queue_Spec
begin

text \<open>
  The properties of the driver's virtqueue that the rest of the development states to its users:
  safety of all runs against an arbitrary device, the behaviour of each operation, the blocking
  request, and the notification rule. The definitions \<open>demo_\<close>... are a concrete HAL, transport, device
  and queue on which the hypotheses of the properties are shown to hold.
\<close>

section \<open>Definitions\<close>

text \<open>The rule of the virtio specification (2.7.10) for sending an available buffer notification when
  the driver moves its index from \<open>old\<close> to \<open>new\<close>.\<close>

definition vring_need_event :: "u16 \<Rightarrow> u16 \<Rightarrow> u16 \<Rightarrow> bool" where
  "vring_need_event event new old \<longleftrightarrow> new - event - 1 < new - old"

text \<open>The memory after the first \<open>k\<close> actions of the device.\<close>

definition dev_mem :: "(shared \<Rightarrow> shared) list \<Rightarrow> nat \<Rightarrow> shared \<Rightarrow> shared" where
  "dev_mem env k m = fold (\<lambda>d. d) (take k env) m"

definition demo_hal :: hal where
  "demo_hal = \<lparr>hal_dma_alloc = (\<lambda>log n dir. (0x1000, 0x8000)), hal_dma_dealloc = (\<lambda>log p v n. 0),
     hal_share = (\<lambda>log b dir. b_ptr b), hal_unshare_data = (\<lambda>log p b i. 7), hal_box_ptr = (\<lambda>log n. 0x9000)\<rparr>"

definition demo_transport :: "nat transport" where
  "demo_transport =
     \<lparr>t_device_type = (\<lambda>t. (Ok Block, t)), t_read_device_features = (\<lambda>t. (Ok 0, t)),
      t_write_driver_features = (\<lambda>f t. (Ok (), t)), t_max_queue_size = (\<lambda>i t. (Ok 4, t)),
      t_notify = (\<lambda>i t. (Ok (), t + 1)), t_get_status = (\<lambda>t. (Ok 15, t)), t_set_status = (\<lambda>s t. (Ok (), t)),
      t_set_guest_page_size = (\<lambda>s t. (Ok (), t)), t_requires_legacy_layout = (\<lambda>t. True),
      t_queue_set = (\<lambda>i n a b c t. (Ok (), t)), t_queue_unset = (\<lambda>i t. (Ok (), t)),
      t_queue_used = (\<lambda>i t. (Ok False, t)), t_ack_interrupt = (\<lambda>t. (Ok 1, t)),
      t_ack_interrupt_raw = ack_interrupt_raw_default,
      t_read_config_generation = (\<lambda>t. (Ok 0, t)), t_read_config_space = (\<lambda>p n a t. (Err ConfigSpaceMissing, t)),
      t_write_config_space = (\<lambda>p a bs t. (Err ConfigSpaceMissing, t))\<rparr>"

definition demo_mem :: shared where
  "demo_mem = \<lparr>sm_desc = replicate 4 zero_desc,
     sm_avail = \<lparr>a_flags = 0, a_idx = 0, a_ring = replicate 4 0, a_used_event = 0\<rparr>,
     sm_used = \<lparr>u_flags = 0, u_idx = 0, u_ring = replicate 4 \<lparr>ue_id = 0, ue_len = 0\<rparr>, u_avail_event = 0\<rparr>\<rparr>"

definition demo_vq :: "bool \<Rightarrow> bool \<Rightarrow> vq" where
  "demo_vq ind ev =
     \<lparr>layout = Legacy \<lparr>dma_paddr = 0x1000, dma_vaddr = 0x8000, dma_pages = 2\<rparr> 64 4096,
      mem = demo_mem\<lparr>sm_desc := link_descs 4 (sm_desc demo_mem)\<rparr>, SIZE = 4, queue_idx = 0, num_used = 0,
      free_head = 0, desc_shadow = link_descs 4 (replicate 4 zero_desc), avail_idx = 0, last_used_idx = 0,
      event_idx = ev, indirect = ind, indirect_lists = replicate 4 None,
      hal_log = [DmaAlloc 2 Both 0x1000 0x8000]\<rparr>"

definition demo_buf :: buf where
  "demo_buf = \<lparr>b_ptr = 0x5000, b_data = [1, 2, 3]\<rparr>"

definition demo_dev :: "shared \<Rightarrow> shared" where
  "demo_dev m = m\<lparr>sm_used := (sm_used m)\<lparr>u_idx := 1, u_ring := (u_ring (sm_used m))[0 := \<lparr>ue_id = 0, ue_len = 3\<rparr>]\<rparr>\<rparr>"

section \<open>Lemmas\<close>

lemma demo_new:
  "VirtQueue_new demo_transport demo_hal demo_mem 4 0 ind ev (0, [])
     = (Ok (demo_vq ind ev), (0, [DmaAlloc 2 Both 0x1000 0x8000]))"
proof -
  have p: "is_power_of_two 4" using is_power_of_two_exp [of 2] by simp
  have a: "align_up 78 = 4096" "align_up 38 = 4096" by (simp_all add: align_up_eq PAGE_SIZE_def)
  show ?thesis
    using p a
    by (simp add: VirtQueue_new_def demo_transport_def demo_hal_def allocate_legacy_def queue_part_sizes_eq
        Dma_new_def Let_def Dma_vaddr_def PAGE_SIZE_def demo_vq_def)
qed

lemma vq_rep_fresh: "vq_inv q fl [] \<Longrightarrow> vq_rep (hal_log q) q Map.empty"
  unfolding vq_rep_def by (rule exI [of _ fl], rule exI [of _ "[]"]) (simp add: vq_table_def balanced_def)

lemma demo_ok: "SIZE_OK 4" "mem_ok 4 demo_mem"
  using is_power_of_two_exp [of 2] by (simp_all add: SIZE_OK_def mem_ok_def demo_mem_def)

lemma demo_add:
  "\<exists>q'. VirtQueue_add demo_hal [demo_buf] [demo_buf\<lparr>b_ptr := 0x6000\<rparr>] (demo_vq False True) = (Ok 0, q')"
proof -
  have "vq_inv (demo_vq False True) (fresh_free 4) []" by (rule VirtQueue_new_Ok [OF demo_new demo_ok])
  moreover have "hd (fresh_free 4) = 0" by (simp add: fresh_free_def hd_map)
  moreover have "req_ok (InputOutputIter_list ([demo_buf], [demo_buf\<lparr>b_ptr := 0x6000\<rparr>]))"
    by (simp add: demo_buf_def buf_len_def)
  moreover have "\<not> queue_full (length [demo_buf] + length [demo_buf\<lparr>b_ptr := 0x6000\<rparr>]) (demo_vq False True)"
    by (simp add: queue_full_def demo_vq_def)
  ultimately show ?thesis using VirtQueue_add_ok by (metis list.discI)
qed

lemma demo_run: "\<exists>q' A. rq_run (VirtQueue_add demo_hal) (VirtQueue_pop_used demo_hal) vq_device (demo_vq False True) q' A
    \<and> A 0 = Some (req_key [demo_buf] [demo_buf\<lparr>b_ptr := 0x6000\<rparr>])"
proof -
  obtain q' where "VirtQueue_add demo_hal [demo_buf] [demo_buf\<lparr>b_ptr := 0x6000\<rparr>] (demo_vq False True) = (Ok 0, q')"
    using demo_add by blast
  moreover have "req_ok (InputOutputIter_list ([demo_buf], [demo_buf\<lparr>b_ptr := 0x6000\<rparr>]))"
    by (simp add: demo_buf_def buf_len_def)
  ultimately have "rq_run (VirtQueue_add demo_hal) (VirtQueue_pop_used demo_hal) vq_device (demo_vq False True) q'
    (Map.empty(0 \<mapsto> req_key [demo_buf] [demo_buf\<lparr>b_ptr := 0x6000\<rparr>]))"
    by (intro rq_run.step_add [OF rq_run.start])
  then show ?thesis by force
qed

lemma need_event_single: "vring_need_event e (old + 1) old \<Longrightarrow> e = old"
  by (auto simp: vring_need_event_def word_less_nat_alt) (metis eq_iff_diff_eq_0 unat_eq_zero)

lemma need_event_nowrap:
  assumes "vring_need_event e new old" "old \<le> new"
  shows "e + 1 \<le> new"
proof -
  have "unat (new - (e + 1)) < unat new - unat old"
    using assms by (simp add: vring_need_event_def word_less_nat_alt unat_sub algebra_simps)
  then have "new - (e + 1) \<le> new" by (simp add: word_le_nat_alt)
  then show ?thesis by (simp only: word_sub_le_iff)
qed

lemma mem_ok_fold:
  "\<forall>d\<in>set ds. \<forall>m. mem_ok n m \<longrightarrow> mem_ok n (d m) \<Longrightarrow> mem_ok n m \<Longrightarrow> mem_ok n (fold (\<lambda>d. d) ds m)"
  by (induction ds arbitrary: m) auto

lemma mem_ok_dev_mem:
  "\<forall>d\<in>set env. \<forall>m. mem_ok n m \<longrightarrow> mem_ok n (d m) \<Longrightarrow> mem_ok n m \<Longrightarrow> mem_ok n (dev_mem env k m)"
  unfolding dev_mem_def by (rule mem_ok_fold) (meson in_set_takeD)

lemma wait_can_pop_cases:
  assumes "wait_can_pop env q = (r, q')"
  shows "(r = Diverge \<and> (\<forall>k\<in>{1..length env}. u_idx (sm_used (dev_mem env k (mem q))) = last_used_idx q) \<or>
      r = Ok () \<and> can_pop q')
    \<and> (\<exists>k\<le>length env. q' = q\<lparr>mem := dev_mem env k (mem q)\<rparr>)"
  using assms
proof (induction env arbitrary: q)
  case Nil
  then show ?case by (auto simp: dev_mem_def)
next
  case (Cons dev env)
  define q1 where "q1 = q\<lparr>mem := dev (mem q)\<rparr>"
  have shift: "dev_mem env k (mem q1) = dev_mem (dev # env) (Suc k) (mem q)" for k
    by (simp add: dev_mem_def q1_def)
  show ?case
  proof (cases "can_pop q1")
    case True
    with Cons.prems have "r = Ok ()" "q' = q1" by (auto simp: q1_def Let_def)
    with True show ?thesis by (auto simp: q1_def dev_mem_def intro!: exI [of _ 1])
  next
    case False
    with Cons.prems have "wait_can_pop env q1 = (r, q')" by (simp add: q1_def Let_def)
    from Cons.IH [OF this] have IH: "(r = Diverge \<and> (\<forall>k\<in>{1..length env}. u_idx (sm_used (dev_mem env k (mem q1))) = last_used_idx q) \<or>
      r = Ok () \<and> can_pop q')" "\<exists>k\<le>length env. q' = q\<lparr>mem := dev_mem env k (mem q1)\<rparr>"
      by (auto simp: q1_def)
    have "u_idx (sm_used (dev_mem (dev # env) 1 (mem q))) = last_used_idx q"
      using False by (simp add: can_pop_def q1_def dev_mem_def)
    moreover have "k = 1 \<or> (\<exists>j\<in>{1..length env}. k = Suc j)" if "k \<in> {1..length (dev # env)}" for k
      using that by (cases k) auto
    ultimately show ?thesis
      using IH unfolding shift by (metis length_Cons Suc_le_mono)
  qed
qed

lemma add_notify_wait_pop_cases:
  assumes inv: "vq_inv q fl []" and req: "req_ok (InputOutputIter_list (inputs, outputs))"
    and ne: "inputs \<noteq> [] \<or> outputs \<noteq> []" and nf: "\<not> queue_full (length inputs + length outputs) q"
    and ntf: "\<And>t. \<exists>t'. t_notify T (queue_idx q) t = (Ok (), t')"
    and env: "\<forall>d\<in>set env. \<forall>m. mem_ok (SIZE q) m \<longrightarrow> mem_ok (SIZE q) (d m)"
    and run: "add_notify_wait_pop T H env inputs outputs (q, t) = (r, (q', t'))"
  shows "\<exists>q1. VirtQueue_add H inputs outputs q = (Ok (hd fl), q1) \<and>
    (r = Diverge \<and> (\<forall>k\<in>{1..length env}. u_idx (sm_used (dev_mem env k (mem q1))) = last_used_idx q) \<or>
     can_pop q' \<and> r = Err WrongToken \<and> peek_used q' \<noteq> Some (hd fl) \<or>
     (\<exists>len bs. r = Ok (len, bs) \<and> map buf_len bs = map buf_len (inputs @ outputs) \<and> vq_inv q' fl []
        \<and> last_used_idx q' = last_used_idx q + 1
        \<and> shares (hal_log q') + unshares (hal_log q) = shares (hal_log q) + unshares (hal_log q')
        \<and> SIZE q' = SIZE q \<and> queue_idx q' = queue_idx q \<and> indirect q' = indirect q))"
proof -
  from VirtQueue_add_ok [OF inv req ne nf, of H] obtain q1 c fl' evs where a:
    "VirtQueue_add H inputs outputs q = (Ok (hd fl), q1)" "fl = idxs c @ fl'" "idxs c \<noteq> []" "vq_inv q1 fl' [c]"
    "ents c = share_all H (hal_log q) (InputOutputIter_list (inputs, outputs))"
    "hal_log q1 = hal_log q @ map Share evs" "mset evs = mset (shared_ents c)"
    "last_used_idx q1 = last_used_idx q" "queue_idx q1 = queue_idx q" "SIZE q1 = SIZE q" "indirect q1 = indirect q" by blast
  have tok: "hd fl = token_of c" using a(2,3) by (simp add: token_of_def)
  have m: "req_match inputs outputs c" unfolding req_match_def a(5) by (rule matches_share_all)
  obtain r2 q2 where w: "wait_can_pop env q1 = (r2, q2)" by fastforce
  obtain t2 where n: "(if should_notify q1 then t_notify T (queue_idx q1) t else (Ok (), t)) = (Ok (), t2)"
    using ntf a(9) by (cases "should_notify q1") auto
  note wc = wait_can_pop_cases [OF w]
  show ?thesis
  proof (cases "r2 = Diverge")
    case True
    with wc run a n w have "r = Diverge" by (auto simp: add_notify_wait_pop_def)
    with wc a(1,8) True show ?thesis by auto
  next
    case False
    with wc obtain k where k: "r2 = Ok ()" "can_pop q2" "k \<le> length env" "q2 = q1\<lparr>mem := dev_mem env k (mem q1)\<rparr>" by blast
    have "mem_ok (SIZE q) (dev_mem env k (mem q1))"
      using env a(4,10) by (intro mem_ok_dev_mem) (simp_all add: vq_inv_def)
    then have inv2: "vq_inv q2 fl' ([] @ c # [])"
      using a(4,10) k(4) by (auto intro: vq_inv_frame)
    have r: "VirtQueue_pop_used H (hd fl) inputs outputs q2 = (r, q')"
      using run a(1) n w k(1)
      by (cases "VirtQueue_pop_used H (hd fl) inputs outputs q2"; cases "fst (VirtQueue_pop_used H (hd fl) inputs outputs q2)")
         (auto simp: add_notify_wait_pop_def)
    show ?thesis
    proof (cases "peek_used q2 = Some (hd fl)")
      case True
      then have u: "ucast (ue_id (used_slot q2)) = token_of c" using k(2) by (simp add: peek_used_def tok)
      from pop_used_ok [OF inv2 m k(2) u, of H] r tok obtain bs where p: "r = Ok (ue_len (used_slot q2), bs)"
        "map buf_len bs = map buf_len (inputs @ outputs)" "vq_inv q' (idxs c @ fl') []"
        "hal_log q' = hal_log q2 @ map Unshare (shared_ents c)" "last_used_idx q' = last_used_idx q2 + 1"
        "SIZE q' = SIZE q2" "queue_idx q' = queue_idx q2" "indirect q' = indirect q2" by auto
      then have same: "SIZE q' = SIZE q" "queue_idx q' = queue_idx q" "indirect q' = indirect q" using a(9-11) k(4) by auto
      have "hal_log q' = hal_log q @ map Share evs @ map Unshare (shared_ents c)" "last_used_idx q' = last_used_idx q + 1"
        using p(4,5) a(6,8) k(4) by auto
      then have "shares (hal_log q') + unshares (hal_log q) = shares (hal_log q) + unshares (hal_log q')"
        using a(7) by (simp add: ac_simps)
      with p a(1,2) same \<open>last_used_idx q' = last_used_idx q + 1\<close> show ?thesis by blast
    next
      case False
      then have "ucast (ue_id (used_slot q2)) \<noteq> hd fl" using k(2) by (simp add: peek_used_def)
      then show ?thesis using r k(2) a(1) False pop_used_err(2) by simp
    qed
  qed
qed

section \<open>Properties\<close>

text \<open>
  C6. A queue that \<^verbatim>\<open>VirtQueue::new\<close> returns satisfies the invariant with every descriptor on the
  free list, in order, and no request in flight; the three areas of its layout lie inside the
  allocated pages, do not overlap and are aligned; all \<open>n\<close> descriptors are available.
\<close>

theorem VirtQueue_new_establishes:
  assumes "VirtQueue_new T H m n idx ind ev (t, log) = (Ok q, (t', log'))" "SIZE_OK n" "mem_ok n m"
  shows "vq_inv q (fresh_free n) [] \<and> vq_rep log' q Map.empty \<and> layout_wf n (layout q)
    \<and> SIZE q = n \<and> queue_idx q = idx \<and> available_desc q = n"
proof -
  note new = VirtQueue_new_Ok [OF assms]
  have "num_used q = 0" using vq_inv_length [OF new(1)] new(4) by (simp add: fresh_free_def unat_eq_zero)
  then show ?thesis
    using new vq_rep_fresh [OF new(1)] assms(2) by (auto simp: available_desc_def SIZE_OK_def is_power_of_two_def)
qed

theorem VirtQueue_new_establishes_witness:
  "vq_inv (demo_vq False True) (fresh_free 4) [] \<and> available_desc (demo_vq False True) = 4"
  using VirtQueue_new_establishes [OF demo_new demo_ok] by blast

text \<open>
  C1. Safety of every run. Start from a new queue and let the client call \<^verbatim>\<open>add\<close> and \<^verbatim>\<open>pop_used\<close>
  in any order, popping a token only with the buffers it added under it, while the device writes
  anything at any time to the memory it shares. The queue then always represents exactly the
  client's table of requests in flight. \<^verbatim>\<open>add\<close> hands out a token that is not in use or fails with
  \<^verbatim>\<open>QueueFull\<close> or \<^verbatim>\<open>InvalidParam\<close> and changes nothing; \<^verbatim>\<open>pop_used\<close> removes the request it was asked
  for or fails with \<^verbatim>\<open>NotReady\<close> or \<^verbatim>\<open>WrongToken\<close> and changes nothing; neither ever panics.
\<close>

theorem vq_run_safe:
  assumes "VirtQueue_new T H m n idx ind ev (t, log) = (Ok q0, (t', log'))" "SIZE_OK n" "mem_ok n m"
    and "rq_run (VirtQueue_add H) (VirtQueue_pop_used H) vq_device q0 q A"
  shows "vq_rep log' q A
    \<and> (\<forall>inputs outputs. req_ok (InputOutputIter_list (inputs, outputs)) \<longrightarrow>
         add_law (vq_rep log') q A (req_key inputs outputs) (VirtQueue_add H inputs outputs q))
    \<and> (\<forall>tok inputs outputs. A tok = Some (req_key inputs outputs) \<longrightarrow>
         pop_law (vq_rep log') q A tok (map buf_len (inputs @ outputs)) (VirtQueue_pop_used H tok inputs outputs q))"
proof -
  note new = VirtQueue_new_Ok [OF assms(1-3)]
  have "vq_rep log' q0 Map.empty"
    using vq_rep_fresh [OF new(1)] new(3) by simp
  with assms(4) show ?thesis by (blast intro: vqi.run_rep vqi.run_add vqi.run_pop)
qed

theorem vq_run_safe_witness:
  "\<exists>q A. A 0 = Some (req_key [demo_buf] [demo_buf\<lparr>b_ptr := 0x6000\<rparr>]) \<and> vq_rep [DmaAlloc 2 Both 0x1000 0x8000] q A
    \<and> pop_law (vq_rep [DmaAlloc 2 Both 0x1000 0x8000]) q A 0 [3, 3]
         (VirtQueue_pop_used demo_hal 0 [demo_buf] [demo_buf\<lparr>b_ptr := 0x6000\<rparr>] q)"
proof -
  obtain q A where r: "rq_run (VirtQueue_add demo_hal) (VirtQueue_pop_used demo_hal) vq_device (demo_vq False True) q A"
    "A 0 = Some (req_key [demo_buf] [demo_buf\<lparr>b_ptr := 0x6000\<rparr>])" using demo_run by blast
  have len: "map buf_len ([demo_buf] @ [demo_buf\<lparr>b_ptr := 0x6000\<rparr>]) = [3, 3]" by (simp add: buf_len_def demo_buf_def)
  from vq_run_safe [OF demo_new demo_ok r(1)] r(2) show ?thesis unfolding len [symmetric] by blast
qed

text \<open>
  C4. The ledger of shared buffers. In every state of such a run, what was shared with the device
  and not taken back since the queue was created is exactly what the requests in flight share, the
  indirect tables included; when nothing is in flight every shared buffer has been taken back.
\<close>

theorem ledger_balanced:
  assumes "VirtQueue_new T H m n idx ind ev (t, log) = (Ok q0, (t', log'))" "SIZE_OK n" "mem_ok n m"
    and "rq_run (VirtQueue_add H) (VirtQueue_pop_used H) vq_device q0 q A"
  shows "(\<exists>fl cs. vq_inv q fl cs \<and> A = vq_table cs \<and>
      shares (hal_log q) + unshares log' = shares log' + unshares (hal_log q) + mset (concat (map shared_ents cs)))
    \<and> (A = Map.empty \<longrightarrow> shares (hal_log q) + unshares log' = shares log' + unshares (hal_log q))"
proof -
  have "vq_rep log' q A"
    using vqi.run_rep [OF assms(4)] vq_rep_fresh VirtQueue_new_Ok [OF assms(1-3)] by metis
  then obtain fl cs where r: "vq_inv q fl cs" "A = vq_table cs" "balanced log' (hal_log q) cs"
    by (auto simp: vq_rep_def)
  have "A = Map.empty \<Longrightarrow> cs = []" unfolding r(2) by (cases cs) (auto simp: vq_table_def)
  with r show ?thesis unfolding balanced_def by force
qed

theorem ledger_balanced_witness:
  "\<exists>q A. A 0 = Some (req_key [demo_buf] [demo_buf\<lparr>b_ptr := 0x6000\<rparr>]) \<and>
    (\<exists>fl cs. vq_inv q fl cs \<and> A = vq_table cs \<and> shares (hal_log q) = unshares (hal_log q) + mset (concat (map shared_ents cs)))"
proof -
  obtain q A where r: "rq_run (VirtQueue_add demo_hal) (VirtQueue_pop_used demo_hal) vq_device (demo_vq False True) q A"
    "A 0 = Some (req_key [demo_buf] [demo_buf\<lparr>b_ptr := 0x6000\<rparr>])" using demo_run by blast
  from ledger_balanced [OF demo_new demo_ok r(1)] r(2) show ?thesis by auto
qed

text \<open>
  C2. The behaviour of \<^verbatim>\<open>add\<close>. With enough free descriptors it returns the head of the free list
  as token; the descriptors come off the front of the free list; the table the device sees holds a
  chain (or an indirect table) that describes exactly the given buffers, inputs first, with the
  write flag on the outputs; the token is written to the slot \<open>avail_idx mod SIZE\<close> and the index
  advances by one with wrap-around; each buffer is shared once.
\<close>

theorem VirtQueue_add_correct:
  assumes "vq_inv q fl cs" "req_ok (InputOutputIter_list (inputs, outputs))"
    and "inputs \<noteq> [] \<or> outputs \<noteq> []" "\<not> queue_full (length inputs + length outputs) q"
  shows "\<exists>q' c fl' evs. VirtQueue_add H inputs outputs q = (Ok (hd fl), q')
    \<and> fl = idxs c @ fl' \<and> token_of c = hd fl \<and> vq_inv q' fl' (c # cs)
    \<and> ents c = share_all H (hal_log q) (InputOutputIter_list (inputs, outputs))
    \<and> chain_ok (view (sm_desc (mem q'))) (view (indirect_lists q')) c
    \<and> hal_log q' = hal_log q @ map Share evs \<and> mset evs = mset (shared_ents c)
    \<and> avail_idx q' = avail_idx q + 1 \<and> a_idx (sm_avail (mem q')) = avail_idx q + 1
    \<and> a_ring (sm_avail (mem q')) = (a_ring (sm_avail (mem q)))[unat (avail_idx q) mod SIZE q := hd fl]
    \<and> last_used_idx q' = last_used_idx q \<and> sm_used (mem q') = sm_used (mem q)"
proof -
  from VirtQueue_add_ok [OF assms, of H] obtain q' c fl' evs where a:
    "VirtQueue_add H inputs outputs q = (Ok (hd fl), q')" "fl = idxs c @ fl'" "idxs c \<noteq> []" "vq_inv q' fl' (c # cs)"
    "ents c = share_all H (hal_log q) (InputOutputIter_list (inputs, outputs))"
    "hal_log q' = hal_log q @ map Share evs" "mset evs = mset (shared_ents c)" "published q' c"
    "avail_idx q' = avail_idx q + 1" "a_idx (sm_avail (mem q')) = avail_idx q + 1"
    "a_ring (sm_avail (mem q')) = (a_ring (sm_avail (mem q)))[ring_slot (SIZE q) (avail_idx q) := hd fl]"
    "last_used_idx q' = last_used_idx q" "sm_used (mem q') = sm_used (mem q)" by blast
  have "chain_ok (view (sm_desc (mem q'))) (view (indirect_lists q')) c
      = chain_ok (view (desc_shadow q')) (view (indirect_lists q')) c"
    using a(8) by (intro chain_ok_cong) (simp add: published_def)
  moreover have "chain_ok (view (desc_shadow q')) (view (indirect_lists q')) c" using a(4) by (simp add: vq_inv_def)
  moreover have "token_of c = hd fl" using a(2,3) by (simp add: token_of_def)
  moreover have "ring_slot (SIZE q) (avail_idx q) = unat (avail_idx q) mod SIZE q"
    using assms(1) by (simp add: ring_slot_eq vq_inv_def)
  ultimately show ?thesis using a by auto
qed

theorem VirtQueue_add_correct_witness:
  "\<exists>q' c fl'. VirtQueue_add demo_hal [demo_buf] [demo_buf\<lparr>b_ptr := 0x6000\<rparr>] (demo_vq False True) = (Ok 0, q')
     \<and> vq_inv q' fl' [c]"
proof -
  have inv: "vq_inv (demo_vq False True) (fresh_free 4) []" by (rule VirtQueue_new_Ok [OF demo_new demo_ok])
  have req: "req_ok (InputOutputIter_list ([demo_buf], [demo_buf\<lparr>b_ptr := 0x6000\<rparr>]))"
    by (simp add: demo_buf_def buf_len_def)
  have nf: "\<not> queue_full (length [demo_buf] + length [demo_buf\<lparr>b_ptr := 0x6000\<rparr>]) (demo_vq False True)"
    by (simp add: queue_full_def demo_vq_def)
  have "hd (fresh_free 4) = 0" by (simp add: fresh_free_def hd_map)
  then show ?thesis using VirtQueue_add_correct [OF inv req _ nf, of demo_hal] by auto
qed

text \<open>
  C3. The behaviour of \<^verbatim>\<open>pop_used\<close> on every branch, for a request in flight and its buffers:
  \<^verbatim>\<open>NotReady\<close> if the used ring is empty, \<^verbatim>\<open>WrongToken\<close> if the device used another chain, both
  without any effect; otherwise the length the device reported, with the descriptors of the request
  back at the front of the free list, each of its buffers unshared once, and the used index (and
  \<^verbatim>\<open>used_event\<close>, if negotiated) advanced.
\<close>

theorem pop_used_correct:
  assumes "vq_inv q fl (cs1 @ c # cs2)" "req_match inputs outputs c"
  shows "(\<not> can_pop q \<longrightarrow> VirtQueue_pop_used H (token_of c) inputs outputs q = (Err NotReady, q))
    \<and> (can_pop q \<and> peek_used q \<noteq> Some (token_of c) \<longrightarrow>
         VirtQueue_pop_used H (token_of c) inputs outputs q = (Err WrongToken, q))
    \<and> (can_pop q \<and> peek_used q = Some (token_of c) \<longrightarrow>
         (\<exists>q' bs. VirtQueue_pop_used H (token_of c) inputs outputs q = (Ok (ue_len (used_slot q), bs), q')
            \<and> map buf_len bs = map buf_len (inputs @ outputs)
            \<and> vq_inv q' (idxs c @ fl) (cs1 @ cs2)
            \<and> hal_log q' = hal_log q @ map Unshare (shared_ents c)
            \<and> last_used_idx q' = last_used_idx q + 1
            \<and> a_used_event (sm_avail (mem q')) =
                (if event_idx q then last_used_idx q + 1 else a_used_event (sm_avail (mem q)))))"
proof (intro conjI impI)
  show "VirtQueue_pop_used H (token_of c) inputs outputs q = (Err NotReady, q)" if "\<not> can_pop q"
    using that by (rule pop_used_err)
  show "VirtQueue_pop_used H (token_of c) inputs outputs q = (Err WrongToken, q)"
    if "can_pop q \<and> peek_used q \<noteq> Some (token_of c)"
    using that by (intro pop_used_err) (auto simp: peek_used_def)
next
  assume "can_pop q \<and> peek_used q = Some (token_of c)"
  then have "can_pop q" "ucast (ue_id (used_slot q)) = token_of c" by (auto simp: peek_used_def)
  from pop_used_ok [OF assms this, of H] show "\<exists>q' bs. VirtQueue_pop_used H (token_of c) inputs outputs q = (Ok (ue_len (used_slot q), bs), q')
            \<and> map buf_len bs = map buf_len (inputs @ outputs)
            \<and> vq_inv q' (idxs c @ fl) (cs1 @ cs2)
            \<and> hal_log q' = hal_log q @ map Unshare (shared_ents c)
            \<and> last_used_idx q' = last_used_idx q + 1
            \<and> a_used_event (sm_avail (mem q')) =
                (if event_idx q then last_used_idx q + 1 else a_used_event (sm_avail (mem q)))" by blast
qed

theorem pop_used_correct_witness:
  "\<exists>q c. peek_used q = None \<and> VirtQueue_pop_used demo_hal (token_of c) [demo_buf] [demo_buf\<lparr>b_ptr := 0x6000\<rparr>] q = (Err NotReady, q)"
proof -
  have inv: "vq_inv (demo_vq False True) (fresh_free 4) []" by (rule VirtQueue_new_Ok [OF demo_new demo_ok])
  have req: "req_ok (InputOutputIter_list ([demo_buf], [demo_buf\<lparr>b_ptr := 0x6000\<rparr>]))"
    by (simp add: demo_buf_def buf_len_def)
  have nf: "\<not> queue_full (length [demo_buf] + length [demo_buf\<lparr>b_ptr := 0x6000\<rparr>]) (demo_vq False True)"
    by (simp add: queue_full_def demo_vq_def)
  obtain q c fl' where q: "vq_inv q fl' [c]" "ents c = share_all demo_hal (hal_log (demo_vq False True)) (InputOutputIter_list ([demo_buf], [demo_buf\<lparr>b_ptr := 0x6000\<rparr>]))"
    "last_used_idx q = 0" "sm_used (mem q) = sm_used demo_mem"
    using VirtQueue_add_ok [OF inv req _ nf, of demo_hal] by (auto simp: demo_vq_def)
  have m: "req_match [demo_buf] [demo_buf\<lparr>b_ptr := 0x6000\<rparr>] c"
    unfolding req_match_def q(2) by (rule matches_share_all)
  have "\<not> can_pop q" using q(3,4) by (simp add: can_pop_def demo_mem_def)
  then show ?thesis using pop_used_correct [of q fl' "[]" c "[]", OF _ m, of demo_hal] q(1) by (auto simp: peek_used_def)
qed

text \<open>
  C7. \<^verbatim>\<open>available_desc\<close> is exact: a request of non-empty buffers is accepted if and only if it needs
  at most that many descriptors, with and without indirect descriptors.
\<close>

theorem available_desc_exact:
  assumes "vq_inv q fl cs" "req_ok (InputOutputIter_list (inputs, outputs))" "inputs \<noteq> [] \<or> outputs \<noteq> []"
  shows "(\<exists>tok q'. VirtQueue_add H inputs outputs q = (Ok tok, q'))
    \<longleftrightarrow> length inputs + length outputs \<le> available_desc q"
proof -
  have "unat (num_used q) \<le> SIZE q" using vq_inv_length [OF assms(1)] by simp
  moreover have "0 < length inputs + length outputs" using assms(3) by auto
  ultimately have "queue_full (length inputs + length outputs) q \<longleftrightarrow> available_desc q < length inputs + length outputs"
    by (auto simp: queue_full_def available_desc_def)
  moreover have "queue_full (length inputs + length outputs) q \<Longrightarrow> VirtQueue_add H inputs outputs q = (Err QueueFull, q)"
    using VirtQueue_add_err(2) [OF assms(3)] by blast
  moreover have "\<not> queue_full (length inputs + length outputs) q \<Longrightarrow> \<exists>tok q'. VirtQueue_add H inputs outputs q = (Ok tok, q')"
    using VirtQueue_add_ok [OF assms] by blast
  ultimately show ?thesis by (metis Pair_inject outcome.distinct(1) not_less)
qed

theorem available_desc_exact_witness:
  "\<not> (\<exists>tok q'. VirtQueue_add demo_hal (replicate 5 demo_buf) [] (demo_vq False True) = (Ok tok, q'))"
proof -
  have inv: "vq_inv (demo_vq False True) (fresh_free 4) []" by (rule VirtQueue_new_Ok [OF demo_new demo_ok])
  have req: "req_ok (InputOutputIter_list (replicate 5 demo_buf, []))"
    by (simp add: demo_buf_def buf_len_def req_ok_def)
  show ?thesis using available_desc_exact [OF inv req, of demo_hal] by (simp add: available_desc_def demo_vq_def)
qed



text \<open>
  C8. With event indices, \<^verbatim>\<open>should_notify\<close> asks for a notification whenever the virtio rule
  (\<open>vring_need_event\<close>) does, if it is consulted after each added buffer, or after several with no
  wrap of the 16-bit index in between.
\<close>

theorem should_notify_covers:
  assumes "event_idx q" "vring_need_event (u_avail_event (sm_used (mem q))) (avail_idx q) old"
    and "avail_idx q = old + 1 \<or> old \<le> avail_idx q"
  shows "should_notify q"
  using assms by (auto simp: should_notify_def dest: need_event_single need_event_nowrap)

theorem should_notify_covers_witness:
  "should_notify ((demo_vq False True)\<lparr>avail_idx := 1\<rparr>)"
  by (rule should_notify_covers [where old = 0]) (simp_all add: demo_vq_def demo_mem_def vring_need_event_def)


end
