(* ===== verification/Device_Queue.thy ===== *)
theory Device_Queue
  imports Virt_Queue
begin

text \<open>
  The device's side of a split virtqueue: \<^verbatim>\<open>DeviceVirtQueue\<close> of src/src/queue.rs, every method.

  The three pointers into the queue are the memory \<open>dv_mem\<close> they point to, which the driver may
  change. The buffers of the driver that the device maps are slices of the memory \<open>dv_guest\<close>, a
  function from virtual addresses to bytes. \<open>dv_log\<close> is the history of the calls of the
  \<^verbatim>\<open>DeviceHal\<close>.
\<close>

record mapped_descriptor =
  md_desc_copy :: descriptor
  md_dma :: device_dma

record dvq =
  dv_layout :: "device_dma VirtQueueLayout"
  dv_mem :: shared
  dv_SIZE :: nat
  dv_queue_idx :: u16
  dv_avail_idx :: u16
  dv_last_used_idx :: u16
  desc_mapped :: "mapped_descriptor option list"
  client_id :: u16
  dv_guest :: "u64 \<Rightarrow> u8"
  dv_log :: "map_event list"

text \<open>A slice of mapped memory: its first address and its length.\<close>

type_synonym slice = "u64 \<times> nat"

record descriptor_buffers =
  read_buffers :: "slice list"
  write_buffers :: "slice list"
  head :: u16

definition MappedDescriptor_eq :: "mapped_descriptor \<Rightarrow> mapped_descriptor \<Rightarrow> bool" where
  "MappedDescriptor_eq a b \<longleftrightarrow> md_desc_copy a = md_desc_copy b \<and> DeviceDma_eq (md_dma a) (md_dma b)"

definition map_buf ::
  "device_hal \<Rightarrow> descriptor \<Rightarrow> u16 \<Rightarrow> map_event list \<Rightarrow> mapped_descriptor result \<times> map_event list"
where
  "map_buf H desc_copy client log =
     (let direction = (if contains (d_flags desc_copy) DescFlags_WRITE then DeviceToDriver else DriverToDevice)
      in and_then (DeviceDma_new H log (d_addr desc_copy) (pages (unat (d_len desc_copy))) direction client)
           (\<lambda>dma log. (Ok \<lparr>md_desc_copy = desc_copy, md_dma = dma\<rparr>, log)))"

text \<open>
  \<^verbatim>\<open>DeviceVirtQueue::new\<close>; \<open>m\<close> is what the mapped memory holds, \<open>g\<close> the memory of the buffers.
\<close>

definition DeviceVirtQueue_new ::
  "'t device_transport \<Rightarrow> device_hal \<Rightarrow> shared \<Rightarrow> (u64 \<Rightarrow> u8) \<Rightarrow> nat \<Rightarrow> u16 \<Rightarrow> 't \<times> map_event list
     \<Rightarrow> dvq result \<times> ('t \<times> map_event list)"
where
  "DeviceVirtQueue_new T H m g n idx s =
     (case s of (t, log) \<Rightarrow>
     lift_then (dt_max_queue_size T idx t) (\<lambda>t. (t, log)) (\<lambda>max t.
       if max \<noteq> of_nat n then (Err InvalidParam, (t, log))
       else let client = dt_get_client_id T t
     in lift_then (dt_queue_get T idx t) (\<lambda>t. (t, log)) (\<lambda>(paddr, _, used_paddr) t.
     lift_then (if dt_requires_legacy_layout T t then map_legacy H n paddr client log
                else map_flexible H n paddr used_paddr client log) (\<lambda>log. (t, log)) (\<lambda>lay log.
     and_then (bind_ok (descriptors_vaddr lay) (\<lambda>_. bind_ok (avail_vaddr lay) (\<lambda>_. used_vaddr lay)), (t, log))
       (\<lambda>_ s.
       (Ok \<lparr>dv_layout = lay, dv_mem = m, dv_SIZE = n, dv_queue_idx = idx, dv_avail_idx = 0, dv_last_used_idx = 0,
            desc_mapped = replicate n None, client_id = client, dv_guest = g, dv_log = snd s\<rparr>, s))))))"

definition dv_can_pop :: "dvq \<Rightarrow> bool" where
  "dv_can_pop d \<longleftrightarrow> dv_avail_idx d \<noteq> a_idx (sm_avail (dv_mem d))"

definition peek_avail :: "dvq \<Rightarrow> u16 option" where
  "peek_avail d =
     (if dv_can_pop d then Some (a_ring (sm_avail (dv_mem d)) ! ring_slot (dv_SIZE d) (dv_avail_idx d)) else None)"

definition dv_should_notify :: "dvq \<Rightarrow> bool" where
  "dv_should_notify d \<longleftrightarrow> a_flags (sm_avail (dv_mem d)) AND 1 = 0"

definition read_desc :: "u16 \<Rightarrow> dvq \<Rightarrow> descriptor result" where
  "read_desc index d =
     (if unat index < length (sm_desc (dv_mem d)) then Ok (sm_desc (dv_mem d) ! unat index) else Err WrongToken)"

definition add_used :: "u16 \<Rightarrow> nat \<Rightarrow> dvq \<Rightarrow> dvq" where
  "add_used h head_len d =
     (let m = dv_mem d; us = sm_used m;
          us1 = us\<lparr>u_ring := (u_ring us)[ring_slot (dv_SIZE d) (dv_last_used_idx d) :=
                    \<lparr>ue_id = ucast h, ue_len = of_nat head_len\<rparr>]\<rparr>;
          idx = dv_last_used_idx d + 1
      in d\<lparr>dv_last_used_idx := idx, dv_mem := m\<lparr>sm_used := us1\<lparr>u_idx := idx\<rparr>\<rparr>\<rparr>)"

text \<open>
  Storing a freshly mapped descriptor: an equal previous mapping stays (the new one is
  forgotten), a different one is replaced and dropped, which unmaps it.
\<close>

definition store_mapped :: "device_hal \<Rightarrow> nat \<Rightarrow> mapped_descriptor \<Rightarrow> dvq \<Rightarrow> mapped_descriptor result \<times> dvq" where
  "store_mapped H i new_desc d =
     (case desc_mapped d ! i of
        None \<Rightarrow> (Ok new_desc, d\<lparr>desc_mapped := (desc_mapped d)[i := Some new_desc]\<rparr>)
      | Some prev \<Rightarrow>
          if MappedDescriptor_eq prev new_desc then (Ok prev, d)
          else let d' = d\<lparr>desc_mapped := (desc_mapped d)[i := Some new_desc]\<rparr>
               in lift_then (DeviceDma_drop H (dv_log d') (md_dma prev)) (\<lambda>log. d'\<lparr>dv_log := log\<rparr>)
                    (\<lambda>_ log. (Ok new_desc, d'\<lparr>dv_log := log\<rparr>)))"

text \<open>
  The loop of \<^verbatim>\<open>pop_avail\<close>. The driver can link descriptors in a circle, and the source has no bound
  on the number of iterations: \<open>fuel\<close> is the number of iterations observed.
\<close>

fun pop_avail_loop ::
  "nat \<Rightarrow> device_hal \<Rightarrow> u16 option \<Rightarrow> slice list \<Rightarrow> slice list \<Rightarrow> dvq \<Rightarrow> (slice list \<times> slice list) result \<times> dvq"
where
  "pop_avail_loop fuel H None rs ws d = (Ok (rs, ws), d)"
| "pop_avail_loop 0 H (Some token) rs ws d = (Diverge, d)"
| "pop_avail_loop (Suc fuel) H (Some token) rs ws d =
     and_then (read_desc token d, d) (\<lambda>desc d.
       let avail_len = unat (d_len desc);
           write = contains (d_flags desc) DescFlags_WRITE
       in if contains (d_flags desc) DescFlags_INDIRECT then (Panic, d)
          else let next_token = (if contains (d_flags desc) DescFlags_NEXT then Some (d_next desc) else None)
          in if \<not> unat token < length (desc_mapped d) then (Err WrongToken, d)
          else lift_then (map_buf H desc (client_id d) (dv_log d)) (\<lambda>log. d\<lparr>dv_log := log\<rparr>) (\<lambda>new_desc log.
          and_then (store_mapped H (unat token) new_desc (d\<lparr>dv_log := log\<rparr>)) (\<lambda>mapped d.
          and_then (Dma_raw_slice (md_dma mapped), d) (\<lambda>(ptr, len) d.
            if write then
              (if len < avail_len then (Panic, d)
               else pop_avail_loop fuel H next_token rs (ws @ [(ptr, avail_len)]) d)
            else if ws \<noteq> [] then (Err InvalidDescriptor, d)
            else if len < avail_len then (Panic, d)
            else pop_avail_loop fuel H next_token (rs @ [(ptr, avail_len)]) ws d))))"

definition pop_avail :: "nat \<Rightarrow> device_hal \<Rightarrow> dvq \<Rightarrow> descriptor_buffers option result \<times> dvq" where
  "pop_avail fuel H d =
     (case peek_avail d of
        None \<Rightarrow> (Ok None, d)
      | Some h \<Rightarrow>
          and_then (pop_avail_loop fuel H (Some h) [] [] d) (\<lambda>(rs, ws) d.
            (Ok (Some \<lparr>read_buffers = rs, write_buffers = ws, head = h\<rparr>),
             d\<lparr>dv_avail_idx := dv_avail_idx d + 1\<rparr>)))"

section \<open>Receiving and answering\<close>

definition read_slice :: "(u64 \<Rightarrow> u8) \<Rightarrow> slice \<Rightarrow> bytes" where
  "read_slice g s = map (\<lambda>i. g (fst s + of_nat i)) [0..<snd s]"

definition write_slice :: "u64 \<Rightarrow> bytes \<Rightarrow> (u64 \<Rightarrow> u8) \<Rightarrow> (u64 \<Rightarrow> u8)" where
  "write_slice a bs g = (\<lambda>x. if unat (x - a) < length bs then bs ! unat (x - a) else g x)"

definition dv_notify :: "'t device_transport \<Rightarrow> dvq \<times> 't \<Rightarrow> unit result \<times> (dvq \<times> 't)" where
  "dv_notify T s =
     (case s of (d, t) \<Rightarrow>
       if dv_should_notify d
       then lift_then (dt_notify T (dv_queue_idx d) t) (\<lambda>t. (d, t)) (\<lambda>_ t. (Ok (), (d, t)))
       else (Ok (), (d, t)))"

text \<open>\<^verbatim>\<open>poll\<close>. The handler's outcome is returned after the chain went back, also when it is an error;
  \<open>i\<close> is the state the handler captures.\<close>

definition dv_poll ::
  "nat \<Rightarrow> 't device_transport \<Rightarrow> device_hal \<Rightarrow> (bytes \<Rightarrow> 'i \<Rightarrow> 'a option result \<times> 'i) \<Rightarrow> (dvq \<times> 't) \<times> 'i
     \<Rightarrow> 'a option result \<times> ((dvq \<times> 't) \<times> 'i)"
where
  "dv_poll fuel T H handler s =
     (case s of ((d, t), i) \<Rightarrow>
     lift_then (pop_avail fuel H d) (\<lambda>d. ((d, t), i)) (\<lambda>r d.
       case r of
         None \<Rightarrow> (Ok None, ((d, t), i))
       | Some popped \<Rightarrow>
           if write_buffers popped \<noteq> [] then (Err Unsupported, ((d, t), i))
           else let tmp = concat (map (read_slice (dv_guest d)) (read_buffers popped))
                in (case handler tmp i of (result, i) \<Rightarrow>
                      if result = Panic \<or> result = Diverge then (result, ((d, t), i))
                      else lift_then (dv_notify T (add_used (head popped) 0 d, t)) (\<lambda>s. (s, i)) (\<lambda>_ s. (result, (s, i))))))"

text \<open>The loop that copies the inputs into the first write buffer, checking the bounds of each slice.\<close>

fun copy_inputs :: "bytes list \<Rightarrow> slice \<Rightarrow> nat \<Rightarrow> dvq \<Rightarrow> nat result \<times> dvq" where
  "copy_inputs [] out_buf copied d = (Ok copied, d)"
| "copy_inputs (in_buf # ins) out_buf copied d =
     (if snd out_buf < copied + length in_buf then (Panic, d)
      else copy_inputs ins out_buf (copied + length in_buf)
             (d\<lparr>dv_guest := write_slice (fst out_buf + of_nat copied) in_buf (dv_guest d)\<rparr>))"

fun dv_wait_can_pop :: "(shared \<Rightarrow> shared) list \<Rightarrow> dvq \<Rightarrow> unit result \<times> dvq" where
  "dv_wait_can_pop [] d = (Diverge, d)"
| "dv_wait_can_pop (drv # env) d =
     (let d = d\<lparr>dv_mem := drv (dv_mem d)\<rparr> in if dv_can_pop d then (Ok (), d) else dv_wait_can_pop env d)"

definition wait_pop_add_notify ::
  "nat \<Rightarrow> 't device_transport \<Rightarrow> device_hal \<Rightarrow> (shared \<Rightarrow> shared) list \<Rightarrow> bytes list \<Rightarrow> dvq \<times> 't
     \<Rightarrow> unit result \<times> (dvq \<times> 't)"
where
  "wait_pop_add_notify fuel T H env inputs s =
     (case s of (d, t) \<Rightarrow>
     lift_then (dv_wait_can_pop env d) (\<lambda>d. (d, t)) (\<lambda>_ d.
     lift_then (pop_avail fuel H d) (\<lambda>d. (d, t)) (\<lambda>r d.
       case r of
         None \<Rightarrow> (Panic, (d, t))
       | Some popped \<Rightarrow>
           (case write_buffers popped of
              [] \<Rightarrow> (Err NotReady, (d, t))
            | out_buf # _ \<Rightarrow>
                if read_buffers popped \<noteq> [] then (Err Unsupported, (d, t))
                else lift_then (copy_inputs inputs out_buf 0 d) (\<lambda>d. (d, t)) (\<lambda>copied d.
                  dv_notify T (add_used (head popped) copied d, t))))))"

end
