(* ===== verification/Device_Queue_Props.thy ===== *)
theory Device_Queue_Props
  imports Virt_Queue_Props Device_Queue
begin

text \<open>
  The device's virtqueue together with the driver's: what \<^verbatim>\<open>VirtQueue::add\<close> publishes is what
  \<^verbatim>\<open>DeviceVirtQueue\<close> pops, and what the device returns is what \<^verbatim>\<open>VirtQueue::pop_used\<close> takes back. The
  last properties say what a device does with chains no driver of this crate publishes.
\<close>

section \<open>Definitions\<close>

text \<open>
  What the device's \<^verbatim>\<open>DeviceHal\<close> has to do: map every address to a fixed non-null address, and
  unmap without an error.
\<close>

definition dhal_ok :: "device_hal \<Rightarrow> (PhysAddr \<Rightarrow> u64) \<Rightarrow> bool" where
  "dhal_ok H v \<longleftrightarrow> (\<forall>log p n dir c. dh_dma_map H log p n dir c = Ok (v p)) \<and> (\<forall>log p w n. dh_dma_unmap H log p w n = 0)
     \<and> (\<forall>p. v p \<noteq> 0)"

text \<open>Device-readable buffers come before device-writable ones; \<open>seen\<close>: a writable one was seen.\<close>

fun io_sorted :: "bool \<Rightarrow> share_ent list \<Rightarrow> bool" where
  "io_sorted seen [] \<longleftrightarrow> True"
| "io_sorted seen (e # es) \<longleftrightarrow> (if e_dir e = DeviceToDriver then io_sorted True es else \<not> seen \<and> io_sorted False es)"

definition slices :: "(PhysAddr \<Rightarrow> u64) \<Rightarrow> BufferDirection \<Rightarrow> share_ent list \<Rightarrow> slice list" where
  "slices v dir es = map (\<lambda>e. (v (e_paddr e), e_len e)) (filter (\<lambda>e. e_dir e = dir) es)"

text \<open>The device's view agrees with the driver's: same memory, same indices.\<close>

definition in_sync :: "vq \<Rightarrow> dvq \<Rightarrow> bool" where
  "in_sync q d \<longleftrightarrow> dv_SIZE d = SIZE q \<and> dv_avail_idx d = avail_idx q \<and> dv_last_used_idx d = last_used_idx q
     \<and> length (desc_mapped d) = SIZE q"

definition visible :: "(u64 \<Rightarrow> u8) \<Rightarrow> (PhysAddr \<Rightarrow> u64) \<Rightarrow> buf list \<Rightarrow> share_ent list \<Rightarrow> bool" where
  "visible g v bs es \<longleftrightarrow> list_all2 (\<lambda>b e. read_slice g (v (e_paddr e), e_len e) = b_data b) bs es"

definition demo_dhal :: device_hal where
  "demo_dhal = \<lparr>dh_dma_map = (\<lambda>log p n dir c. Ok (if p = 0 then 1 else p)), dh_dma_unmap = (\<lambda>log p w n. 0)\<rparr>"

definition demo_dtransport :: "nat device_transport" where
  "demo_dtransport = \<lparr>dt_get_client_id = (\<lambda>t. 0), dt_max_queue_size = (\<lambda>i t. (Ok 4, t)),
     dt_requires_legacy_layout = (\<lambda>t. True), dt_queue_get = (\<lambda>i t. (Ok (0x1000, 0x1040, 0x2000), t)),
     dt_notify = (\<lambda>i t. (Ok (), t + 1))\<rparr>"

definition demo_dvq :: "shared \<Rightarrow> dvq" where
  "demo_dvq m = \<lparr>dv_layout = Legacy \<lparr>dma_paddr = 0x1000, dma_vaddr = 0x1000, dma_pages = 2, dma_client_id = 0\<rparr> 64 4096,
     dv_mem = m, dv_SIZE = 4, dv_queue_idx = 0, dv_avail_idx = 0, dv_last_used_idx = 0,
     desc_mapped = replicate 4 None, client_id = 0,
     dv_guest = (\<lambda>x. if x = 0x5000 then 1 else if x = 0x5001 then 2 else if x = 0x5002 then 3 else 0), dv_log = []\<rparr>"

definition demo_bad :: "descriptor \<Rightarrow> dvq" where
  "demo_bad desc = demo_dvq (demo_mem\<lparr>sm_desc := replicate 4 desc, sm_avail := (sm_avail demo_mem)\<lparr>a_idx := 1\<rparr>\<rparr>)"

section \<open>Lemmas\<close>

lemma pages_pos: "0 < n \<Longrightarrow> 0 < pages n"
  by (simp add: pages_def PAGE_SIZE_def) 

lemma contains_WRITE_ent_desc [simp]:
  "contains (d_flags (ent_desc e m x)) DescFlags_WRITE \<longleftrightarrow> e_dir e = DeviceToDriver"
  by (auto simp: ent_desc_def desc_flag_defs contains_def)

lemma u64_lt: "unat (w :: u64) < 2 ^ 64"
proof -
  have "unat w < 2 ^ LENGTH(64)" by (rule unsigned_less)
  then show ?thesis by simp
qed

lemma map_store_ok:
  assumes "dhal_ok H v" "0 < unat (d_len desc)" "i < length (desc_mapped d)"
  shows "\<exists>new log mapped dm lg len. map_buf H desc c (dv_log d) = (Ok new, log)
    \<and> store_mapped H i new (d\<lparr>dv_log := log\<rparr>) = (Ok mapped, d\<lparr>desc_mapped := dm, dv_log := lg\<rparr>)
    \<and> Dma_raw_slice (md_dma mapped) = (Ok (v (d_addr desc), len) :: slice result) \<and> unat (d_len desc) \<le> len
    \<and> length dm = length (desc_mapped d)"
proof -
  define new where "new = \<lparr>md_desc_copy = desc, md_dma = \<lparr>dma_paddr = d_addr desc, dma_vaddr = v (d_addr desc),
    dma_pages = pages (unat (d_len desc)), dma_client_id = c\<rparr>\<rparr>"
  define log where "log = snd (map_buf H desc c (dv_log d))"
  have m: "map_buf H desc c (dv_log d) = (Ok new, log)"
    using assms(1) by (simp add: map_buf_def DeviceDma_new_def dhal_ok_def new_def log_def Let_def)
  have raw: "Dma_raw_slice (md_dma x) = (Ok (v (d_addr desc), pages (unat (d_len desc)) * PAGE_SIZE) :: slice result)"
    if "MappedDescriptor_eq x new" for x
    using that assms pages_pos [OF assms(2)] u64_lt [of "v (d_addr desc)"]
    by (auto simp: MappedDescriptor_eq_def DeviceDma_eq_def new_def Dma_raw_slice_def Dma_vaddr_def dhal_ok_def PAGE_SIZE_def)
  have refl: "MappedDescriptor_eq new new" by (simp add: MappedDescriptor_eq_def DeviceDma_eq_def)
  have le: "unat (d_len desc) \<le> pages (unat (d_len desc)) * PAGE_SIZE" by (rule pages_bound)
  have "\<exists>mapped dm lg. store_mapped H i new (d\<lparr>dv_log := log\<rparr>) = (Ok mapped, d\<lparr>desc_mapped := dm, dv_log := lg\<rparr>)
    \<and> MappedDescriptor_eq mapped new \<and> length dm = length (desc_mapped d)"
  proof (cases "desc_mapped d ! i")
    case None
    then show ?thesis using refl
      by (intro exI [of _ new] exI [of _ "(desc_mapped d)[i := Some new]"] exI [of _ log]) (simp add: store_mapped_def)
  next
    case (Some prev)
    show ?thesis
    proof (cases "MappedDescriptor_eq prev new")
      case True
      with Some show ?thesis
        by (intro exI [of _ prev] exI [of _ "desc_mapped d"] exI [of _ log]) (simp add: store_mapped_def)
    next
      case False
      with Some refl assms(1) show ?thesis
        by (intro exI [of _ new] exI [of _ "(desc_mapped d)[i := Some new]"] exI)
           (simp add: store_mapped_def Let_def DeviceDma_drop_def dhal_ok_def)
    qed
  qed
  with m raw le show ?thesis by blast
qed

lemma pop_avail_loop_ok:
  assumes "dhal_ok H v" "chain (view (sm_desc (dv_mem d))) is es" "\<forall>e\<in>set es. ent_ok e"
    and "\<forall>i\<in>set is. unat i < length (desc_mapped d) \<and> unat i < length (sm_desc (dv_mem d))"
    and "length is \<le> fuel" "io_sorted (ws \<noteq> []) es"
  shows "\<exists>dm lg. pop_avail_loop fuel H (if is = [] then None else Some (hd is)) rs ws d =
      (Ok (rs @ slices v DriverToDevice es, ws @ slices v DeviceToDriver es), d\<lparr>desc_mapped := dm, dv_log := lg\<rparr>)
    \<and> length dm = length (desc_mapped d)"
  using assms
proof (induction "is" arbitrary: d es fuel rs ws)
  case Nil
  then show ?case
    by (intro exI [of _ "desc_mapped d"] exI [of _ "dv_log d"]) (cases fuel; simp add: slices_def)
next
  case (Cons i "is")
  from Cons.prems(2) obtain e es' where es: "es = e # es'"
    and di: "view (sm_desc (dv_mem d)) i = ent_desc e (is \<noteq> []) (if is = [] then d_next (view (sm_desc (dv_mem d)) i) else hd is)"
    and ch: "chain (view (sm_desc (dv_mem d))) is es'" unfolding chain.simps by blast
  from Cons.prems(5) obtain f where f: "fuel = Suc f" "length is \<le> f" by (cases fuel) auto
  define desc where "desc = view (sm_desc (dv_mem d)) i"
  have e: "ent_ok e" using Cons.prems(3) es by simp
  have dl: "unat (d_len desc) = e_len e" and da: "d_addr desc = e_paddr e"
    using e unfolding desc_def by (subst di, simp add: ent_desc_def ent_ok_def unat_of_nat take_bit_nat_eq_self)+
  have fl: "contains (d_flags desc) DescFlags_WRITE \<longleftrightarrow> e_dir e = DeviceToDriver"
    "\<not> contains (d_flags desc) DescFlags_INDIRECT" "contains (d_flags desc) DescFlags_NEXT \<longleftrightarrow> is \<noteq> []"
    unfolding desc_def by (subst di, simp)+
  have nx: "is \<noteq> [] \<Longrightarrow> d_next desc = hd is" unfolding desc_def by (subst di) (simp add: ent_desc_def)
  have i: "unat i < length (desc_mapped d)" "read_desc i d = Ok desc"
    using Cons.prems(4) by (simp_all add: read_desc_def desc_def view_def)
  have pos: "0 < unat (d_len desc)" using e dl by (simp add: ent_ok_def)
  from map_store_ok [OF Cons.prems(1) pos i(1)] obtain new log mapped dm1 lg1 len where ms:
    "map_buf H desc (client_id d) (dv_log d) = (Ok new, log)"
    "store_mapped H (unat i) new (d\<lparr>dv_log := log\<rparr>) = (Ok mapped, d\<lparr>desc_mapped := dm1, dv_log := lg1\<rparr>)"
    "Dma_raw_slice (md_dma mapped) = (Ok (v (d_addr desc), len) :: slice result)" "unat (d_len desc) \<le> len"
    "length dm1 = length (desc_mapped d)" by blast
  let ?d1 = "d\<lparr>desc_mapped := dm1, dv_log := lg1\<rparr>" and ?nt = "if is = [] then None else Some (hd is)"
  let ?s = "(v (e_paddr e), e_len e)"
  have step: "pop_avail_loop fuel H (Some i) rs ws d =
    (if e_dir e = DeviceToDriver then pop_avail_loop f H ?nt rs (ws @ [?s]) ?d1
     else if ws \<noteq> [] then (Err InvalidDescriptor, ?d1) else pop_avail_loop f H ?nt (rs @ [?s]) ws ?d1)"
    using ms i fl nx dl da by (simp add: f Let_def)
  have IH: "\<exists>dm lg. pop_avail_loop f H ?nt rs' ws' ?d1 =
      (Ok (rs' @ slices v DriverToDevice es', ws' @ slices v DeviceToDriver es'), d\<lparr>desc_mapped := dm, dv_log := lg\<rparr>)
    \<and> length dm = length (desc_mapped d)"
    if "io_sorted (ws' \<noteq> []) es'" for rs' ws'
    using Cons.prems(1,3,4) Cons.IH [of ?d1 es' f ws' rs'] ch f that by (simp add: ms(5) es)
  show ?case
  proof (cases "e_dir e = DeviceToDriver")
    case True
    with step have "pop_avail_loop fuel H (Some i) rs ws d = pop_avail_loop f H ?nt rs (ws @ [?s]) ?d1" by simp
    with IH [of "ws @ [?s]" rs] True Cons.prems(6) show ?thesis by (simp add: es slices_def)
  next
    case False
    then have dd: "e_dir e = DriverToDevice" using e by (cases "e_dir e") (auto simp: ent_ok_def)
    with step Cons.prems(6) es have "pop_avail_loop fuel H (Some i) rs ws d = pop_avail_loop f H ?nt (rs @ [?s]) ws ?d1" by simp
    with IH [of ws "rs @ [?s]"] dd Cons.prems(6) show ?thesis by (simp add: es slices_def)
  qed
qed

lemma io_sorted_share_all:
  "io_sorted False (share_all H log (map (\<lambda>b. (b, DriverToDevice)) ins @ map (\<lambda>b. (b, DeviceToDriver)) outs))"
proof (induction ins arbitrary: log)
  case Nil
  have "io_sorted s (share_all H log (map (\<lambda>b. (b, DeviceToDriver)) outs))" for s
    by (induction outs arbitrary: log s) (simp_all add: Let_def share_entry_def)
  then show ?case by simp
qed (simp add: Let_def share_entry_def)

lemma ucast_u16_u32: "(ucast (ucast (w :: u16) :: u32) :: u16) = w"
  by (rule bit_word_eqI) (auto simp: bit_simps)

lemma word_neq_Suc [simp]: "(w :: 'a::len word) \<noteq> w + 1"
  by simp

lemma pop_avail_published:
  assumes add: "VirtQueue_add H inputs outputs q = (Ok tok, q1)" and inv: "vq_inv q fl cs"
    and req: "req_ok (InputOutputIter_list (inputs, outputs))"
    and dir: "\<not> (indirect q \<and> length inputs + length outputs > 1)"
    and dev: "dv_mem d = mem q1" "dv_SIZE d = SIZE q" "dv_avail_idx d = avail_idx q" "length (desc_mapped d) = SIZE q"
    and H': "dhal_ok H' v" "SIZE q \<le> fuel"
    and es: "es = share_all H (hal_log q) (InputOutputIter_list (inputs, outputs))"
  shows "\<exists>dm lg. pop_avail fuel H' d =
      (Ok (Some \<lparr>read_buffers = slices v DriverToDevice es, write_buffers = slices v DeviceToDriver es, head = tok\<rparr>),
       d\<lparr>desc_mapped := dm, dv_log := lg, dv_avail_idx := avail_idx q + 1\<rparr>) \<and> length dm = SIZE q"
proof -
  have ne: "inputs \<noteq> [] \<or> outputs \<noteq> []" using add by (auto simp: VirtQueue_add_err)
  have nf: "\<not> queue_full (length inputs + length outputs) q" using add VirtQueue_add_err(2) [OF ne] by (metis Pair_inject outcome.distinct(1))
  from VirtQueue_add_ok [OF inv req ne nf, of H] add obtain c fl' where a:
    "tok = hd fl" "fl = idxs c @ fl'" "idxs c \<noteq> []" "vq_inv q1 fl' (c # cs)" "ents c = es" "is_direct c" "published q1 c"
    "a_idx (sm_avail (mem q1)) = avail_idx q + 1"
    "a_ring (sm_avail (mem q1)) = (a_ring (sm_avail (mem q)))[ring_slot (SIZE q) (avail_idx q) := hd fl]"
    "SIZE q1 = SIZE q" using dir es by auto
  obtain "is" where c: "c = Direct is es" using a(5,6) by (cases c) auto
  have sz: "length (sm_desc (mem q1)) = SIZE q" "\<forall>i\<in>set is. unat i < SIZE q" "\<forall>e\<in>set es. ent_ok e" "length is \<le> SIZE q"
    and ch: "chain (view (desc_shadow q1)) is es"
    using a(4,10) vq_inv_length [OF a(4)] by (auto simp: vq_inv_def mem_ok_def c owned_def)
  have "chain (view (sm_desc (mem q1))) is es = chain (view (desc_shadow q1)) is es"
    using a(7) by (intro chain_cong) (simp add: published_def c)
  with ch have ch': "chain (view (sm_desc (dv_mem d))) is es" by (simp add: dev)
  have "io_sorted False es" unfolding es InputOutputIter_list_eq by (rule io_sorted_share_all)
  with pop_avail_loop_ok [OF H'(1) ch' sz(3), of fuel "[]" "[]"] sz dev H'(2) a(3) obtain dm lg where
    loop: "pop_avail_loop fuel H' (Some (hd is)) [] [] d =
      (Ok (slices v DriverToDevice es, slices v DeviceToDriver es), d\<lparr>desc_mapped := dm, dv_log := lg\<rparr>)" "length dm = SIZE q"
    by (auto simp: c)
  have "ring_slot (SIZE q) (avail_idx q) < SIZE q" "length (a_ring (sm_avail (mem q))) = SIZE q"
    using inv by (auto simp: vq_inv_def mem_ok_def ring_slot_less)
  then have "peek_avail d = Some tok"
    by (simp add: peek_avail_def dv_can_pop_def dev a(1,8,9))
  moreover have "tok = hd is" using a(1-3) by (simp add: c)
  ultimately show ?thesis using loop by (intro exI [of _ dm] exI [of _ lg]) (simp add: pop_avail_def dev)
qed

lemma add_used_pop_used:
  assumes add: "VirtQueue_add H inputs outputs q = (Ok tok, q1)" and inv: "vq_inv q fl cs"
    and req: "req_ok (InputOutputIter_list (inputs, outputs))"
    and dev: "mem_ok (SIZE q) (dv_mem d)" "dv_SIZE d = SIZE q" "dv_last_used_idx d = last_used_idx q"
  shows "\<exists>q2 bs. VirtQueue_pop_used H tok inputs outputs (q1\<lparr>mem := dv_mem (add_used tok n d)\<rparr>) = (Ok (of_nat n, bs), q2)
     \<and> map buf_len bs = map buf_len (inputs @ outputs) \<and> vq_inv q2 fl cs
     \<and> last_used_idx q2 = last_used_idx q + 1 \<and> avail_idx q2 = avail_idx q1 \<and> SIZE q2 = SIZE q"
proof -
  have ne: "inputs \<noteq> [] \<or> outputs \<noteq> []" using add by (auto simp: VirtQueue_add_err)
  have nf: "\<not> queue_full (length inputs + length outputs) q" using add VirtQueue_add_err(2) [OF ne] by (metis Pair_inject outcome.distinct(1))
  from VirtQueue_add_ok [OF inv req ne nf, of H] add obtain c fl' where a:
    "tok = hd fl" "fl = idxs c @ fl'" "idxs c \<noteq> []" "vq_inv q1 fl' (c # cs)"
    "ents c = share_all H (hal_log q) (InputOutputIter_list (inputs, outputs))"
    "last_used_idx q1 = last_used_idx q" "SIZE q1 = SIZE q" by auto
  let ?q = "q1\<lparr>mem := dv_mem (add_used tok n d)\<rparr>"
  have tok: "tok = token_of c" using a(1-3) by (simp add: token_of_def)
  have m: "req_match inputs outputs c" unfolding req_match_def a(5) by (rule matches_share_all)
  have sl: "ring_slot (SIZE q) i < SIZE q" for i using inv by (simp add: vq_inv_def ring_slot_less)
  have mo: "mem_ok (SIZE q) (dv_mem (add_used tok n d))" using dev(1) by (simp add: add_used_def Let_def mem_ok_def)
  have inv': "vq_inv ?q fl' ([] @ c # cs)" using a(4,7) mo by (auto intro: vq_inv_frame)
  have us: "used_slot ?q = \<lparr>ue_id = ucast tok, ue_len = of_nat n\<rparr>"
    using sl dev by (simp add: used_slot_def add_used_def Let_def a(6,7) mem_ok_def)
  have "can_pop ?q" by (simp add: can_pop_def add_used_def Let_def a(6) dev(3))
  moreover have "ucast (ue_id (used_slot ?q)) = token_of c"
    unfolding us tok [symmetric] by (simp add: ucast_u16_u32)
  ultimately have "\<exists>q2 bs. VirtQueue_pop_used H (token_of c) inputs outputs ?q = (Ok (ue_len (used_slot ?q), bs), q2)
     \<and> map buf_len bs = map buf_len (inputs @ outputs) \<and> vq_inv q2 (idxs c @ fl') ([] @ cs)
     \<and> last_used_idx q2 = last_used_idx ?q + 1 \<and> avail_idx q2 = avail_idx ?q \<and> SIZE q2 = SIZE ?q"
    using pop_used_ok [OF inv' m] by blast
  then show ?thesis by (simp add: us [unfolded tok] tok a(2,6,7))
qed

lemma dv_notify_ok:
  assumes "\<And>t. \<exists>t'. dt_notify T (dv_queue_idx d) t = (Ok (), t')"
  shows "\<exists>t'. dv_notify T (d, t) = (Ok (), (d, t'))"
  using assms [of t] by (auto simp: dv_notify_def)

lemma read_slice_split:
  "read_slice g (a, m + n) = read_slice g (a, m) @ read_slice g (a + of_nat m, n)"
proof (rule nth_equalityI)
  fix k assume "k < length (read_slice g (a, m + n))"
  moreover have "m \<le> k \<Longrightarrow> a + of_nat m + of_nat (k - m) = a + of_nat k"
    by (simp add: of_nat_diff)
  moreover have "m \<le> k \<Longrightarrow> k - m < n" using calculation(1) by (simp add: read_slice_def)
  ultimately show "read_slice g (a, m + n) ! k = (read_slice g (a, m) @ read_slice g (a + of_nat m, n)) ! k"
    by (cases "k < m") (simp_all add: read_slice_def nth_append add.assoc del: of_nat_diff)
qed (simp add: read_slice_def)

lemma read_write_same: "length bs < 2 ^ 64 \<Longrightarrow> read_slice (write_slice a bs g) (a, length bs) = bs"
  by (auto simp: read_slice_def write_slice_def unat_of_nat take_bit_nat_eq_self intro!: nth_equalityI)

lemma read_write_before:
  assumes "m + length bs \<le> 2 ^ 63"
  shows "read_slice (write_slice (a + of_nat m) bs g) (a, m) = read_slice g (a, m)"
proof -
  have "\<not> unat (a + of_nat i - (a + of_nat m)) < length bs" if "i < m" for i
  proof -
    have "unat (of_nat i :: u64) = i" "unat (of_nat m :: u64) = m"
      using assms that by (simp_all add: unat_of_nat take_bit_nat_eq_self)
    moreover have "a + of_nat i - (a + of_nat m) = of_nat i - of_nat m" by simp
    ultimately show ?thesis using assms that by (simp only: unat_sub_if') simp
  qed
  then show ?thesis by (simp add: read_slice_def write_slice_def)
qed

lemma copy_inputs_ok:
  assumes "copied + sum_list (map length ins) \<le> snd out" "snd out \<le> 2 ^ 63"
  shows "\<exists>g. copy_inputs ins out copied d = (Ok (copied + sum_list (map length ins)), d\<lparr>dv_guest := g\<rparr>)
    \<and> read_slice g (fst out, copied + sum_list (map length ins)) = read_slice (dv_guest d) (fst out, copied) @ concat ins"
  using assms
proof (induction ins arbitrary: copied d)
  case Nil
  then show ?case by (intro exI [of _ "dv_guest d"]) simp
next
  case (Cons b ins)
  let ?d = "d\<lparr>dv_guest := write_slice (fst out + of_nat copied) b (dv_guest d)\<rparr>"
  from Cons.IH [of "copied + length b" ?d] Cons.prems obtain g where
    g: "copy_inputs ins out (copied + length b) ?d = (Ok (copied + length b + sum_list (map length ins)), d\<lparr>dv_guest := g\<rparr>)"
    "read_slice g (fst out, copied + length b + sum_list (map length ins))
       = read_slice (dv_guest ?d) (fst out, copied + length b) @ concat ins" by auto
  have "read_slice (dv_guest ?d) (fst out, copied + length b) = read_slice (dv_guest d) (fst out, copied) @ b"
    using Cons.prems by (simp add: read_slice_split read_write_before read_write_same)
  with g Cons.prems show ?case by (intro exI [of _ g]) (simp add: add.assoc)
qed

lemma copy_inputs_panic:
  "snd out < copied + sum_list (map length ins) \<Longrightarrow> copied \<le> snd out \<Longrightarrow> fst (copy_inputs ins out copied d) = Panic"
  by (induction ins arbitrary: copied d) auto

lemma slices_inputs:
  "slices v DriverToDevice (share_all H log (map (\<lambda>b. (b, DriverToDevice)) bs))
     = map (\<lambda>e. (v (e_paddr e), e_len e)) (share_all H log (map (\<lambda>b. (b, DriverToDevice)) bs))"
  "slices v DeviceToDriver (share_all H log (map (\<lambda>b. (b, DriverToDevice)) bs)) = []"
  by (induction bs arbitrary: log) (auto simp: slices_def Let_def share_entry_def)

lemma slices_outputs:
  "slices v DeviceToDriver (share_all H log (map (\<lambda>b. (b, DeviceToDriver)) bs))
     = map (\<lambda>e. (v (e_paddr e), e_len e)) (share_all H log (map (\<lambda>b. (b, DeviceToDriver)) bs))"
  "slices v DriverToDevice (share_all H log (map (\<lambda>b. (b, DeviceToDriver)) bs)) = []"
  by (induction bs arbitrary: log) (auto simp: slices_def Let_def share_entry_def)

lemma visible_concat:
  "visible g v bs es \<Longrightarrow> concat (map (read_slice g) (map (\<lambda>e. (v (e_paddr e), e_len e)) es)) = concat (map b_data bs)"
  unfolding visible_def by (induction bs es rule: list_all2_induct) auto

lemma dv_mem_notify: "dv_notify T (d, t) = (r, (d', t')) \<Longrightarrow> d' = d"
  by (auto simp: dv_notify_def lift_then_def split: if_splits outcome.splits)

lemma add_mem_ok:
  assumes "VirtQueue_add H inputs outputs q = (Ok tok, q1)" "vq_inv q fl cs" "req_ok (InputOutputIter_list (inputs, outputs))"
  shows "mem_ok (SIZE q) (mem q1)" "avail_idx q1 = avail_idx q + 1" "last_used_idx q1 = last_used_idx q"
    "a_idx (sm_avail (mem q1)) = avail_idx q + 1"
proof -
  have ne: "inputs \<noteq> [] \<or> outputs \<noteq> []" using assms(1) by (auto simp: VirtQueue_add_err)
  have nf: "\<not> queue_full (length inputs + length outputs) q" using assms(1) VirtQueue_add_err(2) [OF ne] by (metis Pair_inject outcome.distinct(1))
  from VirtQueue_add_ok [OF assms(2,3) ne nf, of H] assms(1)
  show "mem_ok (SIZE q) (mem q1)" "avail_idx q1 = avail_idx q + 1" "last_used_idx q1 = last_used_idx q"
    "a_idx (sm_avail (mem q1)) = avail_idx q + 1"
    by (auto simp: vq_inv_def)
qed

lemma pop_avail_loop_cycle:
  assumes "dhal_ok H v" "unat h < length (desc_mapped d)" "unat h < length (sm_desc (dv_mem d))"
    and "sm_desc (dv_mem d) ! unat h = \<lparr>d_addr = a, d_len = l, d_flags = DescFlags_NEXT, d_next = h\<rparr>" "l \<noteq> 0"
  shows "fst (pop_avail_loop fuel H (Some h) rs [] d) = Diverge"
  using assms
proof (induction fuel arbitrary: d rs)
  case (Suc fuel)
  let ?desc = "\<lparr>d_addr = a, d_len = l, d_flags = DescFlags_NEXT, d_next = h\<rparr>"
  have pos: "0 < unat (d_len ?desc)" using Suc.prems(5) by (simp add: unat_gt_0)
  from map_store_ok [OF Suc.prems(1) pos Suc.prems(2), of "client_id d"] obtain new log mapped dm lg len where ms:
    "map_buf H ?desc (client_id d) (dv_log d) = (Ok new, log)"
    "store_mapped H (unat h) new (d\<lparr>dv_log := log\<rparr>) = (Ok mapped, d\<lparr>desc_mapped := dm, dv_log := lg\<rparr>)"
    "Dma_raw_slice (md_dma mapped) = (Ok (v (d_addr ?desc), len) :: slice result)" "unat (d_len ?desc) \<le> len"
    "length dm = length (desc_mapped d)" by blast
  have fl: "\<not> contains DescFlags_NEXT DescFlags_WRITE" "\<not> contains DescFlags_NEXT DescFlags_INDIRECT" "contains DescFlags_NEXT DescFlags_NEXT"
    by (simp_all add: contains_def desc_flag_defs)
  have "read_desc h d = Ok ?desc" using Suc.prems(3,4) by (simp add: read_desc_def)
  then have "pop_avail_loop (Suc fuel) H (Some h) rs [] d
    = pop_avail_loop fuel H (Some h) (rs @ [(v a, unat l)]) [] (d\<lparr>desc_mapped := dm, dv_log := lg\<rparr>)"
    using ms Suc.prems(2) fl by (simp add: Let_def)
  with Suc.IH [of "d\<lparr>desc_mapped := dm, dv_log := lg\<rparr>"] Suc.prems ms(5) show ?case by simp
qed simp

lemma demo_dhal_ok: "dhal_ok demo_dhal (\<lambda>p. if p = 0 then 1 else p)"
  by (simp add: dhal_ok_def demo_dhal_def)

lemma demo_dnotify: "\<exists>t'. dt_notify demo_dtransport (dv_queue_idx (demo_dvq m)) t = (Ok (), t')"
  by (simp add: demo_dtransport_def)

lemma demo_vq_inv: "vq_inv (demo_vq ind ev) (fresh_free 4) []"
  by (rule VirtQueue_new_Ok [OF demo_new demo_ok])

lemma demo_sync: "in_sync (demo_vq ind ev) (demo_dvq m)"
  by (simp add: in_sync_def demo_vq_def demo_dvq_def)

lemma demo_add_one:
  "\<exists>q1. VirtQueue_add demo_hal [demo_buf] [] (demo_vq False True) = (Ok 0, q1)"
  "\<exists>q1. VirtQueue_add demo_hal [] [demo_buf] (demo_vq False True) = (Ok 0, q1)"
proof -
  have "hd (fresh_free 4) = 0" by (simp add: fresh_free_def hd_map)
  moreover have "\<not> queue_full 1 (demo_vq False True)" by (simp add: queue_full_def demo_vq_def)
  moreover have "req_ok (InputOutputIter_list ([demo_buf], []))" "req_ok (InputOutputIter_list ([], [demo_buf]))"
    by (simp_all add: demo_buf_def buf_len_def)
  ultimately show "\<exists>q1. VirtQueue_add demo_hal [demo_buf] [] (demo_vq False True) = (Ok 0, q1)"
    "\<exists>q1. VirtQueue_add demo_hal [] [demo_buf] (demo_vq False True) = (Ok 0, q1)"
    using VirtQueue_add_ok [OF demo_vq_inv, of "[demo_buf]" "[]" False True demo_hal]
      VirtQueue_add_ok [OF demo_vq_inv, of "[]" "[demo_buf]" False True demo_hal] by force+
qed

lemma demo_bad: "peek_avail (demo_bad desc) = Some 0" "length (desc_mapped (demo_bad desc)) = 4" "sm_desc (dv_mem (demo_bad desc)) = replicate 4 desc"
  by (simp_all add: peek_avail_def dv_can_pop_def demo_bad_def demo_dvq_def demo_mem_def ring_slot_def)

section \<open>Properties\<close>

text \<open>
  C10. From driver to device. The driver adds a request with device-readable buffers; the device, in
  step with the driver, polls. Its handler is called once, with exactly the bytes of the buffers in
  order, and its result is returned; the driver then pops the token with length 0, its free list is
  as before, and the two sides are in step again.
\<close>

theorem device_receives_request:
  assumes add: "VirtQueue_add H inputs [] q = (Ok tok, q1)" and inv: "vq_inv q fl cs"
    and req: "req_ok (InputOutputIter_list (inputs, []))" and dir: "\<not> (indirect q \<and> length inputs > 1)"
    and dev: "in_sync q d" "dv_mem d = mem q1"
    and hal: "dhal_ok H' v" "SIZE q \<le> fuel"
    and vis: "visible (dv_guest d) v inputs (share_all H (hal_log q) (InputOutputIter_list (inputs, [])))"
    and ntf: "\<And>t. \<exists>t'. dt_notify T (dv_queue_idx d) t = (Ok (), t')"
    and fin: "fst (handler (concat (map b_data inputs)) i) \<noteq> Panic" "fst (handler (concat (map b_data inputs)) i) \<noteq> Diverge"
  shows "\<exists>d' t' q2 bs. dv_poll fuel T H' handler ((d, t), i)
      = (fst (handler (concat (map b_data inputs)) i), ((d', t'), snd (handler (concat (map b_data inputs)) i)))
    \<and> VirtQueue_pop_used H tok inputs [] (q1\<lparr>mem := dv_mem d'\<rparr>) = (Ok (0, bs), q2)
    \<and> vq_inv q2 fl cs \<and> in_sync q2 d'"
proof -
  define es where "es = share_all H (hal_log q) (InputOutputIter_list (inputs, []))"
  have sl: "slices v DeviceToDriver es = []" "slices v DriverToDevice es = map (\<lambda>e. (v (e_paddr e), e_len e)) es"
    by (simp_all add: es_def slices_inputs)
  from pop_avail_published [OF add inv req _ dev(2) _ _ _ hal es_def] dir dev(1) obtain dm lg where p:
    "pop_avail fuel H' d = (Ok (Some \<lparr>read_buffers = map (\<lambda>e. (v (e_paddr e), e_len e)) es, write_buffers = [], head = tok\<rparr>),
       d\<lparr>desc_mapped := dm, dv_log := lg, dv_avail_idx := avail_idx q + 1\<rparr>)" "length dm = SIZE q"
    by (auto simp: in_sync_def sl)
  let ?d1 = "d\<lparr>desc_mapped := dm, dv_log := lg, dv_avail_idx := avail_idx q + 1\<rparr>"
  obtain t' where n: "dv_notify T (add_used tok 0 ?d1, t) = (Ok (), (add_used tok 0 ?d1, t'))"
    using dv_notify_ok [of T "add_used tok 0 ?d1" t] ntf by (auto simp: add_used_def Let_def)
  have poll: "dv_poll fuel T H' handler ((d, t), i)
      = (fst (handler (concat (map b_data inputs)) i), ((add_used tok 0 ?d1, t'), snd (handler (concat (map b_data inputs)) i)))"
    using p n fin visible_concat [OF vis] by (cases "handler (concat (map b_data inputs)) i") (simp add: dv_poll_def Let_def es_def)
  note am = add_mem_ok [OF add inv req]
  obtain q2 bs where q2:
    "VirtQueue_pop_used H tok inputs [] (q1\<lparr>mem := dv_mem (add_used tok 0 ?d1)\<rparr>) = (Ok (0, bs), q2)"
    "vq_inv q2 fl cs" "last_used_idx q2 = last_used_idx q + 1" "avail_idx q2 = avail_idx q + 1" "SIZE q2 = SIZE q"
    using add_used_pop_used [OF add inv req, of ?d1 0] dev am by (auto simp: in_sync_def)
  then have "in_sync q2 (add_used tok 0 ?d1)"
    using dev(1) p(2) by (simp add: in_sync_def add_used_def Let_def)
  with poll q2 show ?thesis by blast
qed

theorem device_receives_request_witness:
  "\<exists>m d' t'. dv_poll 4 demo_dtransport demo_dhal (\<lambda>bs n. (Ok (Some bs), n @ bs)) ((demo_dvq m, 0), []) = (Ok (Some [1, 2, 3]), ((d', t'), [1, 2, 3]))"
proof -
  obtain q1 where add: "VirtQueue_add demo_hal [demo_buf] [] (demo_vq False True) = (Ok 0, q1)" using demo_add_one by blast
  have req: "req_ok (InputOutputIter_list ([demo_buf], []))" by (simp add: demo_buf_def buf_len_def)
  have vis: "visible (dv_guest (demo_dvq (mem q1))) (\<lambda>p. if p = 0 then 1 else p) [demo_buf]
    (share_all demo_hal (hal_log (demo_vq False True)) (InputOutputIter_list ([demo_buf], [])))"
    by (simp add: visible_def Let_def share_entry_def demo_buf_def buf_len_def demo_hal_def demo_dvq_def read_slice_def
        numeral_3_eq_3)
  have "concat (map b_data [demo_buf]) = [1, 2, 3]" by (simp add: demo_buf_def)
  with device_receives_request [OF add demo_vq_inv req _ demo_sync [of False True "mem q1"] _ demo_dhal_ok _ vis demo_dnotify,
      where fuel = 4 and handler = "\<lambda>bs n. (Ok (Some bs), n @ bs)" and t = 0 and i = "[]"]
  show ?thesis by (auto simp: demo_vq_def demo_dvq_def)
qed

text \<open>
  C11. From device to driver. The driver adds device-writable buffers and the device calls
  \<^verbatim>\<open>wait_pop_add_notify\<close> with data that fits into the first of them: the data is in the buffer, the
  driver pops the token with exactly its length, and both sides are in step again. Data that does not
  fit into the first buffer makes the device panic.
\<close>

theorem device_answers_request:
  assumes add: "VirtQueue_add H [] outputs q = (Ok tok, q1)" and inv: "vq_inv q fl cs"
    and req: "req_ok (InputOutputIter_list ([], outputs))" and dir: "\<not> (indirect q \<and> length outputs > 1)"
    and dev: "in_sync q d" "dv_mem d = mem q1"
    and hal: "dhal_ok H' v" "SIZE q \<le> fuel"
    and ntf: "\<And>t. \<exists>t'. dt_notify T (dv_queue_idx d) t = (Ok (), t')"
    and e: "e = hd (share_all H (hal_log q) (InputOutputIter_list ([], outputs)))"
    and n: "n = sum_list (map length data)"
  shows "(n \<le> buf_len (hd outputs) \<longrightarrow>
      (\<exists>d' t' q2 bs. wait_pop_add_notify fuel T H' [\<lambda>m. m] data (d, t) = (Ok (), (d', t'))
        \<and> read_slice (dv_guest d') (v (e_paddr e), n) = concat data
        \<and> VirtQueue_pop_used H tok [] outputs (q1\<lparr>mem := dv_mem d'\<rparr>) = (Ok (of_nat n, bs), q2)
        \<and> vq_inv q2 fl cs \<and> in_sync q2 d'))
    \<and> (n > buf_len (hd outputs) \<longrightarrow> fst (wait_pop_add_notify fuel T H' [\<lambda>m. m] data (d, t)) = Panic)"
proof -
  define es where "es = share_all H (hal_log q) (InputOutputIter_list ([], outputs))"
  have one: "outputs \<noteq> []" using add by (auto simp: VirtQueue_add_err)
  then obtain o1 outs where o1: "outputs = o1 # outs" by (cases outputs) auto
  have e1: "es = e # tl es" "e_len e = buf_len o1" "buf_len o1 < 2 ^ 32"
    using req by (auto simp: e es_def o1 Let_def share_entry_def)
  have sl: "slices v DriverToDevice es = []" "slices v DeviceToDriver es = map (\<lambda>e. (v (e_paddr e), e_len e)) es"
    by (simp_all add: es_def slices_outputs)
  let ?out = "(v (e_paddr e), buf_len o1)"
  from pop_avail_published [OF add inv req _ dev(2) _ _ _ hal es_def] dir dev(1) obtain dm lg where p:
    "pop_avail fuel H' d = (Ok (Some \<lparr>read_buffers = [], write_buffers = map (\<lambda>e. (v (e_paddr e), e_len e)) es, head = tok\<rparr>),
       d\<lparr>desc_mapped := dm, dv_log := lg, dv_avail_idx := avail_idx q + 1\<rparr>)" "length dm = SIZE q"
    by (auto simp: in_sync_def sl)
  have wb: "map (\<lambda>e. (v (e_paddr e), e_len e)) es = ?out # map (\<lambda>e. (v (e_paddr e), e_len e)) (tl es)"
    by (subst e1(1)) (simp add: e1(2))
  let ?d1 = "d\<lparr>desc_mapped := dm, dv_log := lg, dv_avail_idx := avail_idx q + 1\<rparr>"
  note am = add_mem_ok [OF add inv req]
  have "dv_can_pop d"
    using dev am(4) by (simp add: dv_can_pop_def in_sync_def)
  then have w: "wait_pop_add_notify fuel T H' [\<lambda>m. m] data (d, t) =
    lift_then (copy_inputs data ?out 0 ?d1) (\<lambda>d. (d, t)) (\<lambda>copied d. dv_notify T (add_used tok copied d, t))"
    using p(1) by (simp add: wait_pop_add_notify_def wb)
  show ?thesis
  proof (intro conjI impI)
    assume "n \<le> buf_len (hd outputs)"
    then obtain g where g: "copy_inputs data ?out 0 ?d1 = (Ok n, ?d1\<lparr>dv_guest := g\<rparr>)"
      "read_slice g (fst ?out, n) = concat data"
      using copy_inputs_ok [of 0 data ?out ?d1] e1(3) by (auto simp: n o1 read_slice_def)
    let ?d2 = "add_used tok n (?d1\<lparr>dv_guest := g\<rparr>)"
    obtain t' where t': "dv_notify T (?d2, t) = (Ok (), (?d2, t'))"
      using dv_notify_ok [of T ?d2 t] ntf by (auto simp: add_used_def Let_def)
    obtain q2 bs where q2:
      "VirtQueue_pop_used H tok [] outputs (q1\<lparr>mem := dv_mem ?d2\<rparr>) = (Ok (of_nat n, bs), q2)"
      "vq_inv q2 fl cs" "last_used_idx q2 = last_used_idx q + 1" "avail_idx q2 = avail_idx q + 1" "SIZE q2 = SIZE q"
      using add_used_pop_used [OF add inv req, of "?d1\<lparr>dv_guest := g\<rparr>" n] dev am by (auto simp: in_sync_def)
    then have "in_sync q2 ?d2" using dev(1) p(2) by (simp add: in_sync_def add_used_def Let_def)
    moreover have "wait_pop_add_notify fuel T H' [\<lambda>m. m] data (d, t) = (Ok (), (?d2, t'))"
      using g(1) t' unfolding w by simp
    moreover have "read_slice (dv_guest ?d2) (v (e_paddr e), n) = concat data"
      using g(2) by (simp add: add_used_def Let_def)
    ultimately show "\<exists>d' t' q2 bs. wait_pop_add_notify fuel T H' [\<lambda>m. m] data (d, t) = (Ok (), (d', t'))
        \<and> read_slice (dv_guest d') (v (e_paddr e), n) = concat data
        \<and> VirtQueue_pop_used H tok [] outputs (q1\<lparr>mem := dv_mem d'\<rparr>) = (Ok (of_nat n, bs), q2)
        \<and> vq_inv q2 fl cs \<and> in_sync q2 d'" using q2(1,2) by blast
  next
    assume "n > buf_len (hd outputs)"
    then have "fst (copy_inputs data ?out 0 ?d1) = Panic" by (intro copy_inputs_panic) (simp_all add: n o1)
    then show "fst (wait_pop_add_notify fuel T H' [\<lambda>m. m] data (d, t)) = Panic"
      unfolding w by (simp add: lift_then_def)
  qed
qed

theorem device_answers_request_witness:
  "\<exists>m d' t'. wait_pop_add_notify 4 demo_dtransport demo_dhal [\<lambda>m. m] [[9], [8]] (demo_dvq m, 0) = (Ok (), (d', t'))
     \<and> read_slice (dv_guest d') (0x5000, 2) = [9, 8]"
proof -
  obtain q1 where add: "VirtQueue_add demo_hal [] [demo_buf] (demo_vq False True) = (Ok 0, q1)" using demo_add_one by blast
  have req: "req_ok (InputOutputIter_list ([], [demo_buf]))" by (simp add: demo_buf_def buf_len_def)
  define e where "e = hd (share_all demo_hal (hal_log (demo_vq False True)) (InputOutputIter_list ([], [demo_buf])))"
  have "e_paddr e = 0x5000" by (simp add: e_def Let_def share_entry_def demo_hal_def demo_buf_def)
  moreover have "buf_len demo_buf = 3" by (simp add: demo_buf_def buf_len_def)
  moreover have n2: "2 = sum_list (map length [[9 :: u8], [8]])" by simp
  ultimately show ?thesis
    using device_answers_request [OF add demo_vq_inv req _ demo_sync [of False True "mem q1"] _ demo_dhal_ok _ demo_dnotify e_def n2,
      where fuel = 4 and t = 0]
    by (auto simp: demo_vq_def demo_dvq_def)
qed

text \<open>
  C14. A driver can make the device loop forever: if the head descriptor links to itself, \<^verbatim>\<open>pop_avail\<close>
  does not return after any number of iterations.
\<close>

theorem pop_avail_cycle_diverges:
  assumes "dhal_ok H v" "peek_avail d = Some h" "unat h < length (desc_mapped d)" "unat h < length (sm_desc (dv_mem d))"
    and "sm_desc (dv_mem d) ! unat h = \<lparr>d_addr = a, d_len = l, d_flags = DescFlags_NEXT, d_next = h\<rparr>" "l \<noteq> 0"
  shows "\<forall>fuel. fst (pop_avail fuel H d) = Diverge"
proof
  fix fuel
  have "fst (pop_avail_loop fuel H (Some h) [] [] d) = Diverge"
    using assms by (intro pop_avail_loop_cycle)
  then show "fst (pop_avail fuel H d) = Diverge"
    using assms(2) by (simp add: pop_avail_def and_then_def lift_then_def)
qed

theorem pop_avail_cycle_diverges_witness:
  "\<forall>fuel. fst (pop_avail fuel demo_dhal (demo_bad \<lparr>d_addr = 0x5000, d_len = 1, d_flags = DescFlags_NEXT, d_next = 0\<rparr>)) = Diverge"
  by (rule pop_avail_cycle_diverges [OF demo_dhal_ok demo_bad(1), where a = "0x5000" and l = 1]) (simp_all add: demo_bad(2,3))

text \<open>
  C15. A descriptor marked indirect, or with length zero, makes \<^verbatim>\<open>pop_avail\<close> panic instead of returning
  \<^verbatim>\<open>InvalidDescriptor\<close>.
\<close>

theorem pop_avail_malformed:
  assumes "dhal_ok H v" "peek_avail d = Some h" "unat h < length (desc_mapped d)"
    and "unat h < length (sm_desc (dv_mem d))" "desc = sm_desc (dv_mem d) ! unat h"
    and "contains (d_flags desc) DescFlags_INDIRECT \<or> d_len desc = 0"
  shows "fst (pop_avail (Suc fuel) H d) = Panic"
proof (cases "contains (d_flags desc) DescFlags_INDIRECT")
  case True
  then show ?thesis using assms by (simp add: pop_avail_def read_desc_def Let_def)
next
  case False
  with assms(6) have "d_len desc = 0" by simp
  moreover have "pages 0 = 0" by (simp add: pages_def PAGE_SIZE_def)
  ultimately show ?thesis using assms False
    by (auto simp: pop_avail_def read_desc_def Let_def map_buf_def DeviceDma_new_def dhal_ok_def store_mapped_def
        MappedDescriptor_eq_def DeviceDma_eq_def DeviceDma_drop_def Dma_raw_slice_def Dma_vaddr_def split: option.splits)
qed

theorem pop_avail_malformed_witness:
  "fst (pop_avail (Suc 3) demo_dhal (demo_bad \<lparr>d_addr = 0x5000, d_len = 0, d_flags = 0, d_next = 0\<rparr>)) = Panic"
  by (rule pop_avail_malformed [OF demo_dhal_ok demo_bad(1) _ _ refl]) (simp_all add: demo_bad(2,3))

end
