(* ===== verification/Owning_Queue.thy ===== *)
theory Owning_Queue
  imports Virt_Queue_Spec
begin

text \<open>
  \<^verbatim>\<open>OwningQueue\<close> of src/src/queue/owning.rs: a virtqueue that owns the buffers it receives into. Every
  buffer is in flight all the time, except while a handler looks at it.
\<close>

record owning =
  ow_queue :: vq
  ow_buffers :: "buf list"

text \<open>
  The loop of \<^verbatim>\<open>new\<close>: \<open>k\<close> buffers remain, \<open>i\<close> were added. \<open>bsize\<close> is the const generic
  \<^verbatim>\<open>BUFFER_SIZE\<close>. A box is never null.
\<close>

fun OwningQueue_new_loop :: "hal \<Rightarrow> nat \<Rightarrow> nat \<Rightarrow> nat \<Rightarrow> buf list \<Rightarrow> vq \<Rightarrow> buf list result \<times> vq" where
  "OwningQueue_new_loop H bsize 0 i bufs q = (Ok bufs, q)"
| "OwningQueue_new_loop H bsize (Suc k) i bufs q =
     (let buffer = \<lparr>b_ptr = hal_box_ptr H (hal_log q) bsize, b_data = replicate bsize 0\<rparr>
      in and_then (VirtQueue_add H [] [buffer] q) (\<lambda>token q.
           if i \<noteq> unat token then (Panic, q)
           else OwningQueue_new_loop H bsize k (i + 1) (bufs @ [buffer]) q))"

definition OwningQueue_new :: "hal \<Rightarrow> nat \<Rightarrow> vq \<Rightarrow> owning result \<times> vq" where
  "OwningQueue_new H bsize q =
     and_then (OwningQueue_new_loop H bsize (SIZE q) 0 [] q) (\<lambda>bufs q.
       (Ok \<lparr>ow_queue = q, ow_buffers = bufs\<rparr>, q))"

definition ow_should_notify :: "owning \<Rightarrow> bool" where
  "ow_should_notify w = should_notify (ow_queue w)"

definition ow_set_dev_notify :: "bool \<Rightarrow> owning \<Rightarrow> owning" where
  "ow_set_dev_notify enable w = w\<lparr>ow_queue := set_dev_notify enable (ow_queue w)\<rparr>"

definition add_buffer_to_queue :: "'t transport \<Rightarrow> hal \<Rightarrow> u16 \<Rightarrow> owning \<times> 't \<Rightarrow> unit result \<times> (owning \<times> 't)" where
  "add_buffer_to_queue T H index s =
     (case s of (w, t) \<Rightarrow>
       if \<not> unat index < length (ow_buffers w) then (Err WrongToken, (w, t))
       else lift_then (VirtQueue_add H [] [ow_buffers w ! unat index] (ow_queue w))
         (\<lambda>q. (w\<lparr>ow_queue := q\<rparr>, t)) (\<lambda>new_token q.
         let w = w\<lparr>ow_queue := q\<rparr>
         in if new_token \<noteq> index then (Panic, (w, t))
            else if should_notify q
            then lift_then (t_notify T (queue_idx q) t) (\<lambda>t. (w, t)) (\<lambda>_ t. (Ok (), (w, t)))
            else (Ok (), (w, t))))"

text \<open>\<^verbatim>\<open>pop\<close>; the copy-back of \<^verbatim>\<open>unshare\<close> lands in the buffer the queue owns.\<close>

definition ow_pop :: "hal \<Rightarrow> owning \<Rightarrow> (bytes \<times> u16) option result \<times> owning" where
  "ow_pop H w =
     (case peek_used (ow_queue w) of
        None \<Rightarrow> (Ok None, w)
      | Some token \<Rightarrow>
          if \<not> unat token < length (ow_buffers w) then (Panic, w)
          else let buffer = ow_buffers w ! unat token
          in lift_then (VirtQueue_pop_used H token [] [buffer] (ow_queue w)) (\<lambda>q. w\<lparr>ow_queue := q\<rparr>) (\<lambda>(len, bs) q.
               let b' = hd bs;
                   w = w\<lparr>ow_queue := q, ow_buffers := (ow_buffers w)[unat token := b']\<rparr>
               in if buf_len b' < unat len then (Panic, w)
                  else (Ok (Some (take (unat len) (b_data b'), token)), w)))"

text \<open>\<^verbatim>\<open>poll\<close>; \<open>i\<close> is the state the handler captures and may change.\<close>

definition ow_poll ::
  "'t transport \<Rightarrow> hal \<Rightarrow> (bytes \<Rightarrow> 'i \<Rightarrow> 'a option result \<times> 'i) \<Rightarrow> (owning \<times> 't) \<times> 'i
     \<Rightarrow> 'a option result \<times> ((owning \<times> 't) \<times> 'i)"
where
  "ow_poll T H handler s =
     (case s of ((w, t), i) \<Rightarrow>
       lift_then (ow_pop H w) (\<lambda>w. ((w, t), i)) (\<lambda>r w.
         case r of
           None \<Rightarrow> (Ok None, ((w, t), i))
         | Some (buffer, token) \<Rightarrow>
             (case handler buffer i of (result, i) \<Rightarrow>
                if result = Panic \<or> result = Diverge then (result, ((w, t), i))
                else lift_then (add_buffer_to_queue T H token (w, t)) (\<lambda>s. (s, i)) (\<lambda>_ s. (result, (s, i))))))"

section \<open>The invariant\<close>

text \<open>
  Every request in flight is a single buffer, the one whose index is the token; all tokens are in
  flight.
\<close>

definition ow_table :: "buf list \<Rightarrow> inflight list \<Rightarrow> bool" where
  "ow_table bufs cs \<longleftrightarrow>
     (\<forall>c\<in>set cs. \<exists>i. idxs c = [i] \<and> unat i < length bufs \<and> req_match [] [bufs ! unat i] c)"

definition ow_inv :: "nat \<Rightarrow> owning \<Rightarrow> bool" where
  "ow_inv bsize w \<longleftrightarrow>
     0 < bsize \<and> bsize < 2 ^ 32 \<and> length (ow_buffers w) = SIZE (ow_queue w) \<and>
     (\<forall>b\<in>set (ow_buffers w). buf_len b = bsize) \<and>
     (\<exists>cs. vq_inv (ow_queue w) [] cs \<and> ow_table (ow_buffers w) cs)"

end
