(* ===== verification/Owning_Queue_Props.thy ===== *)
theory Owning_Queue_Props
  imports Virt_Queue_Props Owning_Queue
begin

text \<open>
  Properties of \<^verbatim>\<open>OwningQueue\<close>: its constructor fills the queue, and \<^verbatim>\<open>poll\<close> gives every buffer back to
  the queue under the token it had, whatever the device reports.
\<close>

section \<open>Lemmas\<close>

lemma add_single:
  assumes inv: "vq_inv q (i # fl) cs" and b: "0 < buf_len b" "buf_len b < 2 ^ 32"
  shows "\<exists>q' c. VirtQueue_add H [] [b] q = (Ok i, q') \<and> idxs c = [i] \<and> vq_inv q' fl (c # cs)
    \<and> req_match [] [b] c \<and> SIZE q' = SIZE q \<and> queue_idx q' = queue_idx q"
proof -
  have req: "req_ok (InputOutputIter_list ([], [b]))" using b by simp
  have nf: "\<not> queue_full (length [] + length [b]) q"
    using vq_inv_length [OF inv] by (auto simp: queue_full_def)
  from VirtQueue_add_ok [OF inv req _ nf, of H] obtain q' c fl' where a:
    "VirtQueue_add H [] [b] q = (Ok i, q')" "i # fl = idxs c @ fl'" "vq_inv q' fl' (c # cs)"
    "ents c = share_all H (hal_log q) (InputOutputIter_list ([], [b]))" "is_direct c" "SIZE q' = SIZE q" "queue_idx q' = queue_idx q"
    by auto
  obtain "is" where c: "c = Direct is (ents c)" using a(5) by (cases c) auto
  have "chain (view (desc_shadow q')) is (ents c)" using a(3) by (subst (asm) c) (simp add: vq_inv_def)
  then have "length is = 1" using length_chain a(4) by fastforce
  moreover have "idxs c = is" by (subst c) simp
  ultimately have "idxs c = [i]" "fl' = fl" using a(2) by (cases "is"; simp)+
  moreover have "req_match [] [b] c" unfolding req_match_def a(4) by (rule matches_share_all)
  ultimately show ?thesis using a by blast
qed

lemma ow_table_append: "ow_table bufs cs \<Longrightarrow> ow_table (bufs @ bs) cs"
  unfolding ow_table_def by (fastforce simp: nth_append)

lemma new_loop_ok:
  assumes "vq_inv q (map of_nat [i..<SIZE q]) cs" "ow_table bufs cs" "length bufs = i" "i + k = SIZE q"
    "0 < bsize" "bsize < 2 ^ 32" "\<forall>b\<in>set bufs. buf_len b = bsize"
  shows "\<exists>bufs' q' cs'. OwningQueue_new_loop H bsize k i bufs q = (Ok bufs', q') \<and> vq_inv q' [] cs' \<and> ow_table bufs' cs'
    \<and> length bufs' = SIZE q' \<and> SIZE q' = SIZE q \<and> queue_idx q' = queue_idx q \<and> (\<forall>b\<in>set bufs'. buf_len b = bsize)"
  using assms
proof (induction k arbitrary: i q cs bufs)
  case 0
  then show ?case by auto
next
  case (Suc k)
  define b where "b = \<lparr>b_ptr = hal_box_ptr H (hal_log q) bsize, b_data = replicate bsize 0\<rparr>"
  have bl: "buf_len b = bsize" by (simp add: b_def buf_len_def)
  have fl: "map of_nat [i..<SIZE q] = of_nat i # map (of_nat :: nat \<Rightarrow> u16) [Suc i..<SIZE q]"
    using Suc.prems(4) by (simp add: upt_conv_Cons)
  have "SIZE q \<le> 65535" using Suc.prems(1) by (simp add: vq_inv_def SIZE_OK_def)
  then have u: "unat (of_nat i :: u16) = i" using Suc.prems(4) by (simp add: unat_of_nat take_bit_nat_eq_self)
  from add_single [of q "of_nat i" "map of_nat [Suc i..<SIZE q]" cs b H] Suc.prems bl fl obtain q' c where a:
    "VirtQueue_add H [] [b] q = (Ok (of_nat i), q')" "idxs c = [of_nat i]" "vq_inv q' (map of_nat [Suc i..<SIZE q]) (c # cs)"
    "req_match [] [b] c" "SIZE q' = SIZE q" "queue_idx q' = queue_idx q" by auto
  have step: "OwningQueue_new_loop H bsize (Suc k) i bufs q = OwningQueue_new_loop H bsize k (Suc i) (bufs @ [b]) q'"
    using a(1) u by (simp add: b_def [symmetric] Let_def)
  have "ow_table (bufs @ [b]) (c # cs)"
    using ow_table_append [OF Suc.prems(2), of "[b]"] a(2,4) u Suc.prems(3) by (auto simp: ow_table_def)
  then have "\<exists>bufs' q'' cs'. OwningQueue_new_loop H bsize k (Suc i) (bufs @ [b]) q' = (Ok bufs', q'') \<and> vq_inv q'' [] cs' \<and> ow_table bufs' cs'
    \<and> length bufs' = SIZE q'' \<and> SIZE q'' = SIZE q' \<and> queue_idx q'' = queue_idx q' \<and> (\<forall>b\<in>set bufs'. buf_len b = bsize)"
    using a(3,5) Suc.prems bl by (intro Suc.IH [of q' "Suc i" "c # cs" "bufs @ [b]"]) auto
  then show ?case unfolding step a(5,6) .
qed

lemma ow_table_split:
  assumes "vq_inv q [] cs" "ow_table bufs cs" "unat tok < SIZE q"
  obtains cs1 c cs2 where "cs = cs1 @ c # cs2" "idxs c = [tok]" "req_match [] [bufs ! unat tok] c"
proof -
  have "tok \<in> set (owned cs)" using assms(1,3) by (auto simp: vq_inv_def)
  then obtain c where c: "c \<in> set cs" "tok \<in> set (idxs c)" by (auto simp: owned_def)
  with assms(2) have "idxs c = [tok]" "req_match [] [bufs ! unat tok] c" by (fastforce simp: ow_table_def)+
  with c(1) that show ?thesis by (metis split_list)
qed

lemma ow_pop_ok:
  assumes inv: "ow_inv bsize w" and pk: "peek_used (ow_queue w) = Some tok" and tok: "unat tok < SIZE (ow_queue w)"
  shows "\<exists>w' b cs. ow_pop H w =
      (if unat (ue_len (used_slot (ow_queue w))) \<le> bsize
       then Ok (Some (take (unat (ue_len (used_slot (ow_queue w)))) (b_data b), tok)) else Panic, w')
    \<and> ow_buffers w' = (ow_buffers w)[unat tok := b] \<and> buf_len b = bsize \<and> b_ptr b = b_ptr (ow_buffers w ! unat tok)
    \<and> vq_inv (ow_queue w') [tok] cs \<and> ow_table (ow_buffers w') cs \<and> SIZE (ow_queue w') = SIZE (ow_queue w)
    \<and> queue_idx (ow_queue w') = queue_idx (ow_queue w) \<and> last_used_idx (ow_queue w') = last_used_idx (ow_queue w) + 1"
proof -
  let ?q = "ow_queue w"
  from inv obtain cs where cs: "vq_inv ?q [] cs" "ow_table (ow_buffers w) cs" and l: "length (ow_buffers w) = SIZE ?q"
    and bl: "\<forall>b\<in>set (ow_buffers w). buf_len b = bsize" by (auto simp: ow_inv_def)
  from ow_table_split [OF cs tok] obtain cs1 c cs2 where c: "cs = cs1 @ c # cs2" "idxs c = [tok]"
    "req_match [] [ow_buffers w ! unat tok] c" .
  have tc: "token_of c = tok" by (simp add: token_of_def c(2))
  have u: "can_pop ?q" "ucast (ue_id (used_slot ?q)) = token_of c" using pk tc by (auto simp: peek_used_def split: if_splits)
  from pop_used_ok [OF cs(1) [unfolded c(1)] c(3) u, of H] tc c(2) obtain q' b where p:
    "VirtQueue_pop_used H tok [] [ow_buffers w ! unat tok] ?q = (Ok (ue_len (used_slot ?q), [b]), q')"
    "buf_len b = buf_len (ow_buffers w ! unat tok)" "b_ptr b = b_ptr (ow_buffers w ! unat tok)"
    "vq_inv q' [tok] (cs1 @ cs2)" "SIZE q' = SIZE ?q" "queue_idx q' = queue_idx ?q" "last_used_idx q' = last_used_idx ?q + 1"
    by (auto simp: map_eq_Cons_conv)
  have b: "buf_len b = bsize" using p(2) bl tok l by simp
  have "ow_table ((ow_buffers w)[unat tok := b]) (cs1 @ cs2)"
    unfolding ow_table_def
  proof
    fix c' assume c': "c' \<in> set (cs1 @ cs2)"
    with cs(2) c(1) obtain i where i: "idxs c' = [i]" "unat i < length (ow_buffers w)" "req_match [] [ow_buffers w ! unat i] c'"
      by (auto simp: ow_table_def)
    moreover have "i \<noteq> tok" using p(4) c' i(1) by (auto simp: vq_inv_def owned_def)
    then have "unat i \<noteq> unat tok" by (simp add: word_unat_eq_iff)
    ultimately show "\<exists>i. idxs c' = [i] \<and> unat i < length ((ow_buffers w)[unat tok := b]) \<and>
        req_match [] [(ow_buffers w)[unat tok := b] ! unat i] c'" by auto
  qed
  moreover have "ow_pop H w = (if unat (ue_len (used_slot ?q)) \<le> bsize
      then Ok (Some (take (unat (ue_len (used_slot ?q))) (b_data b), tok)) else Panic,
      w\<lparr>ow_queue := q', ow_buffers := (ow_buffers w)[unat tok := b]\<rparr>)"
    using pk tok l p(1) b by (simp add: ow_pop_def Let_def)
  ultimately show ?thesis using p b
    by (intro exI [of _ "w\<lparr>ow_queue := q', ow_buffers := (ow_buffers w)[unat tok := b]\<rparr>"] exI [of _ b]
        exI [of _ "cs1 @ cs2"]) simp
qed

lemma add_buffer_ok:
  assumes inv: "vq_inv (ow_queue w) [tok] cs" "ow_table (ow_buffers w) cs" and tok: "unat tok < length (ow_buffers w)"
    and l: "length (ow_buffers w) = SIZE (ow_queue w)" "\<forall>b\<in>set (ow_buffers w). buf_len b = bsize" "0 < bsize" "bsize < 2 ^ 32"
    and ntf: "\<And>t. \<exists>t'. t_notify T (queue_idx (ow_queue w)) t = (Ok (), t')"
  shows "\<exists>w' t'. add_buffer_to_queue T H tok (w, t) = (Ok (), (w', t')) \<and> ow_inv bsize w' \<and> ow_buffers w' = ow_buffers w
    \<and> queue_idx (ow_queue w') = queue_idx (ow_queue w)"
proof -
  let ?b = "ow_buffers w ! unat tok"
  from add_single [OF inv(1), of ?b H] l tok obtain q' c where a:
    "VirtQueue_add H [] [?b] (ow_queue w) = (Ok tok, q')" "idxs c = [tok]" "vq_inv q' [] (c # cs)" "req_match [] [?b] c"
    "SIZE q' = SIZE (ow_queue w)" "queue_idx q' = queue_idx (ow_queue w)" by auto
  obtain t' where t': "t_notify T (queue_idx q') t = (Ok (), t')" using ntf a(6) by metis
  have "ow_inv bsize (w\<lparr>ow_queue := q'\<rparr>)"
    using a inv(2) l tok by (auto simp: ow_inv_def ow_table_def intro!: exI [of _ "c # cs"])
  then show ?thesis using a(1,6) t' tok by (auto simp: add_buffer_to_queue_def Let_def)
qed

lemma ow_inv_device:
  "ow_inv bsize w \<Longrightarrow> vq_device (ow_queue w) q \<Longrightarrow> ow_inv bsize (w\<lparr>ow_queue := q\<rparr>)"
  unfolding ow_inv_def vq_device_def by (auto intro!: exI intro: vq_inv_frame)

lemma ow_poll_ok:
  assumes inv: "ow_inv bsize w" and ntf: "\<And>t. \<exists>t'. t_notify T (queue_idx (ow_queue w)) t = (Ok (), t')"
    and fin: "\<And>bs. fst (handler bs i) \<noteq> Panic \<and> fst (handler bs i) \<noteq> Diverge"
  shows "case peek_used (ow_queue w) of
      None \<Rightarrow> ow_poll T H handler ((w, t), i) = (Ok None, ((w, t), i))
    | Some tok \<Rightarrow>
        if unat tok < SIZE (ow_queue w) \<and> unat (ue_len (used_slot (ow_queue w))) \<le> bsize
        then \<exists>w' t'. ow_poll T H handler ((w, t), i)
               = (case handler (take (unat (ue_len (used_slot (ow_queue w)))) (b_data (ow_buffers w' ! unat tok))) i of
                    (r, i') \<Rightarrow> (r, ((w', t'), i')))
             \<and> ow_inv bsize w' \<and> map b_ptr (ow_buffers w') = map b_ptr (ow_buffers w)
        else fst (ow_poll T H handler ((w, t), i)) = Panic"
proof (cases "peek_used (ow_queue w)")
  case None
  then show ?thesis by (simp add: ow_poll_def ow_pop_def)
next
  case (Some tok)
  let ?n = "unat (ue_len (used_slot (ow_queue w)))"
  have l: "length (ow_buffers w) = SIZE (ow_queue w)" using inv by (simp add: ow_inv_def)
  show ?thesis
  proof (cases "unat tok < SIZE (ow_queue w) \<and> ?n \<le> bsize")
    case True
    from ow_pop_ok [OF inv Some conjunct1 [OF True], of H] True obtain w1 b cs where p:
      "ow_pop H w = (Ok (Some (take ?n (b_data b), tok)), w1)"
      "ow_buffers w1 = (ow_buffers w)[unat tok := b]" "buf_len b = bsize" "b_ptr b = b_ptr (ow_buffers w ! unat tok)"
      "vq_inv (ow_queue w1) [tok] cs" "ow_table (ow_buffers w1) cs" "SIZE (ow_queue w1) = SIZE (ow_queue w)"
      "queue_idx (ow_queue w1) = queue_idx (ow_queue w)" by auto
    have bl: "\<forall>b\<in>set (ow_buffers w1). buf_len b = bsize"
      using inv p(2,3) by (auto simp: ow_inv_def dest!: set_update_subset_insert [THEN subsetD])
    have sz: "unat tok < length (ow_buffers w1)" "length (ow_buffers w1) = SIZE (ow_queue w1)" "0 < bsize" "bsize < 2 ^ 32"
      using True l p(2,7) inv by (auto simp: ow_inv_def)
    obtain w' t' where a:
      "add_buffer_to_queue T H tok (w1, t) = (Ok (), (w', t'))" "ow_inv bsize w'" "ow_buffers w' = ow_buffers w1"
      using add_buffer_ok [OF p(5,6) sz(1,2) bl sz(3,4), of T H t] ntf p(8) by auto
    have "ow_buffers w' ! unat tok = b" using a(3) p(2) True l by simp
    moreover have "map b_ptr (ow_buffers w') = map b_ptr (ow_buffers w)"
      using a(3) p(2,4) True l by (simp add: map_update) (metis list_update_id nth_map)
    moreover have "ow_poll T H handler ((w, t), i) = (case handler (take ?n (b_data b)) i of (r, i') \<Rightarrow> (r, ((w', t'), i')))"
      using p(1) a(1) fin [of "take ?n (b_data b)"] by (cases "handler (take ?n (b_data b)) i") (simp add: ow_poll_def)
    ultimately show ?thesis using Some True a(2) by auto
  next
    case False
    have "fst (ow_pop H w) = Panic"
    proof (cases "unat tok < SIZE (ow_queue w)")
      case True
      with ow_pop_ok [OF inv Some, of H] False show ?thesis by auto
    next
      case False
      with Some l show ?thesis by (simp add: ow_pop_def)
    qed
    then have "fst (ow_poll T H handler ((w, t), i)) = Panic" by (simp add: ow_poll_def lift_then_def)
    with Some False show ?thesis by auto
  qed
qed

section \<open>Properties\<close>

text \<open>
  C13. \<^verbatim>\<open>OwningQueue::new\<close> on a fresh queue never fails and never trips its assertion: buffer \<open>i\<close> gets
  token \<open>i\<close>, and all buffers are in flight.
\<close>

theorem OwningQueue_new_ok:
  assumes "vq_inv q (fresh_free (SIZE q)) []" "0 < bsize" "bsize < 2 ^ 32"
  shows "\<exists>w q'. OwningQueue_new H bsize q = (Ok w, q') \<and> ow_inv bsize w \<and> queue_idx (ow_queue w) = queue_idx q"
proof -
  from new_loop_ok [of q 0 "[]" "[]" "SIZE q" bsize H] assms obtain bufs' q' cs' where
    "OwningQueue_new_loop H bsize (SIZE q) 0 [] q = (Ok bufs', q')" "vq_inv q' [] cs'" "ow_table bufs' cs'"
    "length bufs' = SIZE q'" "queue_idx q' = queue_idx q" "\<forall>b\<in>set bufs'. buf_len b = bsize"
    by (auto simp: fresh_free_def ow_table_def)
  with assms show ?thesis by (auto simp: OwningQueue_new_def ow_inv_def)
qed

theorem OwningQueue_new_ok_witness:
  "\<exists>w q'. OwningQueue_new demo_hal 3 (demo_vq False True) = (Ok w, q') \<and> ow_inv 3 w"
  using OwningQueue_new_ok [of "demo_vq False True" 3 demo_hal] VirtQueue_new_Ok(1,4) [OF demo_new demo_ok] by auto

text \<open>
  C12. \<^verbatim>\<open>OwningQueue::poll\<close>, whatever the device wrote to the shared memory before the call. With no used
  buffer it does nothing. With a used buffer whose token and length are in range, the handler gets
  that many bytes of the buffer with that token and its own state, its result is returned, and the buffer is back in
  the queue under the same token, so all buffers are in flight again. A token or a length out of
  range makes it panic.
\<close>

theorem ow_poll_correct:
  assumes inv: "ow_inv bsize w0" "vq_device (ow_queue w0) q" "w = w0\<lparr>ow_queue := q\<rparr>"
    and ntf: "\<And>t. \<exists>t'. t_notify T (queue_idx (ow_queue w)) t = (Ok (), t')"
    and fin: "\<And>bs. fst (handler bs i) \<noteq> Panic \<and> fst (handler bs i) \<noteq> Diverge"
  shows "case peek_used q of
      None \<Rightarrow> ow_poll T H handler ((w, t), i) = (Ok None, ((w, t), i))
    | Some tok \<Rightarrow>
        if unat tok < SIZE q \<and> unat (ue_len (used_slot q)) \<le> bsize
        then \<exists>w' t'. ow_poll T H handler ((w, t), i)
               = (case handler (take (unat (ue_len (used_slot q))) (b_data (ow_buffers w' ! unat tok))) i of
                    (r, i') \<Rightarrow> (r, ((w', t'), i')))
             \<and> ow_inv bsize w' \<and> map b_ptr (ow_buffers w') = map b_ptr (ow_buffers w0)
        else fst (ow_poll T H handler ((w, t), i)) = Panic"
proof -
  have w: "ow_queue w = q" "ow_buffers w = ow_buffers w0" by (simp_all add: inv(3))
  show ?thesis
    using ow_poll_ok [OF ow_inv_device [OF inv(1,2), folded inv(3)] ntf, where H = H and t = t and handler = handler and i = i] fin
    unfolding w by blast
qed

theorem ow_poll_correct_witness:
  "\<exists>w w' t' i'. ow_poll demo_transport demo_hal (\<lambda>bs i. (Ok (Some (length bs)), i @ bs)) ((w, 0), []) = (Ok (Some 2), ((w', t'), i')) \<and> length i' = 2 \<and> ow_inv 3 w'"
proof -
  have "vq_inv (demo_vq False True) (fresh_free (SIZE (demo_vq False True))) []"
    using VirtQueue_new_Ok(1,4) [OF demo_new demo_ok] by metis
  from new_loop_ok [of "demo_vq False True" 0 "[]" "[]" 4 3 demo_hal] this obtain bufs q cs where
    q: "vq_inv q [] cs" "ow_table bufs cs" "length bufs = SIZE q" "SIZE q = 4" "\<forall>b\<in>set bufs. buf_len b = 3"
    by (auto simp: fresh_free_def ow_table_def demo_vq_def)
  define w0 where "w0 = \<lparr>ow_queue = q, ow_buffers = bufs\<rparr>"
  have inv: "ow_inv 3 w0" using q by (auto simp: ow_inv_def w0_def)
  define m where "m = demo_mem\<lparr>sm_used := \<lparr>u_flags = 0, u_idx = last_used_idx q + 1, u_ring = replicate 4 \<lparr>ue_id = 0, ue_len = 2\<rparr>, u_avail_event = 0\<rparr>\<rparr>"
  have dev: "vq_device (ow_queue w0) (q\<lparr>mem := m\<rparr>)"
    unfolding vq_device_def using q(4) by (intro exI [of _ m]) (simp add: w0_def mem_ok_def m_def demo_mem_def)
  have "ring_slot 4 i < 4" for i using ring_slot_less demo_ok by blast
  then have us: "used_slot (q\<lparr>mem := m\<rparr>) = \<lparr>ue_id = 0, ue_len = 2\<rparr>" by (simp add: used_slot_def q(4) m_def)
  have pk: "peek_used (q\<lparr>mem := m\<rparr>) = Some 0"
    by (simp add: peek_used_def us) (simp add: can_pop_def m_def)
  have "ow_buffers w' ! 0 \<in> set (ow_buffers w')" if "ow_inv 3 w'" "length (ow_buffers w') = 4" for w'
    using that by simp
  then have len: "length (b_data (ow_buffers w' ! 0)) = 3" if "ow_inv 3 w'" "length (ow_buffers w') = 4" for w'
    using that by (auto simp: ow_inv_def buf_len_def)
  from ow_poll_correct [OF inv dev refl, of demo_transport "\<lambda>bs i. (Ok (Some (length bs)), i @ bs)" "[]" demo_hal 0] pk us q(4)
  obtain w' t' where p:
    "ow_poll demo_transport demo_hal (\<lambda>bs i. (Ok (Some (length bs)), i @ bs)) ((w0\<lparr>ow_queue := q\<lparr>mem := m\<rparr>\<rparr>, 0), [])
      = (Ok (Some (length (take 2 (b_data (ow_buffers w' ! 0))))), ((w', t'), take 2 (b_data (ow_buffers w' ! 0))))" "ow_inv 3 w'"
    "map b_ptr (ow_buffers w') = map b_ptr (ow_buffers w0)"
    by (auto simp: demo_transport_def)
  from p(3) have "length (ow_buffers w') = 4" using q(3,4) by (metis length_map owning.select_convs(2) w0_def)
  with len p(2) have l: "length (take 2 (b_data (ow_buffers w' ! 0))) = 2" by simp
  show ?thesis by (intro exI conjI, rule p(1) [unfolded l], rule l, rule p(2))
qed

end
