(* ===== verification/Mmio.thy ===== *)
theory Mmio
  imports Queue_Layout
begin

text \<open>
  The MMIO transport, src/src/transport/mmio.rs: the register block, the probing of a device, and
  every method of \<^verbatim>\<open>impl Transport for MmioTransport\<close>.

  The device behind the registers is a parameter: it answers each read from the history of all
  accesses, so any device with any internal state is covered. The history is part of the state of
  the transport, so that theorems can speak about which registers were written in which order.
\<close>

section \<open>Registers\<close>

datatype MmioVersion = Version_Legacy | Version_Modern

datatype MmioError =
    BadMagic u32
  | UnsupportedVersion u32
  | ZeroDeviceId
  | MmioRegionTooSmall

definition MAGIC_VALUE :: u32 where "MAGIC_VALUE = 0x74726976"
definition LEGACY_VERSION :: u32 where "LEGACY_VERSION = 1"
definition MODERN_VERSION :: u32 where "MODERN_VERSION = 2"
definition CONFIG_SPACE_OFFSET :: nat where "CONFIG_SPACE_OFFSET = 0x100"

definition MmioVersion_try_from :: "u32 \<Rightarrow> (MmioError, MmioVersion) outcome" where
  "MmioVersion_try_from v =
     (if v = LEGACY_VERSION then Ok Version_Legacy
      else if v = MODERN_VERSION then Ok Version_Modern
      else Err (UnsupportedVersion v))"

fun MmioVersion_to_u32 :: "MmioVersion \<Rightarrow> u32" where
  "MmioVersion_to_u32 Version_Legacy = LEGACY_VERSION"
| "MmioVersion_to_u32 Version_Modern = MODERN_VERSION"

datatype mmio_reg =
    Magic | Version | Device_id | Vendor_id | Device_features | Device_features_sel | R1
  | Driver_features | Driver_features_sel | Legacy_guest_page_size | R2 | Queue_sel | Queue_num_max
  | Queue_num | Legacy_queue_align | Legacy_queue_pfn | Queue_ready | R3 | Queue_notify | R4
  | Interrupt_status | Interrupt_ack | R5 | Status | R6 | Queue_desc_low | Queue_desc_high | R7
  | Queue_driver_low | Queue_driver_high | R8 | Queue_device_low | Queue_device_high | R9
  | Config_generation

text \<open>The fields of the \<^verbatim>\<open>repr(C)\<close> struct \<^verbatim>\<open>VirtIOHeader\<close> in order, with their number of 32-bit words.\<close>

definition VirtIOHeader_fields :: "(mmio_reg \<times> nat) list" where
  "VirtIOHeader_fields =
     [(Magic, 1), (Version, 1), (Device_id, 1), (Vendor_id, 1), (Device_features, 1), (Device_features_sel, 1),
      (R1, 2), (Driver_features, 1), (Driver_features_sel, 1), (Legacy_guest_page_size, 1), (R2, 1), (Queue_sel, 1),
      (Queue_num_max, 1), (Queue_num, 1), (Legacy_queue_align, 1), (Legacy_queue_pfn, 1), (Queue_ready, 1), (R3, 2),
      (Queue_notify, 1), (R4, 3), (Interrupt_status, 1), (Interrupt_ack, 1), (R5, 2), (Status, 1), (R6, 3),
      (Queue_desc_low, 1), (Queue_desc_high, 1), (R7, 2), (Queue_driver_low, 1), (Queue_driver_high, 1), (R8, 2),
      (Queue_device_low, 1), (Queue_device_high, 1), (R9, 21), (Config_generation, 1)]"

text \<open>The byte offset of each field of a \<^verbatim>\<open>repr(C)\<close> struct of 32-bit words, from \<open>off\<close> on.\<close>

fun field_offsets :: "nat \<Rightarrow> ('r \<times> nat) list \<Rightarrow> ('r \<times> nat) list" where
  "field_offsets off [] = []"
| "field_offsets off ((r, n) # fs) = (r, off) # field_offsets (off + 4 * n) fs"

section \<open>Device and state\<close>

datatype mmio_event =
    RegRead mmio_reg u32
  | RegWrite mmio_reg u32
  | ConfigRead nat nat bytes
  | ConfigWrite nat bytes

record mmio_dev =
  dev_reg :: "mmio_event list \<Rightarrow> mmio_reg \<Rightarrow> u32"
  dev_config :: "mmio_event list \<Rightarrow> nat \<Rightarrow> u8"

record mmio =
  mm_version :: MmioVersion
  config_space_size :: nat
  mm_trace :: "mmio_event list"

definition volread :: "mmio_dev \<Rightarrow> mmio_reg \<Rightarrow> mmio \<Rightarrow> (Error, u32) outcome \<times> mmio" where
  "volread D r t = (let v = dev_reg D (mm_trace t) r in (Ok v, t\<lparr>mm_trace := mm_trace t @ [RegRead r v]\<rparr>))"

definition volwrite :: "mmio_reg \<Rightarrow> u32 \<Rightarrow> mmio \<Rightarrow> mmio" where
  "volwrite r v t = t\<lparr>mm_trace := mm_trace t @ [RegWrite r v]\<rparr>"

text \<open>\<^verbatim>\<open>MmioTransport::new\<close>; the accesses made while probing are the first part of the history.\<close>

definition Mmio_new :: "mmio_dev \<Rightarrow> nat \<Rightarrow> (MmioError, mmio) outcome" where
  "Mmio_new D mmio_size =
     (let magic = dev_reg D [] Magic; tr1 = [RegRead Magic magic]
      in if magic \<noteq> MAGIC_VALUE then Err (BadMagic magic)
         else let device_id = dev_reg D tr1 Device_id; tr2 = tr1 @ [RegRead Device_id device_id]
         in if device_id = 0 then Err ZeroDeviceId
         else if mmio_size < CONFIG_SPACE_OFFSET then Err MmioRegionTooSmall
         else let v = dev_reg D tr2 Version; tr3 = tr2 @ [RegRead Version v]
         in bind_ok (MmioVersion_try_from v) (\<lambda>version.
              Ok \<lparr>mm_version = version, config_space_size = mmio_size - CONFIG_SPACE_OFFSET, mm_trace = tr3\<rparr>))"

definition Mmio_vendor_id :: "mmio_dev \<Rightarrow> mmio \<Rightarrow> u32 result \<times> mmio" where
  "Mmio_vendor_id D t = volread D Vendor_id t"

section \<open>The methods of the transport\<close>

definition Mmio_device_type :: "mmio_dev \<Rightarrow> mmio \<Rightarrow> DeviceType result \<times> mmio" where
  "Mmio_device_type D t = and_then (volread D Device_id t) (\<lambda>v t. (Ok (DeviceType_from_u32 v), t))"

definition Mmio_read_device_features :: "mmio_dev \<Rightarrow> mmio \<Rightarrow> u64 result \<times> mmio" where
  "Mmio_read_device_features D t =
     and_then (volread D Device_features (volwrite Device_features_sel 0 t)) (\<lambda>lo t.
     and_then (volread D Device_features (volwrite Device_features_sel 1 t)) (\<lambda>hi t.
       (Ok (ucast lo + push_bit 32 (ucast hi)), t)))"

definition Mmio_write_driver_features :: "u64 \<Rightarrow> mmio \<Rightarrow> unit result \<times> mmio" where
  "Mmio_write_driver_features f t =
     (Ok (), volwrite Driver_features (ucast (drop_bit 32 f)) (volwrite Driver_features_sel 1
             (volwrite Driver_features (ucast f) (volwrite Driver_features_sel 0 t))))"

definition Mmio_max_queue_size :: "mmio_dev \<Rightarrow> u16 \<Rightarrow> mmio \<Rightarrow> u32 result \<times> mmio" where
  "Mmio_max_queue_size D queue t = volread D Queue_num_max (volwrite Queue_sel (ucast queue) t)"

definition Mmio_notify :: "u16 \<Rightarrow> mmio \<Rightarrow> unit result \<times> mmio" where
  "Mmio_notify queue t = (Ok (), volwrite Queue_notify (ucast queue) t)"

definition Mmio_get_status :: "mmio_dev \<Rightarrow> mmio \<Rightarrow> u32 result \<times> mmio" where
  "Mmio_get_status D t = volread D Status t"

definition Mmio_set_status :: "u32 \<Rightarrow> mmio \<Rightarrow> unit result \<times> mmio" where
  "Mmio_set_status status t = (Ok (), volwrite Status status t)"

definition Mmio_set_guest_page_size :: "u32 \<Rightarrow> mmio \<Rightarrow> unit result \<times> mmio" where
  "Mmio_set_guest_page_size n t =
     (case mm_version t of
        Version_Legacy \<Rightarrow> (Ok (), volwrite Legacy_guest_page_size n t)
      | Version_Modern \<Rightarrow> (Ok (), t))"

definition Mmio_requires_legacy_layout :: "mmio \<Rightarrow> bool" where
  "Mmio_requires_legacy_layout t = (case mm_version t of Version_Legacy \<Rightarrow> True | Version_Modern \<Rightarrow> False)"

definition Mmio_queue_set :: "u16 \<Rightarrow> u32 \<Rightarrow> PhysAddr \<Rightarrow> PhysAddr \<Rightarrow> PhysAddr \<Rightarrow> mmio \<Rightarrow> unit result \<times> mmio" where
  "Mmio_queue_set queue n descriptors driver_area device_area t =
     (case mm_version t of
        Version_Legacy \<Rightarrow>
          if driver_area < descriptors \<or> unat (driver_area - descriptors) \<noteq> 16 * unat n then (Panic, t)
          else if device_area < descriptors
                \<or> unat (device_area - descriptors) \<noteq> align_up (16 * unat n + 2 * (unat n + 3)) then (Panic, t)
          else let align = (of_nat PAGE_SIZE :: u32);
                   pfn = (ucast (drop_bit 12 descriptors) :: u32)
               in if unat pfn * PAGE_SIZE \<noteq> unat descriptors then (Panic, t)
                  else (Ok (), volwrite Legacy_queue_pfn pfn (volwrite Legacy_queue_align align
                                 (volwrite Queue_num n (volwrite Queue_sel (ucast queue) t))))
      | Version_Modern \<Rightarrow>
          (Ok (), volwrite Queue_ready 1
                   (volwrite Queue_device_high (ucast (drop_bit 32 device_area))
                   (volwrite Queue_device_low (ucast device_area)
                   (volwrite Queue_driver_high (ucast (drop_bit 32 driver_area))
                   (volwrite Queue_driver_low (ucast driver_area)
                   (volwrite Queue_desc_high (ucast (drop_bit 32 descriptors))
                   (volwrite Queue_desc_low (ucast descriptors)
                   (volwrite Queue_num n
                   (volwrite Queue_sel (ucast queue) t))))))))))"

text \<open>\<^verbatim>\<open>while volread!(self.header, queue_ready) != 0 {}\<close>, observed for \<open>fuel\<close> iterations.\<close>

fun wait_queue_ready_zero :: "nat \<Rightarrow> mmio_dev \<Rightarrow> mmio \<Rightarrow> unit result \<times> mmio" where
  "wait_queue_ready_zero 0 D t = (Diverge, t)"
| "wait_queue_ready_zero (Suc fuel) D t =
     and_then (volread D Queue_ready t) (\<lambda>v t. if v \<noteq> 0 then wait_queue_ready_zero fuel D t else (Ok (), t))"

definition Mmio_queue_unset :: "nat \<Rightarrow> mmio_dev \<Rightarrow> u16 \<Rightarrow> mmio \<Rightarrow> unit result \<times> mmio" where
  "Mmio_queue_unset fuel D queue t =
     (case mm_version t of
        Version_Legacy \<Rightarrow>
          (Ok (), volwrite Legacy_queue_pfn 0 (volwrite Legacy_queue_align 0
                   (volwrite Queue_num 0 (volwrite Queue_sel (ucast queue) t))))
      | Version_Modern \<Rightarrow>
          and_then (wait_queue_ready_zero fuel D (volwrite Queue_ready 0 (volwrite Queue_sel (ucast queue) t))) (\<lambda>_ t.
          (Ok (), volwrite Queue_device_high 0
                   (volwrite Queue_device_low 0
                   (volwrite Queue_driver_high 0
                   (volwrite Queue_driver_low 0
                   (volwrite Queue_desc_high 0
                   (volwrite Queue_desc_low 0
                   (volwrite Queue_num 0 t)))))))))"

definition Mmio_queue_used :: "mmio_dev \<Rightarrow> u16 \<Rightarrow> mmio \<Rightarrow> bool result \<times> mmio" where
  "Mmio_queue_used D queue t =
     (let t = volwrite Queue_sel (ucast queue) t
      in case mm_version t of
           Version_Legacy \<Rightarrow> and_then (volread D Legacy_queue_pfn t) (\<lambda>v t. (Ok (v \<noteq> 0), t))
         | Version_Modern \<Rightarrow> and_then (volread D Queue_ready t) (\<lambda>v t. (Ok (v \<noteq> 0), t)))"

definition Mmio_ack_interrupt :: "mmio_dev \<Rightarrow> mmio \<Rightarrow> u32 result \<times> mmio" where
  "Mmio_ack_interrupt D t =
     and_then (volread D Interrupt_status t) (\<lambda>interrupt t.
       if interrupt \<noteq> 0
       then (Ok (from_bits_truncate InterruptStatus_all interrupt), volwrite Interrupt_ack interrupt t)
       else (Ok 0, t))"

definition Mmio_read_config_generation :: "mmio_dev \<Rightarrow> mmio \<Rightarrow> u32 result \<times> mmio" where
  "Mmio_read_config_generation D t = volread D Config_generation t"

definition Mmio_read_config_space :: "mmio_dev \<Rightarrow> nat \<Rightarrow> nat \<Rightarrow> nat \<Rightarrow> mmio \<Rightarrow> bytes result \<times> mmio" where
  "Mmio_read_config_space D offset size_of align_of t =
     (if \<not> align_of \<le> 4 then (Panic, t)
      else if offset mod align_of \<noteq> 0 then (Panic, t)
      else if config_space_size t < offset + size_of then (Err ConfigSpaceTooSmall, t)
      else let v = map (\<lambda>i. dev_config D (mm_trace t) (offset + i)) [0..<size_of]
           in (Ok v, t\<lparr>mm_trace := mm_trace t @ [ConfigRead offset size_of v]\<rparr>))"

definition Mmio_write_config_space :: "nat \<Rightarrow> nat \<Rightarrow> bytes \<Rightarrow> mmio \<Rightarrow> unit result \<times> mmio" where
  "Mmio_write_config_space offset align_of value_bytes t =
     (if \<not> align_of \<le> 4 then (Panic, t)
      else if offset mod align_of \<noteq> 0 then (Panic, t)
      else if config_space_size t < offset + length value_bytes then (Err ConfigSpaceTooSmall, t)
      else (Ok (), t\<lparr>mm_trace := mm_trace t @ [ConfigWrite offset value_bytes]\<rparr>))"

definition Mmio_drop :: "mmio \<Rightarrow> unit result \<times> mmio" where
  "Mmio_drop t = Mmio_set_status 0 t"

text \<open>The dictionary of \<^verbatim>\<open>impl Transport for MmioTransport\<close>.\<close>

definition mmio_transport :: "nat \<Rightarrow> mmio_dev \<Rightarrow> mmio transport" where
  "mmio_transport fuel D =
     \<lparr>t_device_type = Mmio_device_type D,
      t_read_device_features = Mmio_read_device_features D,
      t_write_driver_features = Mmio_write_driver_features,
      t_max_queue_size = Mmio_max_queue_size D,
      t_notify = Mmio_notify,
      t_get_status = Mmio_get_status D,
      t_set_status = Mmio_set_status,
      t_set_guest_page_size = Mmio_set_guest_page_size,
      t_requires_legacy_layout = Mmio_requires_legacy_layout,
      t_queue_set = Mmio_queue_set,
      t_queue_unset = Mmio_queue_unset fuel D,
      t_queue_used = Mmio_queue_used D,
      t_ack_interrupt = Mmio_ack_interrupt D,
      t_ack_interrupt_raw = ack_interrupt_raw_default,
      t_read_config_generation = Mmio_read_config_generation D,
      t_read_config_space = Mmio_read_config_space D,
      t_write_config_space = Mmio_write_config_space\<rparr>"

section \<open>The transport is total\<close>

lemmas mmio_simps = volread_def volwrite_def Let_def Mmio_read_device_features_def Mmio_write_driver_features_def
  Mmio_get_status_def Mmio_set_status_def Mmio_set_guest_page_size_def Mmio_read_config_generation_def

interpretation mmio_total: transport_total "mmio_transport fuel D" "\<lambda>_. True" for fuel D
  by unfold_locales (simp_all add: mmio_transport_def mmio_simps split: MmioVersion.split)

end
