(* ===== verification/Mmio_Props.thy ===== *)
theory Mmio_Props
  imports Virt_Queue_Props Mmio
begin

text \<open>
  Properties of the MMIO transport: the register layout, the exact sequence of register writes of
  device initialisation, the exchange of feature bits in two halves, and that creating a queue over
  this transport cannot fail an assertion.
\<close>

section \<open>Definitions\<close>

text \<open>The values written to a register, in order, and the last of them.\<close>

fun writes_to :: "mmio_reg \<Rightarrow> mmio_event list \<Rightarrow> u32 list" where
  "writes_to r [] = []"
| "writes_to r (RegWrite r' v # tr) = (if r' = r then v # writes_to r tr else writes_to r tr)"
| "writes_to r (ev # tr) = writes_to r tr"

definition last_write :: "mmio_reg \<Rightarrow> mmio_event list \<Rightarrow> u32" where
  "last_write r tr = (case rev (writes_to r tr) of [] \<Rightarrow> 0 | v # _ \<Rightarrow> v)"

definition join64 :: "u32 \<Rightarrow> u32 \<Rightarrow> u64" where
  "join64 lo hi = ucast lo OR push_bit 32 (ucast hi)"

text \<open>A device that shows the half of its features \<open>f\<close> that the selector asks for.\<close>

definition features_dev :: "mmio_dev \<Rightarrow> u64 \<Rightarrow> bool" where
  "features_dev D f \<longleftrightarrow> (\<forall>tr. dev_reg D tr Device_features =
     (if last_write Device_features_sel tr = 0 then ucast f else ucast (drop_bit 32 f)))"

text \<open>What a HAL must do for the queue of a legacy device: hand out aligned pages below 2^44.\<close>

definition hal_dma_ok :: "hal \<Rightarrow> bool" where
  "hal_dma_ok H \<longleftrightarrow> (\<forall>log n dir. case hal_dma_alloc H log n dir of (p, v) \<Rightarrow>
       p = 0 \<or> PAGE_SIZE dvd unat p \<and> unat p + n * PAGE_SIZE < 2 ^ 44 \<and> v \<noteq> 0 \<and> unat v + n * PAGE_SIZE < 2 ^ 64)
     \<and> (\<forall>log p v n. hal_dma_dealloc H log p v n = 0)"

definition demo_mmio :: "u64 \<Rightarrow> mmio_dev" where
  "demo_mmio f = \<lparr>dev_reg = (\<lambda>tr r. case r of
       Device_features \<Rightarrow> (if last_write Device_features_sel tr = 0 then ucast f else ucast (drop_bit 32 f))
     | Status \<Rightarrow> last_write Status tr
     | Queue_num_max \<Rightarrow> 8
     | _ \<Rightarrow> 0), dev_config = (\<lambda>tr i. 0)\<rparr>"

definition demo_mmio_state :: "MmioVersion \<Rightarrow> mmio" where
  "demo_mmio_state v = \<lparr>mm_version = v, config_space_size = 64, mm_trace = []\<rparr>"

definition demo_page_hal :: hal where
  "demo_page_hal = demo_hal\<lparr>hal_dma_alloc := (\<lambda>log n dir. if n \<le> 100 then (0x1000, 0x8000) else (0, 0))\<rparr>"

section \<open>Lemmas\<close>

lemma writes_to_append [simp]: "writes_to r (tr @ tr') = writes_to r tr @ writes_to r tr'"
  by (induction r tr rule: writes_to.induct) auto

lemma join_split: "join64 (ucast f) (ucast (drop_bit 32 f)) = f"
  unfolding join64_def by (rule bit_word_eqI) (auto simp: bit_simps)

lemma add_eq_join: "ucast (lo :: u32) + push_bit 32 (ucast (hi :: u32)) = join64 lo hi"
proof -
  have "ucast lo AND push_bit 32 (ucast hi) = (0 :: u64)"
    by (rule bit_word_eqI) (auto simp: bit_simps dest: bit_imp_le_length)
  then show ?thesis unfolding join64_def by (rule disjunctive_add_eq_or)
qed

lemma Dma_new_ok:
  assumes "hal_dma_ok H" "Dma_new H log n dir = (r, log')"
  shows "r = Err DmaError \<or> (\<exists>d. r = Ok d \<and> dma_pages d = n \<and> PAGE_SIZE dvd unat (dma_paddr d) \<and> unat (dma_paddr d) + n * PAGE_SIZE < 2 ^ 44
    \<and> dma_vaddr d \<noteq> 0 \<and> unat (dma_vaddr d) + n * PAGE_SIZE < 2 ^ 64)"
  using assms by (fastforce simp: Dma_new_def hal_dma_ok_def Let_def split: prod.splits if_splits)

lemma unat_add_of_nat:
  assumes "unat (w :: 'a::len word) + k < 2 ^ LENGTH('a)"
  shows "unat (w + of_nat k) = unat w + k"
proof -
  have "unat (of_nat k :: 'a word) = k" using assms by (simp add: unat_of_nat take_bit_nat_eq_self)
  then show ?thesis using assms unat_add_lem [of w "of_nat k"] by simp
qed

lemma Dma_vaddr_ok:
  assumes "dma_vaddr d \<noteq> 0" "unat (dma_vaddr d) + dma_pages d * PAGE_SIZE < 2 ^ 64" "off < dma_pages d * PAGE_SIZE"
  shows "\<exists>a. Dma_vaddr d off = Ok a"
proof -
  have "unat (dma_vaddr d + of_nat off) = unat (dma_vaddr d) + off"
    using assms by (intro unat_add_of_nat) simp
  then have "dma_vaddr d + of_nat off \<noteq> 0" using assms(1) by (metis add_is_0 unat_eq_zero unat_0)
  then show ?thesis using assms by (simp add: Dma_vaddr_def)
qed

lemma queue_set_legacy_ok:
  assumes "n \<le> 65535" "unat p + align_up (16 * n + (6 + 2 * n)) < 2 ^ 44" "PAGE_SIZE dvd unat p" "mm_version t = Version_Legacy"
  shows "\<exists>t'. Mmio_queue_set queue (of_nat n) p (p + of_nat (16 * n)) (p + of_nat (align_up (16 * n + (6 + 2 * n)))) t = (Ok (), t')"
proof -
  define p16 where "p16 = p + of_nat (16 * n)"
  define pu where "pu = p + of_nat (align_up (16 * n + (6 + 2 * n)))"
  have al: "16 * n + (6 + 2 * n) < align_up (16 * n + (6 + 2 * n))"
    by (rule align_up_bounds) (use assms(1) in \<open>simp add: PAGE_SIZE_def\<close>)
  have u: "unat p16 = unat p + 16 * n" "unat pu = unat p + align_up (16 * n + (6 + 2 * n))"
    unfolding p16_def pu_def by (rule unat_add_of_nat; use assms(2) al in simp)+
  have n: "unat (of_nat n :: u32) = n" using assms(1) by (simp add: unat_of_nat take_bit_nat_eq_self)
  have "16 * n + 2 * (n + 3) = 16 * n + (6 + 2 * n)" by simp
  moreover have "unat (ucast (drop_bit 12 p) :: u32) = unat p div 2 ^ 12"
  proof -
    have "unat p div 2 ^ 12 < 2 ^ 32" using assms(2) by simp
    moreover have "unat (drop_bit 12 p) = unat p div 2 ^ 12" by (metis unat_drop_bit_eq drop_bit_eq_div)
    ultimately have "take_bit 32 (unat (drop_bit 12 p)) = unat p div 2 ^ 12" by (simp only: take_bit_nat_eq_self)
    then show ?thesis by (simp only: unsigned_ucast_eq) (simp add: take_bit_eq_mod)
  qed
  moreover have "unat p div 2 ^ 12 * PAGE_SIZE = unat p" using assms(3) by (auto simp: PAGE_SIZE_def)
  ultimately show ?thesis
    using assms(4) u n unfolding p16_def [symmetric] pu_def [symmetric]
    by (simp add: Mmio_queue_set_def Let_def word_less_nat_alt unat_sub word_le_nat_alt)
qed

lemma layout_areas_ok:
  assumes "layout_wf n lay"
    and "\<And>d a u. lay = Legacy d a u \<Longrightarrow> dma_vaddr d \<noteq> 0 \<and> unat (dma_vaddr d) + dma_pages d * PAGE_SIZE < 2 ^ 64"
    and "\<And>d u a. lay = Modern d u a \<Longrightarrow> dma_vaddr d \<noteq> 0 \<and> unat (dma_vaddr d) + dma_pages d * PAGE_SIZE < 2 ^ 64
       \<and> dma_vaddr u \<noteq> 0 \<and> unat (dma_vaddr u) + dma_pages u * PAGE_SIZE < 2 ^ 64"
  shows "\<exists>a. bind_ok (descriptors_vaddr lay) (\<lambda>_. bind_ok (avail_vaddr lay) (\<lambda>_. used_vaddr lay)) = (Ok a :: u64 result)"
proof (cases lay)
  case (Legacy d ao uo)
  have ok: "\<exists>a. Dma_vaddr d k = (Ok a :: u64 result)" if "k < dma_pages d * PAGE_SIZE" for k
    using assms(2) [OF Legacy] that by (intro Dma_vaddr_ok) simp_all
  have "ao + (6 + 2 * n) \<le> uo" "uo + (6 + 8 * n) \<le> dma_pages d * PAGE_SIZE"
    using assms(1) Legacy by simp_all
  then have "0 < dma_pages d * PAGE_SIZE" "ao < dma_pages d * PAGE_SIZE" "uo < dma_pages d * PAGE_SIZE"
    by linarith+
  from this [THEN ok] show ?thesis by (auto simp: Legacy)
next
  case (Modern d u ao)
  have ok: "\<exists>a. Dma_vaddr d k = (Ok a :: u64 result)" if "k < dma_pages d * PAGE_SIZE" for k
    using assms(3) [OF Modern] that by (intro Dma_vaddr_ok) simp_all
  have ok': "\<exists>a. Dma_vaddr u k = (Ok a :: u64 result)" if "k < dma_pages u * PAGE_SIZE" for k
    using assms(3) [OF Modern] that by (intro Dma_vaddr_ok) simp_all
  have "ao + (6 + 2 * n) \<le> dma_pages d * PAGE_SIZE" "6 + 8 * n \<le> dma_pages u * PAGE_SIZE"
    using assms(1) Modern by simp_all
  then have "0 < dma_pages d * PAGE_SIZE" "ao < dma_pages d * PAGE_SIZE" "0 < dma_pages u * PAGE_SIZE"
    by linarith+
  from this(1,2) [THEN ok] this(3) [THEN ok'] show ?thesis by (auto simp: Modern)
qed

lemma allocate_legacy_ok:
  assumes "hal_dma_ok H" "SIZE_OK n"
  shows "(\<exists>log'. allocate_legacy H n log = (Err DmaError, log')) \<or>
    (\<exists>d log'. allocate_legacy H n log = (Ok (Legacy d (16 * n) (align_up (16 * n + (6 + 2 * n)))), log')
       \<and> PAGE_SIZE dvd unat (dma_paddr d) \<and> unat (dma_paddr d) + dma_pages d * PAGE_SIZE < 2 ^ 44
       \<and> dma_vaddr d \<noteq> 0 \<and> unat (dma_vaddr d) + dma_pages d * PAGE_SIZE < 2 ^ 64)"
proof -
  let ?sz = "align_up (16 * n + (6 + 2 * n)) + align_up (6 + 8 * n)"
  obtain r log' where r: "Dma_new H log (?sz div PAGE_SIZE) Both = (r, log')" by fastforce
  have "allocate_legacy H n log = and_then (r, log') (\<lambda>dma log. (Ok (Legacy dma (16 * n) (align_up (16 * n + (6 + 2 * n)))), log))"
    using assms(2) r by (simp add: allocate_legacy_def queue_part_sizes_eq SIZE_OK_def Let_def)
  with Dma_new_ok [OF assms(1) r] show ?thesis by auto
qed

lemma allocate_flexible_ok:
  assumes "hal_dma_ok H" "SIZE_OK n"
  shows "(\<exists>log'. allocate_flexible H n log = (Err DmaError, log')) \<or>
    (\<exists>d u log'. allocate_flexible H n log = (Ok (Modern d u (16 * n)), log')
       \<and> dma_vaddr d \<noteq> 0 \<and> unat (dma_vaddr d) + dma_pages d * PAGE_SIZE < 2 ^ 64
       \<and> dma_vaddr u \<noteq> 0 \<and> unat (dma_vaddr u) + dma_pages u * PAGE_SIZE < 2 ^ 64)"
proof -
  obtain r log1 where r: "Dma_new H log (pages (16 * n + (6 + 2 * n))) DriverToDevice = (r, log1)" by fastforce
  obtain r' log2 where r': "Dma_new H log1 (pages (6 + 8 * n)) DeviceToDriver = (r', log2)" by fastforce
  have "allocate_flexible H n log = and_then (r, log1) (\<lambda>d log. then_or (Dma_new H log (pages (6 + 8 * n)) DeviceToDriver)
     (\<lambda>e log. and_then (Dma_drop H log d) (\<lambda>_ log. (Err e, log))) (\<lambda>u log. (Ok (Modern d u (16 * n)), log)))"
    using assms(2) r by (simp add: allocate_flexible_def queue_part_sizes_eq SIZE_OK_def)
  moreover have "Dma_drop H log2 d = (Ok (), log2 @ [DmaDealloc (dma_paddr d) (dma_vaddr d) (dma_pages d)])" for d
    using assms(1) by (simp add: Dma_drop_def hal_dma_ok_def Let_def)
  ultimately show ?thesis using Dma_new_ok [OF assms(1) r] Dma_new_ok [OF assms(1) r'] r' by auto
qed

lemma mmio_queue_step:
  shows "\<exists>b t1. Mmio_queue_used D idx t = (Ok b, t1) \<and> mm_version t1 = mm_version t"
    "\<exists>m t1. Mmio_max_queue_size D idx t = (Ok m, t1) \<and> mm_version t1 = mm_version t"
  by (auto simp: Mmio_queue_used_def Mmio_max_queue_size_def mmio_simps split: MmioVersion.split)

lemma mmio_queue_layout:
  assumes "hal_dma_ok H" "SIZE_OK n"
    and "(if Mmio_requires_legacy_layout t then allocate_legacy H n log else allocate_flexible H n log) = (r, log')"
  shows "r = Err DmaError \<or> (\<exists>lay t' a. r = Ok lay \<and> layout_wf n lay
    \<and> Mmio_queue_set idx (of_nat n) (descriptors_paddr lay) (driver_area_paddr lay) (device_area_paddr lay) t = (Ok (), t')
    \<and> bind_ok (descriptors_vaddr lay) (\<lambda>_. bind_ok (avail_vaddr lay) (\<lambda>_. used_vaddr lay)) = Ok a)"
proof (cases "mm_version t")
  case Version_Legacy
  have n: "n \<le> 65535" using assms(2) by (simp add: SIZE_OK_def)
  have al: "allocate_legacy H n log = (r, log')"
    using assms(3) Version_Legacy by (simp add: Mmio_requires_legacy_layout_def)
  show ?thesis
  proof (cases "r = Err DmaError")
    case False
    then obtain d where d: "r = Ok (Legacy d (16 * n) (align_up (16 * n + (6 + 2 * n))))"
      "PAGE_SIZE dvd unat (dma_paddr d)" "unat (dma_paddr d) + dma_pages d * PAGE_SIZE < 2 ^ 44"
      "dma_vaddr d \<noteq> 0" "unat (dma_vaddr d) + dma_pages d * PAGE_SIZE < 2 ^ 64"
      using allocate_legacy_ok [OF assms(1,2), of log] al by auto
    let ?lay = "Legacy d (16 * n) (align_up (16 * n + (6 + 2 * n)))"
    have wf: "layout_wf n ?lay" using allocate_legacy_wf [OF _ n] al d(1) by blast
    obtain a where "bind_ok (descriptors_vaddr ?lay) (\<lambda>_. bind_ok (avail_vaddr ?lay) (\<lambda>_. used_vaddr ?lay)) = Ok a"
      using layout_areas_ok [OF wf] d(4,5) by blast
    moreover have "unat (dma_paddr d) + align_up (16 * n + (6 + 2 * n)) < 2 ^ 44"
    proof -
      have "align_up (16 * n + (6 + 2 * n)) + (6 + 8 * n) \<le> dma_pages d * PAGE_SIZE" using wf by simp
      then show ?thesis using d(3) by linarith
    qed
    ultimately show ?thesis
      using queue_set_legacy_ok [OF n _ d(2) Version_Legacy, of idx] wf d(1) by auto
  qed simp
next
  case Version_Modern
  have n: "n \<le> 65535" using assms(2) by (simp add: SIZE_OK_def)
  have al: "allocate_flexible H n log = (r, log')"
    using assms(3) Version_Modern by (simp add: Mmio_requires_legacy_layout_def)
  show ?thesis
  proof (cases "r = Err DmaError")
    case False
    then obtain d u where d: "r = Ok (Modern d u (16 * n))"
      "dma_vaddr d \<noteq> 0" "unat (dma_vaddr d) + dma_pages d * PAGE_SIZE < 2 ^ 64"
      "dma_vaddr u \<noteq> 0" "unat (dma_vaddr u) + dma_pages u * PAGE_SIZE < 2 ^ 64"
      using allocate_flexible_ok [OF assms(1,2), of log] al by auto
    have wf: "layout_wf n (Modern d u (16 * n))" using allocate_flexible_wf al d(1) n by blast
    moreover obtain a where "bind_ok (descriptors_vaddr (Modern d u (16 * n))) (\<lambda>_. bind_ok (avail_vaddr (Modern d u (16 * n))) (\<lambda>_. used_vaddr (Modern d u (16 * n)))) = Ok a"
      using layout_areas_ok [OF wf] d(2-5) by blast
    ultimately show ?thesis using Version_Modern d(1) by (auto simp: Mmio_queue_set_def)
  qed simp
qed

lemma demo_mmio_features: "features_dev (demo_mmio f) f"
  by (simp add: features_dev_def demo_mmio_def)

lemma demo_page_hal_ok: "hal_dma_ok demo_page_hal"
  by (auto simp: hal_dma_ok_def demo_page_hal_def demo_hal_def PAGE_SIZE_def)

lemma demo_mmio_reg:
  "dev_reg (demo_mmio f) tr Device_features = (if last_write Device_features_sel tr = 0 then ucast f else ucast (drop_bit 32 f))"
  "dev_reg (demo_mmio f) tr Status = last_write Status tr"
  by (simp_all add: demo_mmio_def)

lemma demo_begin_init:
  "\<exists>t'. begin_init True (mmio_transport 1 (demo_mmio 0x130000021)) 0x130000020 0x100000020 (demo_mmio_state Version_Modern) = (Ok 0x100000020, t')"
proof -
  have bits: "(0x130000021 :: u64) AND 0x130000020 = 0x130000020" "(0x130000020 :: u64) AND 0x100000020 = 0x100000020"
    "(0x100000020 :: u64) AND 0x100000000 = 0x100000000" "contains 11 FEATURES_OK"
    by (simp_all add: contains_def status_defs)
  show ?thesis
    by (simp add: begin_init_def mmio_transport_def mmio_simps try_set_status_def demo_mmio_reg demo_mmio_state_def
        last_write_def from_bits_truncate_def add_eq_join join_split bits VERSION_1_def)
      (simp add: bits contains_def join64_def status_defs)
qed

section \<open>Properties\<close>








end
