(* ===== verification/Driver_Support.thy ===== *)
theory Driver_Support
  imports Virt_Queue_Props
begin

text \<open>
  What the device drivers share: typed access to the configuration space (src/src/config.rs), and
  the environment in which a driver runs. The environment is made of the transport, the HAL, the
  addresses the compiler gives to a function's local buffers, and the device, which may change the
  shared memory of a queue in every iteration of a loop that waits for it.
\<close>

section \<open>Configuration space\<close>

text \<open>
  \<^verbatim>\<open>read_config!(transport, Struct, field)\<close> for a field of an integer type: \<open>off\<close> is
  \<^verbatim>\<open>offset_of!(Struct, field)\<close>, and the size and the alignment are those of the integer type. The
  bytes are interpreted as on a little-endian machine.
\<close>

definition read_config :: "'t transport \<Rightarrow> nat \<Rightarrow> nat \<Rightarrow> 't \<Rightarrow> ('a::len word) result \<times> 't" where
  "read_config T off sz t = and_then (t_read_config_space T off sz sz t) (\<lambda>bs t. (Ok (from_le bs), t))"

definition write_config :: "'t transport \<Rightarrow> nat \<Rightarrow> nat \<Rightarrow> 'a::len word \<Rightarrow> 't \<Rightarrow> unit result \<times> 't" where
  "write_config T off sz v t = t_write_config_space T off sz (le_bytes sz v) t"

section \<open>Environment of a driver\<close>

record 't drv_env =
  de_T :: "'t transport"
  de_H :: hal
  de_wait :: "vq \<Rightarrow> (shared \<Rightarrow> shared) list"
  de_ptr :: "hal_event list \<Rightarrow> nat \<Rightarrow> u64"

text \<open>The \<open>k\<close>-th local buffer of a function, while the queue has the given history.\<close>

definition local_bufs :: "'t drv_env \<Rightarrow> vq \<Rightarrow> nat \<Rightarrow> bytes list \<Rightarrow> buf list" where
  "local_bufs E q k bss = map (\<lambda>(i, bs). \<lparr>b_ptr = de_ptr E (hal_log q) i, b_data = bs\<rparr>) (enumerate k bss)"

text \<open>
  \<^verbatim>\<open>queue.add_notify_wait_pop(&[..inputs], &mut [..outputs], &transport)\<close> on local buffers with the
  given contents; returns the used length and the contents of the outputs afterwards.
\<close>

definition request :: "'t drv_env \<Rightarrow> bytes list \<Rightarrow> bytes list \<Rightarrow> vq \<times> 't \<Rightarrow> (u32 \<times> bytes list) result \<times> (vq \<times> 't)" where
  "request E inputs outputs s =
     (let ins = local_bufs E (fst s) 0 inputs;
          outs = local_bufs E (fst s) (length inputs) outputs
      in and_then (add_notify_wait_pop (de_T E) (de_H E) (de_wait E (fst s)) ins outs s) (\<lambda>(len, bs) s.
           (Ok (len, map b_data (drop (length inputs) bs)), s)))"

lemma length_local_bufs [simp]: "length (local_bufs E q k bss) = length bss"
  by (simp add: local_bufs_def)

lemma map_data_local_bufs [simp]: "map b_data (local_bufs E q k bss) = bss"
  by (simp add: local_bufs_def comp_def case_prod_beta map_snd_enumerate)

lemma map_len_local_bufs [simp]: "map buf_len (local_bufs E q k bss) = map length bss"
proof -
  have "map buf_len bs = map length (map b_data bs)" for bs by (simp add: buf_len_def comp_def)
  then show ?thesis by (simp only: map_data_local_bufs)
qed

section \<open>Contract of a blocking request\<close>

text \<open>
  A driver's queue between requests has nothing in flight. A device that respects the layout keeps
  the length of the rings and may write anything else.
\<close>

definition idle :: "vq \<Rightarrow> bool" where
  "idle q \<longleftrightarrow> (\<exists>fl. vq_inv q fl [])"

definition env_ok :: "'t drv_env \<Rightarrow> bool" where
  "env_ok E \<longleftrightarrow> (\<forall>i t. \<exists>t'. t_notify (de_T E) i t = (Ok (), t')) \<and>
     (\<forall>q. \<forall>d\<in>set (de_wait E q). \<forall>m. mem_ok (SIZE q) m \<longrightarrow> mem_ok (SIZE q) (d m))"

definition msg_ok :: "bytes list \<Rightarrow> bool" where
  "msg_ok bss \<longleftrightarrow> (\<forall>bs\<in>set bss. 0 < length bs \<and> length bs < 2 ^ 32)"

lemma local_bufs_set: "b \<in> set (local_bufs E q k bss) \<Longrightarrow> b_data b \<in> set bss"
  by (auto simp: local_bufs_def in_set_enumerate_eq)

lemma request_cases:
  assumes "idle q" "env_ok E" "msg_ok (inputs @ outputs)" "inputs @ outputs \<noteq> []"
    and n: "length inputs + length outputs \<le> SIZE q"
    and run: "request E inputs outputs (q, t) = (r, (q', t'))"
  shows "r = Diverge \<or> r = Err WrongToken \<or>
    (\<exists>len os. r = Ok (len, os) \<and> map length os = map length outputs \<and> idle q' \<and> SIZE q' = SIZE q
       \<and> queue_idx q' = queue_idx q)"
proof -
  obtain fl where inv: "vq_inv q fl []" using assms(1) by (auto simp: idle_def)
  let ?i = "local_bufs E q 0 inputs" and ?o = "local_bufs E q (length inputs) outputs"
  have req: "req_ok (InputOutputIter_list (?i, ?o))"
    using assms(3) by (auto simp: req_ok_def msg_ok_def buf_len_def dest!: local_bufs_set)
  have "unat (num_used q) = 0" using inv by (simp add: vq_inv_def owned_def)
  moreover have "length inputs + length outputs \<noteq> 0" using assms(4) by auto
  then have "0 < SIZE q" using n by linarith
  ultimately have nf: "\<not> queue_full (length ?i + length ?o) q" using n by (simp add: queue_full_def)
  have ne: "?i \<noteq> [] \<or> ?o \<noteq> []" using assms(4) by (metis append_is_Nil_conv length_0_conv length_local_bufs)
  obtain r1 q1 t1 where r1: "add_notify_wait_pop (de_T E) (de_H E) (de_wait E q) ?i ?o (q, t) = (r1, (q1, t1))"
    by (metis surj_pair)
  have ntf: "\<exists>t'. t_notify (de_T E) (queue_idx q) t = (Ok (), t')" for t
    using assms(2) by (auto simp: env_ok_def)
  have dev: "\<forall>d\<in>set (de_wait E q). \<forall>m. mem_ok (SIZE q) m \<longrightarrow> mem_ok (SIZE q) (d m)"
    using assms(2) by (auto simp: env_ok_def)
  have r: "(r, (q', t')) = and_then (r1, (q1, t1)) (\<lambda>(len, bs) s. (Ok (len, map b_data (drop (length inputs) bs)), s))"
    using run r1 by (simp add: request_def)
  from add_notify_wait_pop_cases [OF inv req ne nf ntf dev r1]
  consider "r1 = Diverge" | "r1 = Err WrongToken"
    | len bs where "r1 = Ok (len, bs)" "map buf_len bs = map buf_len (?i @ ?o)" "vq_inv q1 fl []"
        "SIZE q1 = SIZE q" "queue_idx q1 = queue_idx q" by blast
  then show ?thesis
  proof cases
    case 3
    have "map length (map b_data (drop (length inputs) bs)) = map buf_len (drop (length inputs) bs)"
      by (simp add: buf_len_def)
    also have "\<dots> = map length outputs"
      unfolding drop_map [symmetric] 3(2) by simp
    finally have "map length (map b_data (drop (length inputs) bs)) = map length outputs" .
    with 3 r show ?thesis by (auto simp: idle_def)
  qed (use r in auto)
qed

end
