(* ===== verification/Ring_Buffer.thy ===== *)
theory Ring_Buffer
  imports Prelude
begin

text \<open>
  The receive buffer of a vsock connection, \<^verbatim>\<open>RingBuffer\<close> in
  src/src/device/socket/connectionmanager.rs, as a data refinement of a byte queue of bounded
  length: an abstract contract as a locale, the lemmas its clients need proved once from the
  contract, and the interpretation on the code's buffer.
\<close>

section \<open>The buffer\<close>

record ring =
  rb_buffer :: bytes
  rb_used :: nat
  rb_start :: nat

definition RingBuffer_new :: "nat \<Rightarrow> ring" where
  "RingBuffer_new capacity = \<lparr>rb_buffer = replicate capacity 0, rb_used = 0, rb_start = 0\<rparr>"

definition RingBuffer_is_empty :: "ring \<Rightarrow> bool" where
  "RingBuffer_is_empty r \<longleftrightarrow> rb_used r = 0"

definition RingBuffer_free :: "ring \<Rightarrow> nat" where
  "RingBuffer_free r = length (rb_buffer r) - rb_used r"

text \<open>
  \<^verbatim>\<open>buf[off..off + src.len()].copy_from_slice(src)\<close>: a panic when the range is out of bounds.
\<close>

definition copy_from_slice :: "bytes \<Rightarrow> nat \<Rightarrow> bytes \<Rightarrow> ('e, bytes) outcome" where
  "copy_from_slice dst off src =
     (if off + length src \<le> length dst then Ok (take off dst @ src @ drop (off + length src) dst) else Panic)"

text \<open>\<^verbatim>\<open>&buf[off..off + len]\<close>\<close>

definition sub_slice :: "bytes \<Rightarrow> nat \<Rightarrow> nat \<Rightarrow> ('e, bytes) outcome" where
  "sub_slice b off len = (if off + len \<le> length b then Ok (take len (drop off b)) else Panic)"

text \<open>
  \<^verbatim>\<open>add\<close>. The remainder by the length panics when the capacity is zero. The slice after the
  wrap-around is empty when everything fits before the end.
\<close>

definition RingBuffer_add :: "bytes \<Rightarrow> ring \<Rightarrow> bool result \<times> ring" where
  "RingBuffer_add bs r =
     (if RingBuffer_free r < length bs then (Ok False, r)
      else if length (rb_buffer r) = 0 then (Panic, r)
      else let first_available = (rb_start r + rb_used r) mod length (rb_buffer r);
               before = min (length bs) (length (rb_buffer r) - first_available)
      in and_then (copy_from_slice (rb_buffer r) first_available (take before bs), r) (\<lambda>b r.
         and_then (copy_from_slice b 0 (drop before bs), r\<lparr>rb_buffer := b\<rparr>) (\<lambda>b r.
           (Ok True, r\<lparr>rb_buffer := b, rb_used := rb_used r + length bs\<rparr>))))"

text \<open>\<^verbatim>\<open>drain\<close> into a slice of \<open>out_len\<close> bytes; the result is the bytes written to its front.\<close>

definition RingBuffer_drain :: "nat \<Rightarrow> ring \<Rightarrow> bytes result \<times> ring" where
  "RingBuffer_drain out_len r =
     (let bytes_read = min (rb_used r) out_len;
          before = min bytes_read (length (rb_buffer r) - rb_start r);
          after = bytes_read - before
      in and_then (sub_slice (rb_buffer r) (rb_start r) before, r) (\<lambda>a r.
         and_then (sub_slice (rb_buffer r) 0 after, r) (\<lambda>b r.
           if length (rb_buffer r) = 0 then (Panic, r\<lparr>rb_used := rb_used r - bytes_read\<rparr>)
           else (Ok (a @ b), r\<lparr>rb_used := rb_used r - bytes_read,
                              rb_start := (rb_start r + bytes_read) mod length (rb_buffer r)\<rparr>))))"

section \<open>The contract of a bounded byte queue\<close>

text \<open>Steps of a client: what it offers to the queue and how much it asks for.\<close>

datatype fifo_op = FPut bytes | FGet nat

text \<open>A run: the bytes accepted, the bytes handed out, and the final state.\<close>

fun fifo_run ::
  "(bytes \<Rightarrow> 's \<Rightarrow> bool result \<times> 's) \<Rightarrow> (nat \<Rightarrow> 's \<Rightarrow> bytes result \<times> 's) \<Rightarrow> fifo_op list \<Rightarrow> 's
     \<Rightarrow> (bytes \<times> bytes \<times> 's) option"
where
  "fifo_run add drain [] s = Some ([], [], s)"
| "fifo_run add drain (FPut bs # ops) s =
     (case add bs s of
        (Ok b, s') \<Rightarrow> map_option (\<lambda>(i, out, s'). ((if b then bs @ i else i), out, s')) (fifo_run add drain ops s')
      | _ \<Rightarrow> None)"
| "fifo_run add drain (FGet n # ops) s =
     (case drain n s of
        (Ok bs, s') \<Rightarrow> map_option (\<lambda>(i, out, s'). (i, bs @ out, s')) (fifo_run add drain ops s')
      | _ \<Rightarrow> None)"

locale byte_fifo =
  fixes add :: "bytes \<Rightarrow> 's \<Rightarrow> bool result \<times> 's"
    and drain :: "nat \<Rightarrow> 's \<Rightarrow> bytes result \<times> 's"
    and contents :: "'s \<Rightarrow> bytes"
    and capacity :: "'s \<Rightarrow> nat"
    and ok :: "'s \<Rightarrow> bool"
  assumes bounded: "ok s \<Longrightarrow> length (contents s) \<le> capacity s"
    and add_fits: "ok s \<Longrightarrow> length (contents s) + length bs \<le> capacity s \<Longrightarrow>
      \<exists>s'. add bs s = (Ok True, s') \<and> ok s' \<and> contents s' = contents s @ bs \<and> capacity s' = capacity s"
    and add_full: "ok s \<Longrightarrow> capacity s < length (contents s) + length bs \<Longrightarrow> add bs s = (Ok False, s)"
    and drain_law: "ok s \<Longrightarrow>
      \<exists>s'. drain n s = (Ok (take n (contents s)), s') \<and> ok s' \<and> contents s' = drop n (contents s) \<and> capacity s' = capacity s"
begin

lemma fifo_run_ok:
  assumes "ok s"
  shows "\<exists>i out s'. fifo_run add drain ops s = Some (i, out, s') \<and> ok s' \<and> capacity s' = capacity s \<and> contents s @ i = out @ contents s'"
  using assms
proof (induction ops arbitrary: s)
  case (Cons a ops)
  show ?case
  proof (cases a)
    case (FPut bs)
    show ?thesis
    proof (cases "length (contents s) + length bs \<le> capacity s")
      case True
      from add_fits [OF Cons.prems True] obtain s1 where
        1: "add bs s = (Ok True, s1)" "ok s1" "contents s1 = contents s @ bs" "capacity s1 = capacity s" by blast
      with Cons.IH [OF 1(2)] show ?thesis by (auto simp: FPut)
    next
      case False
      then have "add bs s = (Ok False, s)" using add_full Cons.prems by simp
      with Cons.IH [OF Cons.prems] show ?thesis by (auto simp: FPut)
    qed
  next
    case (FGet n)
    from drain_law [OF Cons.prems, of n] obtain s1 where
      1: "drain n s = (Ok (take n (contents s)), s1)" "ok s1" "contents s1 = drop n (contents s)" "capacity s1 = capacity s" by blast
    from Cons.IH [OF 1(2)] obtain i out s' where
      2: "fifo_run add drain ops s1 = Some (i, out, s')" "ok s'" "capacity s' = capacity s1" "contents s1 @ i = out @ contents s'" by blast
    then have "contents s @ i = (take n (contents s) @ out) @ contents s'"
      by (metis 1(3) append.assoc append_take_drop_id)
    with 1 2 show ?thesis by (simp add: FGet)
  qed
qed simp

end

section \<open>The ring buffer implements it\<close>

definition rb_ok :: "ring \<Rightarrow> bool" where
  "rb_ok r \<longleftrightarrow> 0 < length (rb_buffer r) \<and> rb_used r \<le> length (rb_buffer r) \<and> rb_start r < length (rb_buffer r)"

text \<open>The abstraction: the bytes in use, in the order in which they will be read.\<close>

definition rb_list :: "ring \<Rightarrow> bytes" where
  "rb_list r = take (rb_used r) (rotate (rb_start r) (rb_buffer r))"

definition rb_capacity :: "ring \<Rightarrow> nat" where
  "rb_capacity r = length (rb_buffer r)"

lemma length_rb_list: "rb_ok r \<Longrightarrow> length (rb_list r) = rb_used r"
  by (simp add: rb_list_def rb_ok_def)

lemma RingBuffer_new_ok: "0 < n \<Longrightarrow> rb_ok (RingBuffer_new n) \<and> rb_list (RingBuffer_new n) = [] \<and> rb_capacity (RingBuffer_new n) = n"
  by (simp add: rb_ok_def RingBuffer_new_def rb_list_def rb_capacity_def)

lemma rotate_split: "k \<le> length b \<Longrightarrow> rotate k b = drop k b @ take k b"
  by (cases "k = length b") (simp_all add: rotate_drop_take)

lemma mod_small2: "a < n + n \<Longrightarrow> a mod n = (if a < n then a else a - n)" for a n :: nat
  by (simp add: mod_if)

lemma ring_index:
  fixes s n u l i f k j :: nat
  assumes "s < n" "u + l \<le> n" "i < u" "f = (if s + u < n then s + u else s + u - n)"
    "k = (if l \<le> n - f then l else n - f)" "j = (if s + i < n then s + i else s + i - n)"
  shows "\<not> j < l - k" "\<not> (f \<le> j \<and> j < f + k)"
  using assms by (auto split: if_splits)

lemma RingBuffer_add_fits:
  assumes "rb_ok r" "length (rb_list r) + length bs \<le> rb_capacity r"
  shows "\<exists>r'. RingBuffer_add bs r = (Ok True, r') \<and> rb_ok r' \<and> rb_list r' = rb_list r @ bs \<and> rb_capacity r' = rb_capacity r"
proof -
  let ?n = "length (rb_buffer r)" and ?b = "rb_buffer r" and ?s = "rb_start r" and ?u = "rb_used r"
  have n: "0 < ?n" "?u + length bs \<le> ?n" "?s < ?n"
    using assms by (auto simp: rb_ok_def rb_capacity_def length_rb_list)
  define f where "f = (?s + ?u) mod ?n"
  define k where "k = min (length bs) (?n - f)"
  have f: "f < ?n" using n f_def by simp
  have fit: "length bs - k \<le> f"
  proof (cases "length bs \<le> ?n - f")
    case False
    show ?thesis
    proof (cases "?s + ?u < ?n")
      case True
      then have "f = ?s + ?u" by (simp add: f_def)
      with False n show ?thesis by (simp add: k_def)
    next
      case False
      then have "f = ?s + ?u - ?n" using n by (simp add: f_def mod_if)
      with False n show ?thesis by (simp add: k_def)
    qed
  qed (simp add: k_def)
  have fc: "f = (if ?s + ?u < ?n then ?s + ?u else ?s + ?u - ?n)" using n by (simp add: f_def mod_small2)
  have kc: "k = (if length bs \<le> ?n - f then length bs else ?n - f)" by (simp add: k_def)
  define b1 where "b1 = take f ?b @ take k bs @ drop (f + k) ?b"
  define b2 where "b2 = drop k bs @ drop (length bs - k) b1"
  have l: "length b1 = ?n" "length b2 = ?n" using f fit k_def by (auto simp: b1_def b2_def)
  have k: "f + k \<le> ?n" "k \<le> length bs" using f by (auto simp: k_def)
  have "copy_from_slice ?b f (take k bs) = (Ok b1 :: bytes result)" "copy_from_slice b1 0 (drop k bs) = (Ok b2 :: bytes result)"
    using k l fit f by (simp_all add: copy_from_slice_def b1_def b2_def)
  moreover have "\<not> ?n - ?u < length bs" "?n \<noteq> 0" using n by auto
  ultimately have run: "RingBuffer_add bs r = (Ok True, r\<lparr>rb_buffer := b2, rb_used := ?u + length bs\<rparr>)"
    unfolding RingBuffer_add_def RingBuffer_free_def Let_def f_def [symmetric] k_def [symmetric] by simp
  have "take (?u + length bs) (rotate ?s b2) = take ?u (rotate ?s ?b) @ bs"
  proof (rule nth_equalityI)
    show "length (take (?u + length bs) (rotate ?s b2)) = length (take ?u (rotate ?s ?b) @ bs)" using n l by simp
  next
    fix i assume "i < length (take (?u + length bs) (rotate ?s b2))"
    then have i: "i < ?u + length bs" by simp
    have b2: "b2 ! j = (if j < length bs - k then bs ! (k + j) else if f \<le> j \<and> j < f + k then bs ! (j - f) else ?b ! j)"
      if "j < ?n" for j
      using that f fit k by (auto simp: b2_def b1_def nth_append)
    have L: "take (?u + length bs) (rotate ?s b2) ! i = b2 ! ((?s + i) mod ?n)"
      using i n l by (simp add: nth_rotate add.commute)
    show "take (?u + length bs) (rotate ?s b2) ! i = (take ?u (rotate ?s ?b) @ bs) ! i"
    proof (cases "i < ?u")
      case True
      then have "(take ?u (rotate ?s ?b) @ bs) ! i = ?b ! ((?s + i) mod ?n)"
        using n by (simp add: nth_append nth_rotate add.commute)
      moreover have "b2 ! ((?s + i) mod ?n) = ?b ! ((?s + i) mod ?n)"
        using ring_index [OF n(3,2) True fc kc mod_small2 [of "?s + i" ?n]] True n by (subst b2) auto
      ultimately show ?thesis using L by simp
    next
      case False
      define m where "m = i - ?u"
      then have m: "i = ?u + m" "m < length bs" using False i by auto
      have "(?s + i) mod ?n = (f + m) mod ?n" unfolding f_def m(1) by (simp add: mod_add_left_eq add.assoc [symmetric])
      moreover have "b2 ! ((f + m) mod ?n) = bs ! m"
      proof (cases "f + m < ?n")
        case True
        then have "m < k" using m(2) by (simp add: k_def)
        with True fit show ?thesis by (simp add: b2)
      next
        case False
        then have "k = ?n - f" "(f + m) mod ?n = f + m - ?n" using m(2) n f by (auto simp: k_def mod_small2)
        then show ?thesis using False m(2) f n by (subst b2) auto
      qed
      ultimately show ?thesis using L m n by (simp add: nth_append)
    qed
  qed
  then show ?thesis using n l run by (auto simp: rb_ok_def rb_list_def rb_capacity_def)
qed

lemma RingBuffer_drain_law:
  assumes "rb_ok r"
  shows "\<exists>r'. RingBuffer_drain n r = (Ok (take n (rb_list r)), r') \<and> rb_ok r' \<and> rb_list r' = drop n (rb_list r) \<and> rb_capacity r' = rb_capacity r"
proof -
  let ?b = "rb_buffer r" and ?s = "rb_start r" and ?u = "rb_used r"
  define m where "m = min ?u n"
  define k where "k = min m (length ?b - ?s)"
  have ok: "0 < length ?b" "?u \<le> length ?b" "?s < length ?b" using assms by (auto simp: rb_ok_def)
  have m: "m \<le> ?u" "m \<le> length ?b" using ok by (auto simp: m_def)
  have k: "?s + k \<le> length ?b" "m - k \<le> ?s" using m ok by (auto simp: k_def)
  have "take k (drop ?s ?b) @ take (m - k) ?b = take m (rotate ?s ?b)"
    using ok m k by (simp add: rotate_split k_def min_def) linarith
  also have "\<dots> = take n (rb_list r)" by (simp add: rb_list_def m_def min.commute)
  finally have data: "take k (drop ?s ?b) @ take (m - k) ?b = take n (rb_list r)" .
  have sub: "sub_slice ?b ?s k = (Ok (take k (drop ?s ?b)) :: bytes result)" "sub_slice ?b 0 (m - k) = (Ok (take (m - k) ?b) :: bytes result)"
    using k ok by (simp_all add: sub_slice_def)
  let ?r = "r\<lparr>rb_used := ?u - m, rb_start := (?s + m) mod length ?b\<rparr>"
  have "RingBuffer_drain n r = (Ok (take k (drop ?s ?b) @ take (m - k) ?b), ?r)"
    using sub ok unfolding RingBuffer_drain_def Let_def m_def [symmetric] k_def [symmetric] by simp
  moreover have "rb_list ?r = drop n (rb_list r)"
  proof -
    have "rotate ((?s + m) mod length ?b) ?b = rotate m (rotate ?s ?b)"
      by (simp add: rotate_rotate add.commute flip: rotate_conv_mod)
    also have "\<dots> = drop m (rotate ?s ?b) @ take m (rotate ?s ?b)" using m by (simp add: rotate_split)
    finally have "rb_list ?r = take (?u - m) (drop m (rotate ?s ?b))" using ok m by (simp add: rb_list_def)
    also have "\<dots> = drop m (rb_list r)" using m by (simp add: rb_list_def drop_take)
    also have "\<dots> = drop n (rb_list r)" using ok by (cases "n \<le> ?u") (simp_all add: m_def rb_list_def)
    finally show ?thesis .
  qed
  moreover have "rb_ok ?r" "rb_capacity ?r = rb_capacity r" using ok by (auto simp: rb_ok_def rb_capacity_def)
  ultimately show ?thesis using data by auto
qed

interpretation rbq: byte_fifo RingBuffer_add RingBuffer_drain rb_list rb_capacity rb_ok
proof unfold_locales
  show "length (rb_list s) \<le> rb_capacity s" if "rb_ok s" for s
    using that by (simp add: length_rb_list rb_ok_def rb_capacity_def)
  show "RingBuffer_add bs s = (Ok False, s)" if "rb_ok s" "rb_capacity s < length (rb_list s) + length bs" for s bs
  proof -
    have "RingBuffer_free s < length bs"
      using that by (auto simp: RingBuffer_free_def length_rb_list rb_capacity_def rb_ok_def)
    then show ?thesis by (simp add: RingBuffer_add_def)
  qed
qed (rule RingBuffer_add_fits RingBuffer_drain_law; assumption)+

section \<open>Properties\<close>



end
