(* ===== verification/Vsock_Protocol.thy ===== *)
theory Vsock_Protocol
  imports Transport
begin

text \<open>
  The wire format of vsock packets, src/src/device/socket/protocol.rs: the packed little-endian
  header, its operations, and the splitting of a received buffer into header and body
  (\<^verbatim>\<open>read_header_and_body\<close> of src/src/device/socket/vsock.rs).
\<close>

definition VMADDR_CID_HOST :: u64 where "VMADDR_CID_HOST = 2"

datatype SocketType = Stream | SeqPacket

fun SocketType_code :: "SocketType \<Rightarrow> u16" where
  "SocketType_code Stream = 1"
| "SocketType_code SeqPacket = 2"

record vsock_addr =
  a_cid :: u64
  a_port :: u32

record vsock_hdr =
  h_src_cid :: u64
  h_dst_cid :: u64
  h_src_port :: u32
  h_dst_port :: u32
  h_len :: u32
  h_socket_type :: u16
  h_op :: u16
  h_flags :: u32
  h_buf_alloc :: u32
  h_fwd_cnt :: u32

definition VirtioVsockHdr_default :: vsock_hdr where
  "VirtioVsockHdr_default =
     \<lparr>h_src_cid = 0, h_dst_cid = 0, h_src_port = 0, h_dst_port = 0, h_len = 0,
      h_socket_type = SocketType_code Stream, h_op = 0, h_flags = 0, h_buf_alloc = 0, h_fwd_cnt = 0\<rparr>"

datatype VirtioVsockOp =
    Op_Invalid | Op_Request | Op_Response | Op_Rst | Op_Shutdown | Op_Rw | Op_CreditUpdate | Op_CreditRequest

fun VirtioVsockOp_code :: "VirtioVsockOp \<Rightarrow> u16" where
  "VirtioVsockOp_code Op_Invalid = 0"
| "VirtioVsockOp_code Op_Request = 1"
| "VirtioVsockOp_code Op_Response = 2"
| "VirtioVsockOp_code Op_Rst = 3"
| "VirtioVsockOp_code Op_Shutdown = 4"
| "VirtioVsockOp_code Op_Rw = 5"
| "VirtioVsockOp_code Op_CreditUpdate = 6"
| "VirtioVsockOp_code Op_CreditRequest = 7"

definition VirtioVsockOp_try_from :: "u16 \<Rightarrow> (SocketError, VirtioVsockOp) outcome" where
  "VirtioVsockOp_try_from v =
     (if v = 0 then Ok Op_Invalid
      else if v = 1 then Ok Op_Request
      else if v = 2 then Ok Op_Response
      else if v = 3 then Ok Op_Rst
      else if v = 4 then Ok Op_Shutdown
      else if v = 5 then Ok Op_Rw
      else if v = 6 then Ok Op_CreditUpdate
      else if v = 7 then Ok Op_CreditRequest
      else Err (UnknownOperation v))"

definition hdr_op :: "vsock_hdr \<Rightarrow> (SocketError, VirtioVsockOp) outcome" where
  "hdr_op h = VirtioVsockOp_try_from (h_op h)"

definition hdr_source :: "vsock_hdr \<Rightarrow> vsock_addr" where
  "hdr_source h = \<lparr>a_cid = h_src_cid h, a_port = h_src_port h\<rparr>"

definition hdr_destination :: "vsock_hdr \<Rightarrow> vsock_addr" where
  "hdr_destination h = \<lparr>a_cid = h_dst_cid h, a_port = h_dst_port h\<rparr>"

definition check_data_is_empty :: "vsock_hdr \<Rightarrow> (SocketError, unit) outcome" where
  "check_data_is_empty h = (if h_len h = 0 then Ok () else Err UnexpectedDataInPacket)"

definition StreamShutdown_RECEIVE :: u32 where "StreamShutdown_RECEIVE = push_bit 0 1"
definition StreamShutdown_SEND :: u32 where "StreamShutdown_SEND = push_bit 1 1"

section \<open>Bytes\<close>

definition HDR_SIZE :: nat where "HDR_SIZE = 44"

text \<open>\<^verbatim>\<open>as_bytes\<close> of the \<^verbatim>\<open>repr(C, packed)\<close> struct: the fields in order, without padding.\<close>

definition hdr_as_bytes :: "vsock_hdr \<Rightarrow> bytes" where
  "hdr_as_bytes h =
     le_bytes 8 (h_src_cid h) @ le_bytes 8 (h_dst_cid h) @ le_bytes 4 (h_src_port h) @ le_bytes 4 (h_dst_port h)
     @ le_bytes 4 (h_len h) @ le_bytes 2 (h_socket_type h) @ le_bytes 2 (h_op h) @ le_bytes 4 (h_flags h)
     @ le_bytes 4 (h_buf_alloc h) @ le_bytes 4 (h_fwd_cnt h)"

text \<open>A field of \<open>n\<close> bytes at an offset.\<close>

definition field_at :: "nat \<Rightarrow> nat \<Rightarrow> bytes \<Rightarrow> 'a::len word" where
  "field_at off n bs = from_le (take n (drop off bs))"

definition hdr_read_from_prefix :: "bytes \<Rightarrow> vsock_hdr option" where
  "hdr_read_from_prefix bs =
     (if length bs < HDR_SIZE then None
      else Some \<lparr>h_src_cid = field_at 0 8 bs, h_dst_cid = field_at 8 8 bs, h_src_port = field_at 16 4 bs,
                 h_dst_port = field_at 20 4 bs, h_len = field_at 24 4 bs, h_socket_type = field_at 28 2 bs,
                 h_op = field_at 30 2 bs, h_flags = field_at 32 4 bs, h_buf_alloc = field_at 36 4 bs,
                 h_fwd_cnt = field_at 40 4 bs\<rparr>)"

text \<open>
  \<^verbatim>\<open>read_header_and_body\<close>. A length is a natural number here, so the \<^verbatim>\<open>checked_add\<close> of a 32-bit length
  to 44 never fails, as in the source on a 64-bit target.
\<close>

definition read_header_and_body :: "bytes \<Rightarrow> (vsock_hdr \<times> bytes) result" where
  "read_header_and_body buffer =
     bind_ok (ok_or (SocketDeviceError BufferTooShort) (hdr_read_from_prefix buffer)) (\<lambda>header.
       let body_length = unat (h_len header);
           data_end = HDR_SIZE + body_length
       in if data_end \<le> length buffer then Ok (header, take body_length (drop HDR_SIZE buffer))
          else Err (SocketDeviceError BufferTooShort))"

section \<open>Round trips\<close>

lemma length_hdr_as_bytes [simp]: "length (hdr_as_bytes h) = HDR_SIZE"
  by (simp add: hdr_as_bytes_def HDR_SIZE_def)

lemma hdr_read_as_bytes: "hdr_read_from_prefix (hdr_as_bytes h @ rest) = Some h"
  by (cases h) (simp add: hdr_read_from_prefix_def hdr_as_bytes_def HDR_SIZE_def field_at_def)

lemma hdr_as_bytes_read:
  assumes "hdr_read_from_prefix bs = Some h"
  shows "hdr_as_bytes h = take HDR_SIZE bs"
proof -
  have len: "HDR_SIZE \<le> length bs" using assms by (auto simp: hdr_read_from_prefix_def split: if_splits)
  have t: "le_bytes n (field_at off n bs :: 'a::len word) = take n (drop off bs)" if "off + n \<le> 44" "8 * n \<le> LENGTH('a)" for off n
    unfolding field_at_def using that len by (intro le_bytes_from_le) (auto simp: HDR_SIZE_def)
  have "hdr_as_bytes h = take 8 (drop 0 bs) @ take 8 (drop 8 bs) @ take 4 (drop 16 bs) @ take 4 (drop 20 bs) @ take 4 (drop 24 bs)
     @ take 2 (drop 28 bs) @ take 2 (drop 30 bs) @ take 4 (drop 32 bs) @ take 4 (drop 36 bs) @ take 4 (drop 40 bs)"
    using assms by (auto simp: hdr_read_from_prefix_def hdr_as_bytes_def t split: if_splits)
  also have "\<dots> = take (8 + (8 + (4 + (4 + (4 + (2 + (2 + (4 + (4 + 4))))))))) bs"
    by (simp only: take_add drop_drop) simp
  finally show ?thesis by (simp add: HDR_SIZE_def)
qed

lemma read_header_and_body_Ok:
  "read_header_and_body buffer = Ok (h, body) \<longleftrightarrow>
     (\<exists>rest. buffer = hdr_as_bytes h @ body @ rest \<and> length body = unat (h_len h))"
proof
  assume a: "read_header_and_body buffer = Ok (h, body)"
  then have h: "hdr_read_from_prefix buffer = Some h" and l: "HDR_SIZE + unat (h_len h) \<le> length buffer"
    and b: "body = take (unat (h_len h)) (drop HDR_SIZE buffer)"
    by (auto simp: read_header_and_body_def ok_or_def bind_ok_def Let_def split: option.splits if_splits)
  have "buffer = hdr_as_bytes h @ body @ drop (unat (h_len h)) (drop HDR_SIZE buffer)"
    unfolding b hdr_as_bytes_read [OF h] by (simp only: append_take_drop_id)
  then show "\<exists>rest. buffer = hdr_as_bytes h @ body @ rest \<and> length body = unat (h_len h)"
    using l b by (intro exI conjI) auto
next
  assume "\<exists>rest. buffer = hdr_as_bytes h @ body @ rest \<and> length body = unat (h_len h)"
  then show "read_header_and_body buffer = Ok (h, body)"
    by (auto simp: read_header_and_body_def hdr_read_as_bytes Let_def)
qed

lemma read_header_and_body_cases:
  "(\<exists>h body. read_header_and_body buffer = Ok (h, body)) \<or> read_header_and_body buffer = Err (SocketDeviceError BufferTooShort)"
  by (auto simp: read_header_and_body_def ok_or_def bind_ok_def Let_def split: option.splits)

lemma VirtioVsockOp_roundtrip: "VirtioVsockOp_try_from (VirtioVsockOp_code op) = Ok op"
  by (cases op) (simp_all add: VirtioVsockOp_try_from_def)

section \<open>Properties\<close>

text \<open>
  C24. Decoding inverts encoding: \<^verbatim>\<open>read_header_and_body\<close> returns a header and a body exactly when the buffer
  starts with the 44 bytes of that header followed by that body, as long as the header's length field
  says. It fails, with \<^verbatim>\<open>BufferTooShort\<close>, exactly when the buffer is too short for the header or for the
  announced length.
\<close>

theorem vsock_packet_roundtrip:
  "(read_header_and_body buffer = Ok (h, body) \<longleftrightarrow>
      (\<exists>rest. buffer = hdr_as_bytes h @ body @ rest \<and> length body = unat (h_len h)))
   \<and> (read_header_and_body buffer \<noteq> Err (SocketDeviceError BufferTooShort) \<longleftrightarrow>
      HDR_SIZE \<le> length buffer \<and> HDR_SIZE + unat (field_at 24 4 buffer :: u32) \<le> length buffer)
   \<and> length (hdr_as_bytes h) = 44"
  by (simp only: read_header_and_body_Ok)
     (auto simp: read_header_and_body_def hdr_read_from_prefix_def bind_ok_def Let_def HDR_SIZE_def)

end
