(* ===== verification/Vsock.thy ===== *)
theory Vsock
  imports Driver_Support Ring_Buffer Vsock_Protocol Owning_Queue Device_Queue
begin

text \<open>
  The vsock driver and device, src/src/device/socket/vsock.rs: the credit accounting of a
  connection, the events decoded from packet headers, the provided methods of the trait
  \<^verbatim>\<open>VirtIOSocketManager\<close> over a dictionary of its required methods, and its two implementations, the
  driver \<^verbatim>\<open>VirtIOSocket\<close> and the device \<^verbatim>\<open>VirtIOSocketDevice\<close>.

  A connection behind \<^verbatim>\<open>Arc<Lock<Connection>>\<close> is passed in and out: calls are sequential, and each
  method holds the lock whenever it touches the connection.
\<close>

section \<open>Connections and events\<close>

record connection_info =
  ci_dst :: vsock_addr
  ci_src_port :: u32
  peer_buf_alloc :: u32
  peer_fwd_cnt :: u32
  tx_cnt :: u32
  ci_buf_alloc :: u32
  ci_fwd_cnt :: u32
  has_pending_credit_request :: bool

record connection =
  c_info :: connection_info
  c_buffer :: ring
  peer_requested_shutdown :: bool

record vsock_buffer_status =
  buffer_allocation :: u32
  forward_count :: u32

datatype DisconnectReason = Reset | Shutdown

datatype VsockEventType =
    ConnectionRequest
  | Connected
  | Disconnected DisconnectReason
  | Received nat
  | CreditRequest
  | CreditUpdate

record vsock_event =
  ev_source :: vsock_addr
  ev_destination :: vsock_addr
  ev_buffer_status :: vsock_buffer_status
  ev_type :: VsockEventType
  ev_new_connection :: "connection option"

definition ConnectionInfo_new :: "vsock_addr \<Rightarrow> u32 \<Rightarrow> connection_info" where
  "ConnectionInfo_new destination src_port =
     \<lparr>ci_dst = destination, ci_src_port = src_port, peer_buf_alloc = 0, peer_fwd_cnt = 0, tx_cnt = 0,
      ci_buf_alloc = 0, ci_fwd_cnt = 0, has_pending_credit_request = False\<rparr>"

definition update_for_event :: "vsock_event \<Rightarrow> connection_info \<Rightarrow> connection_info" where
  "update_for_event ev c =
     (let c = c\<lparr>peer_buf_alloc := buffer_allocation (ev_buffer_status ev),
                peer_fwd_cnt := forward_count (ev_buffer_status ev)\<rparr>
      in if ev_type ev = CreditUpdate then c\<lparr>has_pending_credit_request := False\<rparr> else c)"

definition done_forwarding :: "nat \<Rightarrow> connection_info \<Rightarrow> connection_info" where
  "done_forwarding n c = c\<lparr>ci_fwd_cnt := ci_fwd_cnt c + of_nat n\<rparr>"

definition saturating_sub :: "'a::len word \<Rightarrow> 'a word \<Rightarrow> 'a word" where
  "saturating_sub a b = (if a < b then 0 else a - b)"

definition peer_free :: "connection_info \<Rightarrow> u32" where
  "peer_free c = (let outstanding = tx_cnt c - peer_fwd_cnt c in saturating_sub (peer_buf_alloc c) outstanding)"

definition new_header :: "u64 \<Rightarrow> connection_info \<Rightarrow> vsock_hdr" where
  "new_header src_cid c =
     VirtioVsockHdr_default\<lparr>h_src_cid := src_cid, h_dst_cid := a_cid (ci_dst c), h_src_port := ci_src_port c,
       h_dst_port := a_port (ci_dst c), h_buf_alloc := ci_buf_alloc c, h_fwd_cnt := ci_fwd_cnt c\<rparr>"

definition Connection_new :: "vsock_addr \<Rightarrow> u32 \<Rightarrow> u32 \<Rightarrow> connection" where
  "Connection_new peer local_port buffer_capacity =
     \<lparr>c_info = (ConnectionInfo_new peer local_port)\<lparr>ci_buf_alloc := buffer_capacity\<rparr>,
      c_buffer = RingBuffer_new (unat buffer_capacity), peer_requested_shutdown = False\<rparr>"

definition matches_connection :: "vsock_event \<Rightarrow> connection_info \<Rightarrow> u64 \<Rightarrow> bool" where
  "matches_connection ev c guest_cid \<longleftrightarrow>
     ev_source ev = ci_dst c \<and> a_cid (ev_destination ev) = guest_cid \<and> a_port (ev_destination ev) = ci_src_port c"

text \<open>\<^verbatim>\<open>VsockEvent::from_header\<close>; every operation but \<^verbatim>\<open>Rw\<close> must carry no data.\<close>

definition from_header :: "vsock_hdr \<Rightarrow> vsock_event result" where
  "from_header h =
     bind_ok (map_err SocketDeviceError (hdr_op h)) (\<lambda>op.
       let buffer_status = \<lparr>buffer_allocation = h_buf_alloc h, forward_count = h_fwd_cnt h\<rparr>;
           source = hdr_source h;
           destination = hdr_destination h;
           empty_then = (\<lambda>ty. bind_ok (map_err SocketDeviceError (check_data_is_empty h)) (\<lambda>_. Ok ty))
       in bind_ok
            (case op of
               Op_Request \<Rightarrow> empty_then ConnectionRequest
             | Op_Response \<Rightarrow> empty_then Connected
             | Op_CreditUpdate \<Rightarrow> empty_then CreditUpdate
             | Op_Rst \<Rightarrow> empty_then (Disconnected Reset)
             | Op_Shutdown \<Rightarrow> empty_then (Disconnected Shutdown)
             | Op_Rw \<Rightarrow> Ok (Received (unat (h_len h)))
             | Op_CreditRequest \<Rightarrow> empty_then CreditRequest
             | Op_Invalid \<Rightarrow> Err (SocketDeviceError InvalidOperation))
            (\<lambda>event_type. Ok \<lparr>ev_source = source, ev_destination = destination, ev_buffer_status = buffer_status,
                              ev_type = event_type, ev_new_connection = None\<rparr>))"

section \<open>The trait VirtIOSocketManager\<close>

text \<open>
  The required methods. The handler of \<^verbatim>\<open>poll\<close> is a closure; \<open>'i\<close> is the state it captures by
  mutable reference.
\<close>

type_synonym 'i event_handler = "vsock_event \<Rightarrow> bytes \<Rightarrow> 'i \<Rightarrow> vsock_event option result \<times> 'i"

record ('s, 'i) socket_manager =
  sm_local_cid :: "'s \<Rightarrow> u64"
  sm_send_packet :: "vsock_hdr \<Rightarrow> bytes \<Rightarrow> 's \<Rightarrow> unit result \<times> 's"
  sm_poll :: "'i event_handler \<Rightarrow> 's \<times> 'i \<Rightarrow> vsock_event option result \<times> ('s \<times> 'i)"

text \<open>The provided methods. Those that change the connection return it.\<close>

definition sk_accept :: "('s, 'i) socket_manager \<Rightarrow> connection_info \<Rightarrow> 's \<Rightarrow> unit result \<times> 's" where
  "sk_accept M info s =
     sm_send_packet M ((new_header (sm_local_cid M s) info)\<lparr>h_op := VirtioVsockOp_code Op_Response\<rparr>) [] s"

definition request_credit :: "('s, 'i) socket_manager \<Rightarrow> connection \<Rightarrow> 's \<Rightarrow> unit result \<times> 's" where
  "request_credit M c s =
     sm_send_packet M ((new_header (sm_local_cid M s) (c_info c))\<lparr>h_op := VirtioVsockOp_code Op_CreditRequest\<rparr>) [] s"

definition check_peer_buffer_is_sufficient ::
  "('s, 'i) socket_manager \<Rightarrow> connection \<Rightarrow> nat \<Rightarrow> 's \<Rightarrow> unit result \<times> (connection \<times> 's)"
where
  "check_peer_buffer_is_sufficient M c buffer_len s =
     (if unat (peer_free (c_info c)) \<ge> buffer_len then (Ok (), (c, s))
      else if \<not> has_pending_credit_request (c_info c)
      then let c = c\<lparr>c_info := (c_info c)\<lparr>has_pending_credit_request := True\<rparr>\<rparr>
           in lift_then (request_credit M c s) (\<lambda>s. (c, s)) (\<lambda>_ s.
                (Err (SocketDeviceError InsufficientBufferSpaceInPeer), (c, s)))
      else (Err (SocketDeviceError InsufficientBufferSpaceInPeer), (c, s)))"

definition sk_send :: "('s, 'i) socket_manager \<Rightarrow> bytes \<Rightarrow> connection \<Rightarrow> 's \<Rightarrow> unit result \<times> (connection \<times> 's)" where
  "sk_send M buffer c s =
     and_then (check_peer_buffer_is_sufficient M c (length buffer) s) (\<lambda>_ (c, s).
       let len = (of_nat (length buffer) :: u32);
           header = (new_header (sm_local_cid M s) (c_info c))\<lparr>h_op := VirtioVsockOp_code Op_Rw, h_len := len\<rparr>;
           c = c\<lparr>c_info := (c_info c)\<lparr>tx_cnt := tx_cnt (c_info c) + len\<rparr>\<rparr>
       in lift_then (sm_send_packet M header buffer s) (\<lambda>s. (c, s)) (\<lambda>_ s. (Ok (), (c, s))))"

definition credit_update :: "('s, 'i) socket_manager \<Rightarrow> connection \<Rightarrow> 's \<Rightarrow> unit result \<times> 's" where
  "credit_update M c s =
     sm_send_packet M ((new_header (sm_local_cid M s) (c_info c))\<lparr>h_op := VirtioVsockOp_code Op_CreditUpdate\<rparr>) [] s"

definition shutdown_with_hints :: "('s, 'i) socket_manager \<Rightarrow> connection \<Rightarrow> u32 \<Rightarrow> 's \<Rightarrow> unit result \<times> 's" where
  "shutdown_with_hints M c hints s =
     sm_send_packet M ((new_header (sm_local_cid M s) (c_info c))\<lparr>h_op := VirtioVsockOp_code Op_Shutdown, h_flags := hints\<rparr>) [] s"

definition sk_shutdown :: "('s, 'i) socket_manager \<Rightarrow> connection \<Rightarrow> 's \<Rightarrow> unit result \<times> 's" where
  "sk_shutdown M c s = shutdown_with_hints M c (StreamShutdown_SEND OR StreamShutdown_RECEIVE) s"

definition sk_force_close :: "('s, 'i) socket_manager \<Rightarrow> connection \<Rightarrow> 's \<Rightarrow> unit result \<times> 's" where
  "sk_force_close M c s =
     sm_send_packet M ((new_header (sm_local_cid M s) (c_info c))\<lparr>h_op := VirtioVsockOp_code Op_Rst\<rparr>) [] s"

text \<open>What both implementations do with a received buffer: decode it, then call the handler.\<close>

definition handle_buffer :: "'i event_handler \<Rightarrow> bytes \<Rightarrow> 'i \<Rightarrow> vsock_event option result \<times> 'i" where
  "handle_buffer handler buffer i =
     and_then (read_header_and_body buffer, i) (\<lambda>(header, body) i.
     and_then (from_header header, i) (\<lambda>ev i. handler ev body i))"

section \<open>The driver\<close>

definition RX_QUEUE_IDX :: u16 where "RX_QUEUE_IDX = 0"
definition TX_QUEUE_IDX :: u16 where "TX_QUEUE_IDX = 1"
definition EVENT_QUEUE_IDX :: u16 where "EVENT_QUEUE_IDX = 2"
definition QUEUE_SIZE :: nat where "QUEUE_SIZE = 8"

definition VSOCK_SUPPORTED_FEATURES :: u64 where
  "VSOCK_SUPPORTED_FEATURES = RING_EVENT_IDX OR RING_INDIRECT_DESC OR VERSION_1"

definition Vsock_Feature_all :: u64 where
  "Vsock_Feature_all = push_bit 0 1 OR push_bit 1 1 OR Feature_all"

record 't vsock =
  vs_transport :: 't
  vs_rx :: owning
  vs_tx :: vq
  vs_event :: vq
  guest_cid :: u64

text \<open>The two halves of \<^verbatim>\<open>guest_cid\<close> in \<^verbatim>\<open>VirtioVsockConfig\<close> are at offsets 0 and 4.\<close>

definition read_guest_cid :: "'t transport \<Rightarrow> 't \<Rightarrow> u64 result \<times> 't" where
  "read_guest_cid T t =
     and_then (read_config T 0 4 t) (\<lambda>lo t.
     and_then (read_config T 4 4 t) (\<lambda>hi t.
       (Ok (ucast (lo :: u32) OR push_bit 32 (ucast (hi :: u32))), t)))"

text \<open>
  \<^verbatim>\<open>VirtIOSocket::new\<close>. \<open>mr\<close>, \<open>mt\<close>, \<open>me\<close> are what the freshly allocated memory of the three queues
  holds; \<open>bsize\<close> is \<^verbatim>\<open>RX_BUFFER_SIZE\<close>.
\<close>

definition VirtIOSocket_new ::
  "bool \<Rightarrow> nat \<Rightarrow> 't transport \<Rightarrow> hal \<Rightarrow> nat \<Rightarrow> shared \<Rightarrow> shared \<Rightarrow> shared \<Rightarrow> 't \<times> hal_event list
     \<Rightarrow> 't vsock result \<times> ('t \<times> hal_event list)"
where
  "VirtIOSocket_new dbg fuel T H bsize mr mt me s =
     (case s of (t, log) \<Rightarrow>
     if bsize \<le> HDR_SIZE then (Panic, (t, log)) else
     lift_then (begin_init dbg T Vsock_Feature_all VSOCK_SUPPORTED_FEATURES t) (\<lambda>t. (t, log)) (\<lambda>negotiated t.
     lift_then (read_consistent fuel T (read_guest_cid T) t) (\<lambda>t. (t, log)) (\<lambda>cid t.
     let ind = contains negotiated RING_INDIRECT_DESC;
         ev = contains negotiated RING_EVENT_IDX
     in and_then (VirtQueue_new T H mr QUEUE_SIZE RX_QUEUE_IDX ind ev (t, log)) (\<lambda>rx s.
     and_then (VirtQueue_new T H mt QUEUE_SIZE TX_QUEUE_IDX ind ev s) (\<lambda>tx s.
     and_then (VirtQueue_new T H me QUEUE_SIZE EVENT_QUEUE_IDX ind ev s) (\<lambda>event (t, log).
     lift_then (OwningQueue_new H bsize rx) (\<lambda>q. (t, log)) (\<lambda>rx _.
     lift_then (finish_init T t) (\<lambda>t. (t, log)) (\<lambda>_ t.
     lift_then (if ow_should_notify rx then t_notify T RX_QUEUE_IDX t else (Ok (), t)) (\<lambda>t. (t, log)) (\<lambda>_ t.
       (Ok \<lparr>vs_transport = t, vs_rx = rx, vs_tx = tx, vs_event = event, guest_cid = cid\<rparr>, (t, log)))))))))))"

definition VirtIOSocket_drop :: "'t transport \<Rightarrow> 't vsock \<Rightarrow> unit result \<times> 't" where
  "VirtIOSocket_drop T v =
     and_then (t_queue_unset T RX_QUEUE_IDX (vs_transport v)) (\<lambda>_ t.
     and_then (t_queue_unset T TX_QUEUE_IDX t) (\<lambda>_ t.
       t_queue_unset T EVENT_QUEUE_IDX t))"

definition send_packet_to_tx_queue :: "'t drv_env \<Rightarrow> vsock_hdr \<Rightarrow> bytes \<Rightarrow> 't vsock \<Rightarrow> unit result \<times> 't vsock" where
  "send_packet_to_tx_queue E header buffer v =
     lift_then
       (if buffer = [] then request E [hdr_as_bytes header] [] (vs_tx v, vs_transport v)
        else request E [hdr_as_bytes header, buffer] [] (vs_tx v, vs_transport v))
       (\<lambda>(q, t). v\<lparr>vs_tx := q, vs_transport := t\<rparr>)
       (\<lambda>_ (q, t). (Ok (), v\<lparr>vs_tx := q, vs_transport := t\<rparr>))"

definition VirtIOSocket_connect :: "'t drv_env \<Rightarrow> connection \<Rightarrow> 't vsock \<Rightarrow> unit result \<times> 't vsock" where
  "VirtIOSocket_connect E c v =
     send_packet_to_tx_queue E ((new_header (guest_cid v) (c_info c))\<lparr>h_op := VirtioVsockOp_code Op_Request\<rparr>) [] v"

definition vsock_poll :: "'t drv_env \<Rightarrow> 'i event_handler \<Rightarrow> 't vsock \<times> 'i \<Rightarrow> vsock_event option result \<times> ('t vsock \<times> 'i)" where
  "vsock_poll E handler s =
     (case s of (v, i) \<Rightarrow>
       case ow_poll (de_T E) (de_H E) (handle_buffer handler) ((vs_rx v, vs_transport v), i) of
         (r, ((rx, t), i)) \<Rightarrow> (r, (v\<lparr>vs_rx := rx, vs_transport := t\<rparr>, i)))"

definition VirtIOSocket_manager :: "'t drv_env \<Rightarrow> ('t vsock, 'i) socket_manager" where
  "VirtIOSocket_manager E =
     \<lparr>sm_local_cid = guest_cid, sm_send_packet = send_packet_to_tx_queue E, sm_poll = vsock_poll E\<rparr>"

section \<open>The device\<close>

record 't vsock_device =
  vd_transport :: 't
  vd_rx :: dvq
  vd_tx :: dvq
  vd_event :: dvq

text \<open>
  The environment of the device: its transport and HAL, the fuel for walking a descriptor chain, and
  what the driver does to the shared memory while the device waits for a buffer.
\<close>

record 't dev_env =
  dd_T :: "'t device_transport"
  dd_H :: device_hal
  dd_fuel :: nat
  dd_wait :: "dvq \<Rightarrow> (shared \<Rightarrow> shared) list"

definition VirtIOSocketDevice_new ::
  "'t device_transport \<Rightarrow> device_hal \<Rightarrow> shared \<Rightarrow> shared \<Rightarrow> shared \<Rightarrow> (u64 \<Rightarrow> u8) \<Rightarrow> 't \<times> map_event list
     \<Rightarrow> 't vsock_device result \<times> ('t \<times> map_event list)"
where
  "VirtIOSocketDevice_new T H mr mt me g s =
     and_then (DeviceVirtQueue_new T H mr g QUEUE_SIZE RX_QUEUE_IDX s) (\<lambda>rx s.
     and_then (DeviceVirtQueue_new T H mt g QUEUE_SIZE TX_QUEUE_IDX s) (\<lambda>tx s.
     and_then (DeviceVirtQueue_new T H me g QUEUE_SIZE EVENT_QUEUE_IDX s) (\<lambda>event (t, log).
       (Ok \<lparr>vd_transport = t, vd_rx = rx, vd_tx = tx, vd_event = event\<rparr>, (t, log)))))"

definition device_send_packet :: "'t dev_env \<Rightarrow> vsock_hdr \<Rightarrow> bytes \<Rightarrow> 't vsock_device \<Rightarrow> unit result \<times> 't vsock_device" where
  "device_send_packet E header buffer v =
     lift_then
       (if buffer = []
        then wait_pop_add_notify (dd_fuel E) (dd_T E) (dd_H E) (dd_wait E (vd_rx v)) [hdr_as_bytes header] (vd_rx v, vd_transport v)
        else wait_pop_add_notify (dd_fuel E) (dd_T E) (dd_H E) (dd_wait E (vd_rx v)) [hdr_as_bytes header, buffer] (vd_rx v, vd_transport v))
       (\<lambda>(d, t). v\<lparr>vd_rx := d, vd_transport := t\<rparr>)
       (\<lambda>_ (d, t). (Ok (), v\<lparr>vd_rx := d, vd_transport := t\<rparr>))"

definition vsock_device_poll ::
  "'t dev_env \<Rightarrow> 'i event_handler \<Rightarrow> 't vsock_device \<times> 'i \<Rightarrow> vsock_event option result \<times> ('t vsock_device \<times> 'i)"
where
  "vsock_device_poll E handler s =
     (case s of (v, i) \<Rightarrow>
       case dv_poll (dd_fuel E) (dd_T E) (dd_H E) (handle_buffer handler) ((vd_tx v, vd_transport v), i) of
         (r, ((tx, t), i)) \<Rightarrow> (r, (v\<lparr>vd_tx := tx, vd_transport := t\<rparr>, i)))"

definition VirtIOSocketDevice_manager :: "'t dev_env \<Rightarrow> ('t vsock_device, 'i) socket_manager" where
  "VirtIOSocketDevice_manager E =
     \<lparr>sm_local_cid = (\<lambda>_. VMADDR_CID_HOST), sm_send_packet = device_send_packet E, sm_poll = vsock_device_poll E\<rparr>"

section \<open>What the connection manager relies on\<close>

text \<open>
  Both implementations keep the local address, and a poll calls the handler at most once, on the
  event and the body of one decoded packet; the handler's state changes only by that call.
\<close>

definition no_event :: "vsock_event option result \<Rightarrow> bool" where
  "no_event r \<longleftrightarrow> (case r of Ok (Some _) \<Rightarrow> False | _ \<Rightarrow> True)"

locale socket_driver =
  fixes M :: "('s, 'i) socket_manager"
  assumes send_cid: "sm_local_cid M (snd (sm_send_packet M h b s)) = sm_local_cid M s"
    and poll_cid: "sm_poll M handler (s, i) = (r, (s', i')) \<Longrightarrow> sm_local_cid M s' = sm_local_cid M s"
    and poll_once: "sm_poll M handler (s, i) = (r, (s', i')) \<Longrightarrow>
      i' = i \<and> no_event r \<or>
      (\<exists>h ev body r0. from_header h = Ok ev \<and> length body = unat (h_len h) \<and> handler ev body i = (r0, i') \<and> (r = r0 \<or> no_event r))"
begin

lemma sent_cid [simp]:
  "sm_local_cid M (snd (sk_accept M info s)) = sm_local_cid M s"
  "sm_local_cid M (snd (request_credit M c s)) = sm_local_cid M s"
  "sm_local_cid M (snd (credit_update M c s)) = sm_local_cid M s"
  "sm_local_cid M (snd (sk_shutdown M c s)) = sm_local_cid M s"
  "sm_local_cid M (snd (sk_force_close M c s)) = sm_local_cid M s"
  by (simp_all add: sk_accept_def request_credit_def credit_update_def sk_shutdown_def shutdown_with_hints_def
      sk_force_close_def send_cid)

text \<open>Sending data changes only the credit bookkeeping of the connection.\<close>

lemma send_keeps:
  assumes "sk_send M buffer c s = (r, (c', s'))"
  shows "c_buffer c' = c_buffer c" "ci_dst (c_info c') = ci_dst (c_info c)" "ci_src_port (c_info c') = ci_src_port (c_info c)"
    "ci_buf_alloc (c_info c') = ci_buf_alloc (c_info c)" "ci_fwd_cnt (c_info c') = ci_fwd_cnt (c_info c)"
    "sm_local_cid M s' = sm_local_cid M s"
  using assms
  by (auto simp: sk_send_def check_peer_buffer_is_sufficient_def and_then_def lift_then_def Let_def
      send_cid split: if_splits prod.splits outcome.splits)

end

lemma handle_buffer_once:
  assumes "handle_buffer handler buffer i = (r, i')"
  shows "i' = i \<and> no_event r \<or>
    (\<exists>h ev body. from_header h = Ok ev \<and> length body = unat (h_len h) \<and> handler ev body i = (r, i'))"
proof (cases "read_header_and_body buffer")
  case (Ok hb)
  obtain h body where hb: "hb = (h, body)" by fastforce
  with Ok have "length body = unat (h_len h)" using read_header_and_body_Ok by auto
  with assms Ok hb show ?thesis
    by (cases "from_header h") (auto simp: handle_buffer_def no_event_def)
qed (use assms in \<open>auto simp: handle_buffer_def no_event_def\<close>)

interpretation drv: socket_driver "VirtIOSocket_manager E" for E
proof unfold_locales
  fix handler :: "'b event_handler" and s i r s' i'
  assume a: "sm_poll (VirtIOSocket_manager E) handler (s, i) = (r, (s', i'))"
  then show "sm_local_cid (VirtIOSocket_manager E) s' = sm_local_cid (VirtIOSocket_manager E) s"
    by (auto simp: VirtIOSocket_manager_def vsock_poll_def split: prod.splits)
  from a obtain rx t where p: "ow_poll (de_T E) (de_H E) (handle_buffer handler) ((vs_rx s, vs_transport s), i) = (r, ((rx, t), i'))"
    by (auto simp: VirtIOSocket_manager_def vsock_poll_def split: prod.splits)
  then show "i' = i \<and> no_event r \<or>
      (\<exists>h ev body r0. from_header h = Ok ev \<and> length body = unat (h_len h) \<and> handler ev body i = (r0, i') \<and> (r = r0 \<or> no_event r))"
    by (auto simp: ow_poll_def lift_then_def no_event_def split: prod.splits outcome.splits option.splits if_splits
        dest!: handle_buffer_once)
qed (auto simp: VirtIOSocket_manager_def send_packet_to_tx_queue_def lift_then_def split: prod.splits outcome.splits if_splits)

interpretation dev: socket_driver "VirtIOSocketDevice_manager E" for E
proof unfold_locales
  fix handler :: "'b event_handler" and s i r s' i'
  assume a: "sm_poll (VirtIOSocketDevice_manager E) handler (s, i) = (r, (s', i'))"
  then obtain tx t where p: "dv_poll (dd_fuel E) (dd_T E) (dd_H E) (handle_buffer handler) ((vd_tx s, vd_transport s), i) = (r, ((tx, t), i'))"
    by (auto simp: VirtIOSocketDevice_manager_def vsock_device_poll_def split: prod.splits)
  then show "i' = i \<and> no_event r \<or>
      (\<exists>h ev body r0. from_header h = Ok ev \<and> length body = unat (h_len h) \<and> handler ev body i = (r0, i') \<and> (r = r0 \<or> no_event r))"
    by (auto simp: dv_poll_def lift_then_def no_event_def Let_def split: prod.splits outcome.splits option.splits if_splits
        dest!: handle_buffer_once)
qed (auto simp: VirtIOSocketDevice_manager_def)

end
