(* ===== verification/Vsock_Manager.thy ===== *)
theory Vsock_Manager
  imports Vsock
begin

text \<open>
  The connection manager of src/src/device/socket/connectionmanager.rs, over any implementation of
  \<^verbatim>\<open>VirtIOSocketManager\<close>.

  A connection is shared through an \<^verbatim>\<open>Arc\<close>; the manager's list holds pairs of the \<^verbatim>\<open>Arc\<close>'s identity
  and the connection, and \<open>next_arc\<close> is the identity the next \<^verbatim>\<open>Arc::new\<close> gets. The lock around the
  inner state is held or not as in the source, but calls are sequential: between two calls nothing
  else changes the list.
\<close>

section \<open>State\<close>

record manager_inner =
  per_connection_buffer_capacity :: u32
  connections :: "(nat \<times> connection) list"
  listening_ports :: "u32 list"
  next_arc :: nat

definition manager_new_with_capacity :: "u32 \<Rightarrow> manager_inner" where
  "manager_new_with_capacity cap =
     \<lparr>per_connection_buffer_capacity = cap, connections = [], listening_ports = [], next_arc = 0\<rparr>"

definition DEFAULT_PER_CONNECTION_BUFFER_CAPACITY :: u32 where
  "DEFAULT_PER_CONNECTION_BUFFER_CAPACITY = 1024"

definition manager_new :: manager_inner where
  "manager_new = manager_new_with_capacity DEFAULT_PER_CONNECTION_BUFFER_CAPACITY"

text \<open>The first position at which a predicate holds.\<close>

fun find_index :: "('a \<Rightarrow> bool) \<Rightarrow> 'a list \<Rightarrow> nat option" where
  "find_index P [] = None"
| "find_index P (x # xs) = (if P x then Some 0 else map_option Suc (find_index P xs))"

definition is_conn :: "vsock_addr \<Rightarrow> u32 \<Rightarrow> nat \<times> connection \<Rightarrow> bool" where
  "is_conn peer local_port p \<longleftrightarrow> ci_dst (c_info (snd p)) = peer \<and> ci_src_port (c_info (snd p)) = local_port"

definition get_connection :: "(nat \<times> connection) list \<Rightarrow> vsock_addr \<Rightarrow> u32 \<Rightarrow> (nat \<times> connection) result" where
  "get_connection cs peer local_port =
     map_err SocketDeviceError (ok_or NotConnected
       (map_option (\<lambda>i. (i, snd (cs ! i))) (find_index (is_conn peer local_port) cs)))"

definition get_connection_for_event :: "(nat \<times> connection) list \<Rightarrow> vsock_event \<Rightarrow> u64 \<Rightarrow> (nat \<times> connection) option" where
  "get_connection_for_event cs ev local_cid =
     map_option (\<lambda>i. (i, snd (cs ! i))) (find_index (\<lambda>p. matches_connection ev (c_info (snd p)) local_cid) cs)"

text \<open>\<^verbatim>\<open>Vec::swap_remove\<close> at an index in range.\<close>

definition swap_remove :: "nat \<Rightarrow> 'a list \<Rightarrow> 'a list" where
  "swap_remove i xs = (if i = length xs - 1 then butlast xs else butlast (xs[i := last xs]))"

text \<open>Writing back a connection that was changed behind its lock.\<close>

definition set_conn :: "nat \<Rightarrow> connection \<Rightarrow> manager_inner \<Rightarrow> manager_inner" where
  "set_conn i c m = m\<lparr>connections := (connections m)[i := (fst (connections m ! i), c)]\<rparr>"

definition push_conn :: "connection \<Rightarrow> manager_inner \<Rightarrow> manager_inner" where
  "push_conn c m = m\<lparr>connections := connections m @ [(next_arc m, c)], next_arc := next_arc m + 1\<rparr>"

definition remove_conn :: "nat \<Rightarrow> manager_inner \<Rightarrow> manager_inner" where
  "remove_conn i m = m\<lparr>connections := swap_remove i (connections m)\<rparr>"

text \<open>\<^verbatim>\<open>connections.retain(|c| !Arc::ptr_eq(c, &new_connection))\<close>\<close>

definition retain_not :: "nat \<Rightarrow> manager_inner \<Rightarrow> manager_inner" where
  "retain_not arc m = m\<lparr>connections := filter (\<lambda>p. fst p \<noteq> arc) (connections m)\<rparr>"

section \<open>Opening connections\<close>

definition mgr_accept :: "('s, 'i) socket_manager \<Rightarrow> connection \<Rightarrow> 's \<times> manager_inner \<Rightarrow> unit result \<times> ('s \<times> manager_inner)" where
  "mgr_accept M c sm =
     (case sm of (s, m) \<Rightarrow>
       let arc = next_arc m;
           m = push_conn c m
       in case sk_accept M (c_info c) s of
            (Err e, s) \<Rightarrow> (Err e, (s, retain_not arc m))
          | (r, s) \<Rightarrow> (r, (s, m)))"

text \<open>\<^verbatim>\<open>VsockConnectionManager::connect\<close>, the driver's side only; \<open>conn\<close> is the driver's \<^verbatim>\<open>connect\<close>.\<close>

definition mgr_connect ::
  "(connection \<Rightarrow> 's \<Rightarrow> unit result \<times> 's) \<Rightarrow> vsock_addr \<Rightarrow> u32 \<Rightarrow> 's \<times> manager_inner \<Rightarrow> unit result \<times> ('s \<times> manager_inner)"
where
  "mgr_connect conn destination src_port sm =
     (case sm of (s, m) \<Rightarrow>
       if \<exists>p\<in>set (connections m). is_conn destination src_port p
       then (Err (SocketDeviceError ConnectionExists), (s, m))
       else let c = Connection_new destination src_port (per_connection_buffer_capacity m);
                arc = next_arc m;
                m = push_conn c m
            in case conn c s of
                 (Err e, s) \<Rightarrow> (Err e, (s, retain_not arc m))
               | (r, s) \<Rightarrow> (r, (s, m)))"

definition mgr_listen :: "u32 \<Rightarrow> manager_inner \<Rightarrow> manager_inner" where
  "mgr_listen port m =
     (if port \<notin> set (listening_ports m) then m\<lparr>listening_ports := listening_ports m @ [port]\<rparr> else m)"

definition mgr_unlisten :: "u32 \<Rightarrow> manager_inner \<Rightarrow> manager_inner" where
  "mgr_unlisten port m = m\<lparr>listening_ports := filter (\<lambda>p. p \<noteq> port) (listening_ports m)\<rparr>"

section \<open>Sending and receiving\<close>

definition mgr_send :: "('s, 'i) socket_manager \<Rightarrow> vsock_addr \<Rightarrow> u32 \<Rightarrow> bytes \<Rightarrow> 's \<times> manager_inner \<Rightarrow> unit result \<times> ('s \<times> manager_inner)" where
  "mgr_send M destination src_port buffer sm =
     (case sm of (s, m) \<Rightarrow>
       and_then (get_connection (connections m) destination src_port, (s, m)) (\<lambda>(i, c) _.
         case sk_send M buffer c s of (r, (c, s)) \<Rightarrow> (r, (s, set_conn i c m))))"

text \<open>
  The end of both callbacks, on the connection at index \<open>i\<close>: update its peer's credit, and copy
  received data to its buffer.
\<close>

definition deliver :: "vsock_event \<Rightarrow> bytes \<Rightarrow> nat \<Rightarrow> manager_inner \<Rightarrow> vsock_event option result \<times> manager_inner" where
  "deliver ev body i m =
     (let c = snd (connections m ! i);
          c = c\<lparr>c_info := update_for_event ev (c_info c)\<rparr>
      in case ev_type ev of
           Received len \<Rightarrow>
             lift_then (RingBuffer_add body (c_buffer c)) (\<lambda>b. set_conn i (c\<lparr>c_buffer := b\<rparr>) m) (\<lambda>added b.
               if added then (Ok (Some ev), set_conn i (c\<lparr>c_buffer := b\<rparr>) m)
               else (Err (SocketDeviceError (OutputBufferTooShort len)), set_conn i (c\<lparr>c_buffer := b\<rparr>) m))
         | _ \<Rightarrow> (Ok (Some ev), set_conn i c m))"

text \<open>
  The callback of \<^verbatim>\<open>poll\<close>. The source's test \<^verbatim>\<open>connection.is_some()\<close> stands in the branch where there is
  no connection and is always false there.
\<close>

definition poll_handler :: "u64 \<Rightarrow> manager_inner event_handler" where
  "poll_handler local_cid ev body m =
     (case get_connection_for_event (connections m) ev local_cid of
        Some (i, c) \<Rightarrow> deliver ev body i m
      | None \<Rightarrow>
          if ev_type ev = ConnectionRequest
          then if a_cid (ev_destination ev) \<noteq> local_cid then (Ok None, m)
               else let m = push_conn (Connection_new (ev_source ev) (a_port (ev_destination ev)) (per_connection_buffer_capacity m)) m
                    in deliver ev body (length (connections m) - 1) m
          else (Ok None, m))"

text \<open>\<^verbatim>\<open>poll\<close>: first the callback on the received packet, then what the event asks for.\<close>

definition mgr_poll ::
  "('s, manager_inner) socket_manager \<Rightarrow> 's \<times> manager_inner \<Rightarrow> vsock_event option result \<times> ('s \<times> manager_inner)"
where
  "mgr_poll M sm =
     (let local_cid = sm_local_cid M (fst sm)
      in and_then (sm_poll M (poll_handler local_cid) sm) (\<lambda>r (s, m).
        case r of
          None \<Rightarrow> (Ok None, (s, m))
        | Some ev \<Rightarrow>
            (case get_connection_for_event (connections m) ev local_cid of
               None \<Rightarrow> (Panic, (s, m))
             | Some (i, c) \<Rightarrow>
                 (case ev_type ev of
                    ConnectionRequest \<Rightarrow>
                      if a_port (ev_destination ev) \<in> set (listening_ports m)
                      then lift_then (sk_accept M (c_info c) s) (\<lambda>s. (s, m)) (\<lambda>_ s. (Ok (Some ev), (s, m)))
                      else let m = remove_conn i m
                           in lift_then (sk_force_close M c s) (\<lambda>s. (s, m)) (\<lambda>_ s. (Ok None, (s, m)))
                  | Connected \<Rightarrow> (Ok (Some ev), (s, m))
                  | Disconnected reason \<Rightarrow>
                      if RingBuffer_is_empty (c_buffer c)
                      then let m = remove_conn i m
                           in if reason = Shutdown
                              then lift_then (sk_force_close M c s) (\<lambda>s. (s, m)) (\<lambda>_ s. (Ok (Some ev), (s, m)))
                              else (Ok (Some ev), (s, m))
                      else (Ok (Some ev), (s, set_conn i (c\<lparr>peer_requested_shutdown := True\<rparr>) m))
                  | Received _ \<Rightarrow> (Ok (Some ev), (s, m))
                  | CreditRequest \<Rightarrow>
                      lift_then (credit_update M c s) (\<lambda>s. (s, m)) (\<lambda>_ s. (Ok None, (s, m)))
                  | CreditUpdate \<Rightarrow> (Ok (Some ev), (s, m))))))"

text \<open>The callback of \<^verbatim>\<open>poll_direct\<close>.\<close>

definition poll_direct_handler :: "u64 \<Rightarrow> manager_inner event_handler" where
  "poll_direct_handler local_cid ev body m =
     (if a_cid (ev_destination ev) \<noteq> local_cid then (Ok None, m)
      else if ev_type ev = ConnectionRequest
      then if a_port (ev_destination ev) \<notin> set (listening_ports m) then (Ok None, m)
           else let c = Connection_new (ev_source ev) (a_port (ev_destination ev)) (per_connection_buffer_capacity m);
                    c = c\<lparr>c_info := update_for_event ev (c_info c)\<rparr>
                in (Ok (Some (ev\<lparr>ev_new_connection := Some c\<rparr>)), m)
      else case get_connection_for_event (connections m) ev local_cid of
             None \<Rightarrow> (Ok None, m)
           | Some (i, c) \<Rightarrow>
               if ev_type ev = Disconnected Reset then (Ok (Some ev), remove_conn i m)
               else deliver ev body i m)"

definition mgr_poll_direct ::
  "('s, manager_inner) socket_manager \<Rightarrow> 's \<times> manager_inner \<Rightarrow> vsock_event option result \<times> ('s \<times> manager_inner)"
where
  "mgr_poll_direct M sm = sm_poll M (poll_direct_handler (sm_local_cid M (fst sm))) sm"

text \<open>\<^verbatim>\<open>recv\<close> into a buffer of \<open>n\<close> bytes; returns the bytes read.\<close>

definition mgr_recv ::
  "('s, 'i) socket_manager \<Rightarrow> vsock_addr \<Rightarrow> u32 \<Rightarrow> nat \<Rightarrow> 's \<times> manager_inner \<Rightarrow> bytes result \<times> ('s \<times> manager_inner)"
where
  "mgr_recv M peer src_port n sm =
     (case sm of (s, m) \<Rightarrow>
       and_then (get_connection (connections m) peer src_port, (s, m)) (\<lambda>(i, c) _.
       lift_then (RingBuffer_drain n (c_buffer c)) (\<lambda>b. (s, set_conn i (c\<lparr>c_buffer := b\<rparr>) m)) (\<lambda>bs b.
         let c = c\<lparr>c_buffer := b, c_info := done_forwarding (length bs) (c_info c)\<rparr>;
             m = set_conn i c m
         in if peer_requested_shutdown c \<and> RingBuffer_is_empty (c_buffer c)
            then let m = remove_conn i m
                 in lift_then (sk_force_close M c s) (\<lambda>s. (s, m)) (\<lambda>_ s. (Ok bs, (s, m)))
            else (Ok bs, (s, m)))))"

definition recv_buffer_available_bytes :: "vsock_addr \<Rightarrow> u32 \<Rightarrow> manager_inner \<Rightarrow> nat result" where
  "recv_buffer_available_bytes peer src_port m =
     bind_ok (get_connection (connections m) peer src_port) (\<lambda>(i, c). Ok (rb_used (c_buffer c)))"

definition mgr_update_credit ::
  "('s, 'i) socket_manager \<Rightarrow> vsock_addr \<Rightarrow> u32 \<Rightarrow> 's \<times> manager_inner \<Rightarrow> unit result \<times> ('s \<times> manager_inner)"
where
  "mgr_update_credit M peer src_port sm =
     (case sm of (s, m) \<Rightarrow>
       and_then (get_connection (connections m) peer src_port, (s, m)) (\<lambda>(i, c) _.
         lift_then (credit_update M c s) (\<lambda>s. (s, m)) (\<lambda>_ s. (Ok (), (s, m)))))"

text \<open>
  \<^verbatim>\<open>wait_for_event\<close>: polls until there is an event. Between two polls the other side changes the
  socket's state by the next of the given functions; when they are used up the call is still waiting.
\<close>

fun mgr_wait_for_event ::
  "('s, manager_inner) socket_manager \<Rightarrow> ('s \<Rightarrow> 's) list \<Rightarrow> 's \<times> manager_inner \<Rightarrow> vsock_event result \<times> ('s \<times> manager_inner)"
where
  "mgr_wait_for_event M [] sm = (Diverge, sm)"
| "mgr_wait_for_event M (d # env) (s, m) =
     and_then (mgr_poll M (d s, m)) (\<lambda>r sm.
       case r of Some ev \<Rightarrow> (Ok ev, sm) | None \<Rightarrow> mgr_wait_for_event M env sm)"

section \<open>Closing connections\<close>

definition mgr_shutdown ::
  "('s, 'i) socket_manager \<Rightarrow> vsock_addr \<Rightarrow> u32 \<Rightarrow> 's \<times> manager_inner \<Rightarrow> unit result \<times> ('s \<times> manager_inner)"
where
  "mgr_shutdown M destination src_port sm =
     (case sm of (s, m) \<Rightarrow>
       and_then (get_connection (connections m) destination src_port, (s, m)) (\<lambda>(i, c) _.
         lift_then (sk_shutdown M c s) (\<lambda>s. (s, m)) (\<lambda>_ s. (Ok (), (s, m)))))"

definition mgr_force_close ::
  "('s, 'i) socket_manager \<Rightarrow> vsock_addr \<Rightarrow> u32 \<Rightarrow> 's \<times> manager_inner \<Rightarrow> unit result \<times> ('s \<times> manager_inner)"
where
  "mgr_force_close M destination src_port sm =
     (case sm of (s, m) \<Rightarrow>
       and_then (get_connection (connections m) destination src_port, (s, m)) (\<lambda>(i, c) _.
         let m = remove_conn i m
         in lift_then (sk_force_close M c s) (\<lambda>s. (s, m)) (\<lambda>_ s. (Ok (), (s, m)))))"

end
