(* ===== verification/Vsock_Manager_Inv.thy ===== *)
theory Vsock_Manager_Inv
  imports Vsock_Manager Virt_Queue_Props "HOL-Library.Multiset"
begin

text \<open>
  The invariant of the vsock connection manager: every connection is in the list once, under its own
  address pair, and advertises exactly the capacity of its buffer; no call of the client and nothing
  the other side does can break it.
\<close>

section \<open>The invariant\<close>

text \<open>The address pair that identifies a connection.\<close>

definition conn_key :: "nat \<times> connection \<Rightarrow> vsock_addr \<times> u32" where
  "conn_key p = (ci_dst (c_info (snd p)), ci_src_port (c_info (snd p)))"

text \<open>A connection advertises exactly the capacity of its buffer.\<close>

definition conn_ok :: "connection \<Rightarrow> bool" where
  "conn_ok c \<longleftrightarrow> rb_ok (c_buffer c) \<and> rb_capacity (c_buffer c) = unat (ci_buf_alloc (c_info c))"

definition mgr_inv :: "manager_inner \<Rightarrow> bool" where
  "mgr_inv m \<longleftrightarrow> 0 < per_connection_buffer_capacity m \<and> distinct (map fst (connections m)) \<and>
     (\<forall>p\<in>set (connections m). fst p < next_arc m \<and> conn_ok (snd p)) \<and>
     distinct (map conn_key (connections m)) \<and> distinct (listening_ports m)"

lemma find_index_Some: "find_index P xs = Some i \<Longrightarrow> i < length xs \<and> P (xs ! i)"
  by (induction xs arbitrary: i) (auto split: if_splits)

lemma find_index_None: "find_index P xs = None \<longleftrightarrow> (\<forall>x\<in>set xs. \<not> P x)"
  by (induction xs) auto

lemma get_connection_Ok:
  "get_connection cs peer port = Ok (i, c) \<Longrightarrow> i < length cs \<and> is_conn peer port (cs ! i) \<and> c = snd (cs ! i)"
  by (cases "find_index (is_conn peer port) cs") (auto simp: get_connection_def dest: find_index_Some)

lemma get_connection_cases:
  "(\<exists>i c. get_connection cs peer port = Ok (i, c)) \<or>
   get_connection cs peer port = Err (SocketDeviceError NotConnected) \<and> (\<forall>p\<in>set cs. \<not> is_conn peer port p)"
proof (cases "find_index (is_conn peer port) cs")
  case None
  then show ?thesis using find_index_None [of "is_conn peer port" cs] by (simp add: get_connection_def)
qed (simp add: get_connection_def)

lemma get_event_Some:
  "get_connection_for_event cs ev cid = Some (i, c) \<Longrightarrow>
     i < length cs \<and> matches_connection ev (c_info c) cid \<and> c = snd (cs ! i)"
  by (auto simp: get_connection_for_event_def dest: find_index_Some)

lemma get_event_None:
  "get_connection_for_event cs ev cid = None \<longleftrightarrow> (\<forall>p\<in>set cs. \<not> matches_connection ev (c_info (snd p)) cid)"
  by (simp add: get_connection_for_event_def find_index_None)

lemma mset_swap_remove: "i < length xs \<Longrightarrow> mset (xs ! i # swap_remove i xs) = mset xs"
proof -
  assume i: "i < length xs"
  then have ne: "xs \<noteq> []" by auto
  show ?thesis
  proof (cases "i = length xs - 1")
    case True
    have "mset xs = mset (butlast xs @ [last xs])" using ne by simp
    with True ne show ?thesis by (simp add: swap_remove_def last_conv_nth)
  next
    case False
    let ?ys = "xs[i := last xs]"
    have l: "last ?ys = last xs" using False i ne by (simp add: last_list_update)
    have "mset ?ys = mset (butlast ?ys @ [last ?ys])" using ne by (metis append_butlast_last_id list_update_nonempty)
    then have "add_mset (last xs) (mset (butlast ?ys)) = mset ?ys" using l by simp
    also have "\<dots> = add_mset (last xs) (mset xs - {#xs ! i#})" using i by (simp add: mset_update)
    finally have "mset (butlast ?ys) = mset xs - {#xs ! i#}" by simp
    moreover have "xs ! i \<in># mset xs" using i by simp
    ultimately show ?thesis using False by (simp add: swap_remove_def)
  qed
qed

lemma set_swap_remove: "i < length xs \<Longrightarrow> set (swap_remove i xs) \<subseteq> set xs"
  using mset_swap_remove [of i xs] by (metis mset_eq_setD set_subset_Cons)

lemma distinct_map_swap_remove:
  assumes "distinct (map f xs)" "i < length xs"
  shows "distinct (map f (swap_remove i xs))"
proof -
  have "mset (map f (xs ! i # swap_remove i xs)) = mset (map f xs)"
    using mset_swap_remove [OF assms(2)] by (metis mset_map)
  then have "distinct (map f (xs ! i # swap_remove i xs))" using assms(1) mset_eq_imp_distinct_iff by blast
  then show ?thesis by simp
qed

lemma mgr_inv_set_conn:
  assumes "mgr_inv m" "i < length (connections m)" "conn_ok c"
    "ci_dst (c_info c) = ci_dst (c_info (snd (connections m ! i)))"
    "ci_src_port (c_info c) = ci_src_port (c_info (snd (connections m ! i)))"
  shows "mgr_inv (set_conn i c m)"
proof -
  let ?cs = "(connections m)[i := (fst (connections m ! i), c)]"
  have "map fst ?cs = map fst (connections m)" by (simp add: map_update list_update_same_conv assms(2))
  moreover have "map conn_key ?cs = map conn_key (connections m)"
    using assms(2,4,5) by (simp add: map_update list_update_same_conv conn_key_def)
  moreover have "fst p < next_arc m \<and> conn_ok (snd p)" if "p \<in> set ?cs" for p
  proof -
    have "p \<in> set (connections m) \<or> p = (fst (connections m ! i), c)" using that set_update_subset_insert by fastforce
    moreover have "connections m ! i \<in> set (connections m)" using assms(2) by simp
    ultimately show ?thesis using assms(1,3) by (auto simp: mgr_inv_def)
  qed
  ultimately show ?thesis using assms(1) by (simp add: mgr_inv_def set_conn_def)
qed

lemma mgr_inv_push:
  assumes "mgr_inv m" "conn_ok c" "\<forall>p\<in>set (connections m). \<not> is_conn (ci_dst (c_info c)) (ci_src_port (c_info c)) p"
  shows "mgr_inv (push_conn c m)"
  using assms by (auto simp: mgr_inv_def push_conn_def conn_key_def is_conn_def less_Suc_eq)

lemma mgr_inv_remove: "mgr_inv m \<Longrightarrow> i < length (connections m) \<Longrightarrow> mgr_inv (remove_conn i m)"
  using set_swap_remove [of i "connections m"] by (auto simp: mgr_inv_def remove_conn_def distinct_map_swap_remove)

lemma mgr_inv_retain: "mgr_inv m \<Longrightarrow> mgr_inv (retain_not arc m)"
  by (auto simp: mgr_inv_def retain_not_def distinct_map_filter)

lemma conn_ok_new: "0 < cap \<Longrightarrow> conn_ok (Connection_new peer port cap)"
  using RingBuffer_new_ok [of "unat cap"] by (simp add: conn_ok_def Connection_new_def unat_gt_0)

lemma update_for_event_keeps [simp]:
  "ci_dst (update_for_event ev c) = ci_dst c" "ci_src_port (update_for_event ev c) = ci_src_port c"
  "ci_buf_alloc (update_for_event ev c) = ci_buf_alloc c" "ci_fwd_cnt (update_for_event ev c) = ci_fwd_cnt c"
  "tx_cnt (update_for_event ev c) = tx_cnt c"
  by (simp_all add: update_for_event_def Let_def)

lemma matches_update [simp]: "matches_connection ev (update_for_event e c) cid = matches_connection ev c cid"
  by (simp add: matches_connection_def)

lemma matches_is_conn: "matches_connection ev (c_info (snd p)) cid \<longleftrightarrow>
    a_cid (ev_destination ev) = cid \<and> is_conn (ev_source ev) (a_port (ev_destination ev)) p"
  by (auto simp: matches_connection_def is_conn_def)

text \<open>What both callbacks do once the connection is found.\<close>

lemma RingBuffer_add_cases:
  assumes "rb_ok b"
  shows "\<exists>ok b'. RingBuffer_add bs b = (Ok ok, b') \<and> rb_ok b' \<and> rb_capacity b' = rb_capacity b
    \<and> rb_list b' = (if ok then rb_list b @ bs else rb_list b)"
proof (cases "length (rb_list b) + length bs \<le> rb_capacity b")
  case True
  from rbq.add_fits [OF assms True] show ?thesis by auto
next
  case False
  with rbq.add_full [OF assms, of bs] assms show ?thesis by auto
qed

lemma set_conn_nth: "i < length (connections m) \<Longrightarrow> connections (set_conn i c m) ! i = (fst (connections m ! i), c)"
  by (simp add: set_conn_def)

lemma length_set_conn [simp]: "length (connections (set_conn i c m)) = length (connections m)"
  by (simp add: set_conn_def)

lemma deliver_ok:
  assumes "mgr_inv m" "i < length (connections m)"
  shows "\<exists>r m' c'. deliver ev body i m = (r, m') \<and> mgr_inv m' \<and> (r = Ok (Some ev) \<or> (\<exists>e. r = Err e))
    \<and> m' = set_conn i c' m \<and> ci_dst (c_info c') = ci_dst (c_info (snd (connections m ! i)))
    \<and> ci_src_port (c_info c') = ci_src_port (c_info (snd (connections m ! i)))
    \<and> rb_list (c_buffer c') = rb_list (c_buffer (snd (connections m ! i))) @ (if r = Ok (Some ev) \<and> (\<exists>n. ev_type ev = Received n) then body else [])"
proof -
  let ?c = "snd (connections m ! i)"
  let ?c1 = "?c\<lparr>c_info := update_for_event ev (c_info ?c)\<rparr>"
  have ok: "conn_ok ?c" using assms by (auto simp: mgr_inv_def)
  from RingBuffer_add_cases [of "c_buffer ?c" body] ok obtain a b where
    a: "RingBuffer_add body (c_buffer ?c) = (Ok a, b)" "rb_ok b" "rb_capacity b = rb_capacity (c_buffer ?c)"
       "rb_list b = (if a then rb_list (c_buffer ?c) @ body else rb_list (c_buffer ?c))"
    by (auto simp: conn_ok_def)
  define c2 where "c2 = (if \<exists>n. ev_type ev = Received n then ?c1\<lparr>c_buffer := b\<rparr> else ?c1)"
  have "conn_ok c2" using ok a by (auto simp: c2_def conn_ok_def)
  then have "mgr_inv (set_conn i c2 m)" using assms by (intro mgr_inv_set_conn) (auto simp: c2_def)
  moreover obtain r where "deliver ev body i m = (r, set_conn i c2 m)"
    "r = (if (\<exists>n. ev_type ev = Received n) \<and> \<not> a then Err (SocketDeviceError (OutputBufferTooShort (case ev_type ev of Received n \<Rightarrow> n))) else Ok (Some ev))"
    by (cases "ev_type ev") (auto simp: deliver_def Let_def a(1) c2_def)
  ultimately show ?thesis using a(4) by (intro exI [of _ r] exI [of _ "set_conn i c2 m"] exI [of _ c2]) (auto simp: c2_def)
qed

lemma set_conn_event_found:
  assumes "i < length (connections m)" "matches_connection ev (c_info c) cid"
  shows "get_connection_for_event (connections (set_conn i c m)) ev cid \<noteq> None"
proof -
  have "(fst (connections m ! i), c) \<in> set (connections (set_conn i c m))"
    using assms(1) by (simp add: set_conn_def set_update_memI)
  then show ?thesis using assms(2) get_event_None by (metis snd_conv)
qed

lemma poll_handler_ok:
  assumes "mgr_inv m"
  shows "\<exists>r m'. poll_handler cid ev body m = (r, m') \<and> mgr_inv m' \<and>
    (m' = m \<and> r = Ok None \<or> (\<exists>e. r = Err e) \<or> r = Ok (Some ev) \<and> get_connection_for_event (connections m') ev cid \<noteq> None)"
proof (cases "get_connection_for_event (connections m) ev cid")
  case None
  show ?thesis
  proof (cases "ev_type ev = ConnectionRequest \<and> a_cid (ev_destination ev) = cid")
    case True
    let ?c = "Connection_new (ev_source ev) (a_port (ev_destination ev)) (per_connection_buffer_capacity m)"
    let ?m = "push_conn ?c m" and ?i = "length (connections m)"
    have k: "ci_dst (c_info ?c) = ev_source ev" "ci_src_port (c_info ?c) = a_port (ev_destination ev)"
      by (simp_all add: Connection_new_def ConnectionInfo_new_def)
    have "mgr_inv ?m"
      using None True assms k
      by (intro mgr_inv_push) (auto simp: get_event_None matches_is_conn conn_ok_new mgr_inv_def)
    moreover have "?i < length (connections ?m)" "snd (connections ?m ! ?i) = ?c" by (simp_all add: push_conn_def)
    ultimately obtain r m' c' where d: "deliver ev body ?i ?m = (r, m')" "mgr_inv m'" "r = Ok (Some ev) \<or> (\<exists>e. r = Err e)"
      "m' = set_conn ?i c' ?m" "ci_dst (c_info c') = ev_source ev" "ci_src_port (c_info c') = a_port (ev_destination ev)"
      using deliver_ok [of ?m ?i ev body] k by metis
    have "get_connection_for_event (connections m') ev cid \<noteq> None"
      unfolding d(4) by (rule set_conn_event_found) (use d(5,6) True in \<open>auto simp: matches_connection_def push_conn_def\<close>)
    with d None True show ?thesis by (auto simp: poll_handler_def push_conn_def Let_def)
  next
    case False
    then show ?thesis using None assms by (auto simp: poll_handler_def)
  qed
next
  case (Some ic)
  obtain i c where ic: "ic = (i, c)" by fastforce
  from get_event_Some [OF Some [unfolded ic]]
  have i: "i < length (connections m)" "matches_connection ev (c_info (snd (connections m ! i))) cid" by auto
  from deliver_ok [OF assms i(1), of ev body] obtain r m' c' where d: "deliver ev body i m = (r, m')" "mgr_inv m'"
    "r = Ok (Some ev) \<or> (\<exists>e. r = Err e)" "m' = set_conn i c' m"
    "ci_dst (c_info c') = ci_dst (c_info (snd (connections m ! i)))"
    "ci_src_port (c_info c') = ci_src_port (c_info (snd (connections m ! i)))" by blast
  have "get_connection_for_event (connections m') ev cid \<noteq> None"
    unfolding d(4) by (rule set_conn_event_found) (use d(5,6) i in \<open>auto simp: matches_connection_def\<close>)
  with d Some ic show ?thesis by (auto simp: poll_handler_def)
qed

lemma poll_direct_handler_inv:
  assumes "mgr_inv m" "poll_direct_handler cid ev body m = (r, m')"
  shows "mgr_inv m'"
proof (cases "get_connection_for_event (connections m) ev cid")
  case None
  with assms show ?thesis by (auto simp: poll_direct_handler_def Let_def split: if_splits)
next
  case (Some ic)
  obtain i c where ic: "ic = (i, c)" by fastforce
  have i: "i < length (connections m)" using get_event_Some Some ic by blast
  from deliver_ok [OF assms(1) i, of ev body] mgr_inv_remove [OF assms(1) i] assms Some ic
  show ?thesis by (auto simp: poll_direct_handler_def Let_def split: if_splits)
qed

lemma mgr_accept_inv:
  assumes "mgr_inv m" "conn_ok c" "\<forall>p\<in>set (connections m). \<not> is_conn (ci_dst (c_info c)) (ci_src_port (c_info c)) p"
  shows "mgr_inv (snd (snd (mgr_accept M c (s, m))))"
  using mgr_inv_push [OF assms] mgr_inv_retain
  by (auto simp: mgr_accept_def Let_def split: prod.split outcome.split)

lemma mgr_connect_inv:
  assumes "mgr_inv m"
  shows "mgr_inv (snd (snd (mgr_connect conn dst port (s, m))))"
proof -
  let ?c = "Connection_new dst port (per_connection_buffer_capacity m)"
  have k: "ci_dst (c_info ?c) = dst" "ci_src_port (c_info ?c) = port" by (simp_all add: Connection_new_def ConnectionInfo_new_def)
  have "conn_ok ?c" using assms by (simp add: conn_ok_new mgr_inv_def)
  with mgr_inv_push [OF assms this] k mgr_inv_retain assms show ?thesis
    by (auto simp: mgr_connect_def Let_def split: prod.split outcome.split)
qed

lemma mgr_recv_inv:
  assumes "mgr_inv m"
  shows "mgr_inv (snd (snd (mgr_recv M peer port n (s, m))))"
proof (cases "\<exists>i c. get_connection (connections m) peer port = Ok (i, c)")
  case True
  then obtain i c where g: "get_connection (connections m) peer port = Ok (i, c)" by blast
  then have i: "i < length (connections m)" "c = snd (connections m ! i)" using get_connection_Ok by blast+
  have ok: "conn_ok c" using assms i by (auto simp: mgr_inv_def)
  from rbq.drain_law [of "c_buffer c" n] ok obtain b where
    d: "RingBuffer_drain n (c_buffer c) = (Ok (take n (rb_list (c_buffer c))), b)" "rb_ok b" "rb_capacity b = rb_capacity (c_buffer c)"
    by (auto simp: conn_ok_def)
  let ?c = "c\<lparr>c_buffer := b, c_info := done_forwarding (length (take n (rb_list (c_buffer c)))) (c_info c)\<rparr>"
  have "mgr_inv (set_conn i ?c m)"
    using assms i ok d by (intro mgr_inv_set_conn) (auto simp: conn_ok_def done_forwarding_def)
  with mgr_inv_remove [OF this, of i] g d(1) i(1) show ?thesis
    by (auto simp: mgr_recv_def Let_def lift_then_def split: outcome.split)
next
  case False
  then show ?thesis using get_connection_cases [of "connections m" peer port] assms by (auto simp: mgr_recv_def)
qed

lemma mgr_close_inv:
  assumes "mgr_inv m"
  shows "mgr_inv (snd (snd (mgr_force_close M dst port (s, m))))"
    "mgr_inv (snd (snd (mgr_shutdown M dst port (s, m))))"
    "mgr_inv (snd (snd (mgr_update_credit M dst port (s, m))))"
  using get_connection_cases [of "connections m" dst port] get_connection_Ok mgr_inv_remove [OF assms] assms
  by (auto simp: mgr_force_close_def mgr_shutdown_def mgr_update_credit_def Let_def lift_then_def split: outcome.split)

lemma mgr_listen_inv: "mgr_inv m \<Longrightarrow> mgr_inv (mgr_listen port m)" "mgr_inv m \<Longrightarrow> mgr_inv (mgr_unlisten port m)"
  by (auto simp: mgr_inv_def mgr_listen_def mgr_unlisten_def)

text \<open>The manager on top of any implementation of the contract.\<close>

locale manager_driver = socket_driver M for M :: "('s, manager_inner) socket_manager"
begin

lemma mgr_send_inv:
  assumes "mgr_inv m"
  shows "mgr_inv (snd (snd (mgr_send M dst port buffer (s, m))))"
proof (cases "\<exists>i c. get_connection (connections m) dst port = Ok (i, c)")
  case True
  then obtain i c where g: "get_connection (connections m) dst port = Ok (i, c)" by blast
  then have i: "i < length (connections m)" "c = snd (connections m ! i)" using get_connection_Ok by blast+
  obtain r c' s' where r: "sk_send M buffer c s = (r, (c', s'))" by (metis surj_pair)
  have "conn_ok c" using assms i by (auto simp: mgr_inv_def)
  then have "mgr_inv (set_conn i c' m)"
    using assms i send_keeps [OF r] by (intro mgr_inv_set_conn) (auto simp: conn_ok_def)
  with g r show ?thesis by (simp add: mgr_send_def)
next
  case False
  then show ?thesis using get_connection_cases [of "connections m" dst port] assms by (auto simp: mgr_send_def)
qed


lemma poll_phase:
  assumes "mgr_inv m" "sm_poll M (poll_handler (sm_local_cid M s)) (s, m) = (r, (s', m'))"
  shows "mgr_inv m'" "sm_local_cid M s' = sm_local_cid M s"
    "r = Ok (Some ev) \<Longrightarrow> get_connection_for_event (connections m') ev (sm_local_cid M s) \<noteq> None"
proof -
  let ?cid = "sm_local_cid M s"
  show "sm_local_cid M s' = ?cid" using poll_cid assms(2) by blast
  from poll_once [OF assms(2)] consider "m' = m" "no_event r"
    | e body r0 where "poll_handler ?cid e body m = (r0, m')" "r = r0 \<or> no_event r" by blast
  then have "mgr_inv m' \<and> (r = Ok (Some ev) \<longrightarrow> get_connection_for_event (connections m') ev ?cid \<noteq> None)"
  proof cases
    case 1
    then show ?thesis using assms(1) by (auto simp: no_event_def)
  next
    case 2
    with poll_handler_ok [OF assms(1), of ?cid e body] show ?thesis by (auto simp: no_event_def)
  qed
  then show "mgr_inv m'" "r = Ok (Some ev) \<Longrightarrow> get_connection_for_event (connections m') ev ?cid \<noteq> None" by auto
qed

lemma mgr_poll_inv:
  assumes "mgr_inv m"
  shows "mgr_inv (snd (snd (mgr_poll M (s, m))))"
proof -
  obtain r s' m' where p: "sm_poll M (poll_handler (sm_local_cid M s)) (s, m) = (r, (s', m'))" by (metis surj_pair)
  note pp = poll_phase [OF assms p]
  show ?thesis
  proof (cases "\<exists>ev. r = Ok (Some ev)")
    case True
    then obtain ev where ev: "r = Ok (Some ev)" by blast
    then obtain i c where g: "get_connection_for_event (connections m') ev (sm_local_cid M s) = Some (i, c)" using pp(3) by auto
    then have i: "i < length (connections m')" "c = snd (connections m' ! i)" using get_event_Some by blast+
    have "conn_ok c" using pp(1) i by (auto simp: mgr_inv_def)
    then have "mgr_inv (set_conn i (c\<lparr>peer_requested_shutdown := True\<rparr>) m')"
      by (intro mgr_inv_set_conn [OF pp(1) i(1)]) (simp_all add: conn_ok_def i(2))
    moreover have "mgr_inv (remove_conn i m')" using mgr_inv_remove [OF pp(1) i(1)] .
    ultimately show ?thesis
      using p ev g pp(1) by (cases "ev_type ev") (simp_all add: mgr_poll_def Let_def lift_then_def split: outcome.split)
  next
    case False
    then show ?thesis using p pp(1)
      by (cases r) (auto simp: mgr_poll_def Let_def split: option.split)
  qed
qed

lemma mgr_poll_direct_inv:
  assumes "mgr_inv m"
  shows "mgr_inv (snd (snd (mgr_poll_direct M (s, m))))"
proof -
  obtain r s' m' where p: "sm_poll M (poll_direct_handler (sm_local_cid M s)) (s, m) = (r, (s', m'))" by (metis surj_pair)
  with poll_once [OF p] poll_direct_handler_inv [OF assms] assms show ?thesis by (auto simp: mgr_poll_direct_def)
qed

end

interpretation drvm: manager_driver "VirtIOSocket_manager E" for E
  by unfold_locales

interpretation devm: manager_driver "VirtIOSocketDevice_manager E" for E
  by unfold_locales

section \<open>Runs\<close>

text \<open>
  The life of a manager: calls of its client, and changes of the socket by the other side, which
  leave the manager's own state alone. \<open>conn\<close> is the driver's \<^verbatim>\<open>connect\<close>. A client accepts only a
  connection that is not in the list yet.
\<close>

inductive mgr_step ::
  "('s, manager_inner) socket_manager \<Rightarrow> (connection \<Rightarrow> 's \<Rightarrow> unit result \<times> 's) \<Rightarrow> 's \<times> manager_inner \<Rightarrow> 's \<times> manager_inner \<Rightarrow> bool"
  for M conn
where
  ms_world: "mgr_step M conn (s, m) (s', m)"
| ms_listen: "mgr_step M conn (s, m) (s, mgr_listen port m)"
| ms_unlisten: "mgr_step M conn (s, m) (s, mgr_unlisten port m)"
| ms_connect: "mgr_step M conn sm (snd (mgr_connect conn dst port sm))"
| ms_accept: "conn_ok c \<Longrightarrow> \<forall>p\<in>set (connections m). \<not> is_conn (ci_dst (c_info c)) (ci_src_port (c_info c)) p \<Longrightarrow>
    mgr_step M conn (s, m) (snd (mgr_accept M c (s, m)))"
| ms_send: "mgr_step M conn sm (snd (mgr_send M dst port bs sm))"
| ms_poll: "mgr_step M conn sm (snd (mgr_poll M sm))"
| ms_poll_direct: "mgr_step M conn sm (snd (mgr_poll_direct M sm))"
| ms_recv: "mgr_step M conn sm (snd (mgr_recv M dst port n sm))"
| ms_update_credit: "mgr_step M conn sm (snd (mgr_update_credit M dst port sm))"
| ms_shutdown: "mgr_step M conn sm (snd (mgr_shutdown M dst port sm))"
| ms_force_close: "mgr_step M conn sm (snd (mgr_force_close M dst port sm))"

context manager_driver
begin

lemma step_inv: "mgr_step M conn sm sm' \<Longrightarrow> mgr_inv (snd sm) \<Longrightarrow> mgr_inv (snd sm')"
  by (induction rule: mgr_step.induct)
     (auto simp: mgr_listen_inv mgr_connect_inv mgr_accept_inv mgr_send_inv mgr_poll_inv mgr_poll_direct_inv mgr_recv_inv mgr_close_inv)

lemma run_inv: "(mgr_step M conn)\<^sup>*\<^sup>* sm sm' \<Longrightarrow> mgr_inv (snd sm) \<Longrightarrow> mgr_inv (snd sm')"
  by (induction rule: rtranclp_induct) (auto intro: step_inv)

text \<open>The lookup after the callback always succeeds, so \<^verbatim>\<open>poll\<close> panics only when the socket does.\<close>

lemma mgr_poll_panic:
  assumes "mgr_inv m" "fst (mgr_poll M (s, m)) = Panic"
  shows "fst (sm_poll M (poll_handler (sm_local_cid M s)) (s, m)) = Panic \<or> (\<exists>h s'. fst (sm_send_packet M h [] s') = Panic)"
proof (rule ccontr)
  assume n: "\<not> ?thesis"
  obtain r s' m' where p: "sm_poll M (poll_handler (sm_local_cid M s)) (s, m) = (r, (s', m'))" by (metis surj_pair)
  have send: "fst (sk_accept M i x) \<noteq> Panic" "fst (sk_force_close M c x) \<noteq> Panic" "fst (credit_update M c x) \<noteq> Panic" for i c x
    using n by (auto simp: sk_accept_def sk_force_close_def credit_update_def)
  show False
  proof (cases "\<exists>ev. r = Ok (Some ev)")
    case True
    then obtain ev where ev: "r = Ok (Some ev)" by blast
    then obtain i c where g: "get_connection_for_event (connections m') ev (sm_local_cid M s) = Some (i, c)"
      using poll_phase(3) [OF assms(1) p] by auto
    show False
      using assms(2) p ev g send
      by (cases "ev_type ev") (auto simp: mgr_poll_def Let_def lift_then_def split: if_splits outcome.splits)
  next
    case False
    then show False using assms(2) n p by (cases r) (auto simp: mgr_poll_def Let_def split: option.splits)
  qed
qed

end

lemma find_index_unique:
  assumes "i < length xs" "P (xs ! i)" "\<And>j. j < length xs \<Longrightarrow> P (xs ! j) \<Longrightarrow> j = i"
  shows "find_index P xs = Some i"
proof (cases "find_index P xs")
  case None
  then show ?thesis using assms(1,2) find_index_None by (metis nth_mem)
next
  case (Some j)
  then show ?thesis using find_index_Some [OF Some] assms(3) by blast
qed

lemma event_after_set:
  assumes "mgr_inv m" "get_connection_for_event (connections m) ev cid = Some (i, c)"
    "ci_dst (c_info c') = ci_dst (c_info c)" "ci_src_port (c_info c') = ci_src_port (c_info c)"
  shows "get_connection_for_event (connections (set_conn i c' m)) ev cid = Some (i, c')"
proof -
  from get_event_Some [OF assms(2)] have i: "i < length (connections m)" "matches_connection ev (c_info c) cid" "c = snd (connections m ! i)" by auto
  have inv: "mgr_inv m" "distinct (map conn_key (connections (set_conn i c' m)))"
  proof -
    have "map conn_key (connections (set_conn i c' m)) = map conn_key (connections m)"
      using i assms(3,4) by (simp add: set_conn_def map_update list_update_same_conv conn_key_def)
    then show "distinct (map conn_key (connections (set_conn i c' m)))" using assms(1) by (simp add: mgr_inv_def)
  qed (rule assms(1))
  let ?cs = "connections (set_conn i c' m)"
  have at: "?cs ! i = (fst (connections m ! i), c')" "i < length ?cs" using i(1) by (simp_all add: set_conn_nth)
  have "find_index (\<lambda>p. matches_connection ev (c_info (snd p)) cid) ?cs = Some i"
  proof (rule find_index_unique)
    show "matches_connection ev (c_info (snd (?cs ! i))) cid"
      using i(2) assms(3,4) at by (simp add: matches_connection_def)
  next
    fix j assume j: "j < length ?cs" "matches_connection ev (c_info (snd (?cs ! j))) cid"
    then have "conn_key (?cs ! j) = conn_key (?cs ! i)"
      using i(2) assms(3,4) at by (auto simp: matches_connection_def conn_key_def)
    then have "map conn_key ?cs ! j = map conn_key ?cs ! i" using j(1) at(2) by simp
    then show "j = i" using inv(2) j(1) at(2) nth_eq_iff_index_eq by (metis length_map)
  qed (rule at)
  then show ?thesis using at by (simp add: get_connection_for_event_def)
qed

section \<open>Properties\<close>

definition demo_env :: "nat drv_env" where
  "demo_env = \<lparr>de_T = demo_transport, de_H = demo_hal, de_wait = (\<lambda>q. [demo_dev]), de_ptr = (\<lambda>log k. 0x5000)\<rparr>"

definition demo_vsock :: "nat vsock" where
  "demo_vsock = \<lparr>vs_transport = 0, vs_rx = \<lparr>ow_queue = demo_vq False True, ow_buffers = []\<rparr>,
     vs_tx = demo_vq False True, vs_event = demo_vq False True, guest_cid = 3\<rparr>"



end
