(* ===== verification/Vsock_Stream.thy ===== *)
theory Vsock_Stream
  imports Vsock_Manager_Inv
begin

text \<open>
  Two connection managers that talk to each other. The packets travel as bytes over ideal wires
  (in order, without loss), which implement the same contract as the virtqueue-based sockets. The
  result is end-to-end: with the code of both sides, a stream delivers exactly the bytes that were
  sent, in order, and the credit scheme never lets a sender overrun the receiver's buffer, although
  its 32-bit counters wrap around.
\<close>

section \<open>Wires, ends and runs\<close>

text \<open>
  An ideal connection of two managers: packets travel as bytes, in order and without loss. The
  state of a side is its address and its two wires.
\<close>

type_synonym packet = "vsock_hdr \<times> bytes"

record wire =
  w_cid :: u64
  w_in :: "packet list"
  w_out :: "packet list"

definition wire_send :: "vsock_hdr \<Rightarrow> bytes \<Rightarrow> wire \<Rightarrow> unit result \<times> wire" where
  "wire_send h b w = (Ok (), w\<lparr>w_out := w_out w @ [(h, b)]\<rparr>)"

definition wire_poll :: "'i event_handler \<Rightarrow> wire \<times> 'i \<Rightarrow> vsock_event option result \<times> (wire \<times> 'i)" where
  "wire_poll handler s =
     (case s of (w, i) \<Rightarrow>
       case w_in w of
         [] \<Rightarrow> (Ok None, (w, i))
       | p # ps \<Rightarrow> (case handle_buffer handler (hdr_as_bytes (fst p) @ snd p) i of (r, i) \<Rightarrow> (r, (w\<lparr>w_in := ps\<rparr>, i))))"

definition wire_manager :: "(wire, manager_inner) socket_manager" where
  "wire_manager = \<lparr>sm_local_cid = w_cid, sm_send_packet = wire_send, sm_poll = wire_poll\<rparr>"

text \<open>One end of a stream: its manager, and the bytes its client has sent and read so far.\<close>

record endpoint =
  e_cid :: u64
  e_port :: u32
  e_mgr :: manager_inner
  e_sent :: bytes
  e_got :: bytes

datatype ep_op = ESend bytes | ERecv nat | EPoll | EUpdate

definition e_addr :: "endpoint \<Rightarrow> vsock_addr" where
  "e_addr e = \<lparr>a_cid = e_cid e, a_port = e_port e\<rparr>"

text \<open>
  A client's call at the end \<open>e\<close> of a stream to \<open>peer\<close>, with the packets on their way to and from \<open>e\<close>.
  The first component tells whether the call returned without an error other than lack of credit.
\<close>

definition good :: "'a result \<Rightarrow> bool" where
  "good r \<longleftrightarrow> (case r of Ok _ \<Rightarrow> True | Err e \<Rightarrow> e = SocketDeviceError InsufficientBufferSpaceInPeer | _ \<Rightarrow> False)"

fun ep_exec :: "ep_op \<Rightarrow> vsock_addr \<Rightarrow> endpoint \<times> packet list \<times> packet list \<Rightarrow> bool \<times> (endpoint \<times> packet list \<times> packet list)" where
  "ep_exec (ESend bs) peer (e, i, out) =
     (case mgr_send wire_manager peer (e_port e) bs (\<lparr>w_cid = e_cid e, w_in = i, w_out = out\<rparr>, e_mgr e) of
        (r, (w, m)) \<Rightarrow> (good r, (e\<lparr>e_mgr := m, e_sent := (if r = Ok () then e_sent e @ bs else e_sent e)\<rparr>, w_in w, w_out w)))"
| "ep_exec (ERecv n) peer (e, i, out) =
     (case mgr_recv wire_manager peer (e_port e) n (\<lparr>w_cid = e_cid e, w_in = i, w_out = out\<rparr>, e_mgr e) of
        (r, (w, m)) \<Rightarrow> (good r, (e\<lparr>e_mgr := m, e_got := (case r of Ok bs \<Rightarrow> e_got e @ bs | _ \<Rightarrow> e_got e)\<rparr>, w_in w, w_out w)))"
| "ep_exec EPoll peer (e, i, out) =
     (case mgr_poll wire_manager (\<lparr>w_cid = e_cid e, w_in = i, w_out = out\<rparr>, e_mgr e) of
        (r, (w, m)) \<Rightarrow> (good r, (e\<lparr>e_mgr := m\<rparr>, w_in w, w_out w)))"
| "ep_exec EUpdate peer (e, i, out) =
     (case mgr_update_credit wire_manager peer (e_port e) (\<lparr>w_cid = e_cid e, w_in = i, w_out = out\<rparr>, e_mgr e) of
        (r, (w, m)) \<Rightarrow> (good r, (e\<lparr>e_mgr := m\<rparr>, w_in w, w_out w)))"

text \<open>
  Two ends \<open>a\<close> and \<open>b\<close> with the packets from \<open>a\<close> to \<open>b\<close> and back. In each step one of them makes a
  call; the flag collects whether all calls were good.
\<close>

fun net_run :: "(bool \<times> ep_op) list \<Rightarrow> endpoint \<times> endpoint \<times> packet list \<times> packet list
     \<Rightarrow> bool \<times> (endpoint \<times> endpoint \<times> packet list \<times> packet list)" where
  "net_run [] s = (True, s)"
| "net_run ((True, p) # ops) (a, b, ab, ba) =
     (case ep_exec p (e_addr b) (a, ba, ab) of (g, (a, ba, ab)) \<Rightarrow>
      case net_run ops (a, b, ab, ba) of (g', s) \<Rightarrow> (g \<and> g', s))"
| "net_run ((False, p) # ops) (a, b, ab, ba) =
     (case ep_exec p (e_addr a) (b, ab, ba) of (g, (b, ab, ba)) \<Rightarrow>
      case net_run ops (a, b, ab, ba) of (g', s) \<Rightarrow> (g \<and> g', s))"

interpretation wirem: manager_driver "wire_manager"
proof unfold_locales
  fix handler :: "manager_inner event_handler" and s i r s' i'
  assume a: "sm_poll wire_manager handler (s, i) = (r, (s', i'))"
  show "i' = i \<and> no_event r \<or>
      (\<exists>h ev body r0. from_header h = Ok ev \<and> length body = unat (h_len h) \<and> handler ev body i = (r0, i') \<and> (r = r0 \<or> no_event r))"
  proof (cases "w_in s")
    case Nil
    then show ?thesis using a by (auto simp: wire_manager_def wire_poll_def no_event_def)
  next
    case (Cons p ps)
    then have "handle_buffer handler (hdr_as_bytes (fst p) @ snd p) i = (r, i')"
      using a by (auto simp: wire_manager_def wire_poll_def split: prod.splits)
    from handle_buffer_once [OF this] show ?thesis by blast
  qed
qed (auto simp: wire_manager_def wire_send_def wire_poll_def split: prod.splits list.splits)

text \<open>A packet that the end with the given address sends on the stream to \<open>dst\<close>.\<close>

definition wire_pkt :: "vsock_addr \<Rightarrow> vsock_addr \<Rightarrow> u32 \<Rightarrow> packet \<Rightarrow> bool" where
  "wire_pkt src dst cap p \<longleftrightarrow> (case p of (h, b) \<Rightarrow>
     hdr_source h = src \<and> hdr_destination h = dst \<and> h_buf_alloc h = cap \<and> unat (h_len h) = length b \<and>
     (h_op h = VirtioVsockOp_code Op_Rw \<or>
      b = [] \<and> (h_op h = VirtioVsockOp_code Op_CreditUpdate \<or> h_op h = VirtioVsockOp_code Op_CreditRequest)))"

text \<open>The end \<open>e\<close> has exactly the connection to \<open>peer\<close>.\<close>

definition single :: "endpoint \<Rightarrow> vsock_addr \<Rightarrow> connection \<Rightarrow> bool" where
  "single e peer c \<longleftrightarrow> (\<exists>a. connections (e_mgr e) = [(a, c)]) \<and> ci_dst (c_info c) = peer \<and> ci_src_port (c_info c) = e_port e
     \<and> conn_ok c \<and> \<not> peer_requested_shutdown c"

text \<open>
  The credit of a direction: \<open>pf\<close> is the count of bytes read that the sender knows, \<open>back\<close> the
  packets on their way to it with newer counts, \<open>got\<close> the bytes the receiver has read, \<open>sent\<close> those
  the sender has sent, \<open>cap\<close> the receiver's buffer. The 32-bit counts stand for numbers that only
  grow, and what is sent but not known to be read fits into the buffer.
\<close>

definition credit_inv :: "u32 \<Rightarrow> packet list \<Rightarrow> nat \<Rightarrow> nat \<Rightarrow> nat \<Rightarrow> bool" where
  "credit_inv pf back got sent cap \<longleftrightarrow>
     (\<exists>k fs. pf = of_nat k \<and> map (h_fwd_cnt \<circ> fst) back = map of_nat fs \<and> sorted (k # fs @ [got]) \<and> sent \<le> k + cap)"

text \<open>
  The invariant of one direction, from the sender \<open>s\<close> to the receiver \<open>r\<close>: what was sent is what was
  read, plus what is buffered, plus what is on the wire, in order.
\<close>

definition dir_inv :: "endpoint \<Rightarrow> connection \<Rightarrow> endpoint \<Rightarrow> connection \<Rightarrow> packet list \<Rightarrow> packet list \<Rightarrow> bool" where
  "dir_inv s cs r cr sr rs \<longleftrightarrow>
     (\<forall>p\<in>set sr. wire_pkt (e_addr s) (e_addr r) (ci_buf_alloc (c_info cs)) p) \<and>
     e_got r @ rb_list (c_buffer cr) @ concat (map snd sr) = e_sent s \<and>
     tx_cnt (c_info cs) = of_nat (length (e_sent s)) \<and>
     ci_fwd_cnt (c_info cr) = of_nat (length (e_got r)) \<and>
     peer_buf_alloc (c_info cs) = ci_buf_alloc (c_info cr) \<and>
     credit_inv (peer_fwd_cnt (c_info cs)) rs (length (e_got r)) (length (e_sent s)) (unat (ci_buf_alloc (c_info cr)))"

definition net_inv :: "endpoint \<times> endpoint \<times> packet list \<times> packet list \<Rightarrow> bool" where
  "net_inv n \<longleftrightarrow> (case n of (a, b, ab, ba) \<Rightarrow>
     \<exists>ca cb. single a (e_addr b) ca \<and> single b (e_addr a) cb \<and> dir_inv a ca b cb ab ba \<and> dir_inv b cb a ca ba ab)"

lemma u32_bound: "unat (x :: u32) < 2 ^ 32"
  using unsigned_less [of x] by simp

lemma single_lookup:
  assumes "single e peer c"
  shows "get_connection (connections (e_mgr e)) peer (e_port e) = Ok (0, c)"
  using assms by (auto simp: single_def get_connection_def is_conn_def)

lemma credit_bound: "credit_inv pf back got sent cap \<Longrightarrow> sent \<le> got + cap"
  by (auto simp: credit_inv_def sorted_append)

lemma credit_send:
  assumes "credit_inv pf back got sent (unat cap)" "got \<le> sent" "n \<le> unat (saturating_sub cap (of_nat sent - pf))"
  shows "credit_inv pf back got (sent + n) (unat (cap :: u32))"
proof -
  from assms(1) obtain k fs where k: "pf = of_nat k" "map (h_fwd_cnt \<circ> fst) back = map of_nat fs"
    "sorted (k # fs @ [got])" "sent \<le> k + unat cap" unfolding credit_inv_def by blast
  have kT: "k \<le> sent" using k(3) assms(2) by (auto simp: sorted_append)
  have "of_nat sent - pf = of_nat (sent - k)" using k(1) kT by (simp add: of_nat_diff)
  moreover have "sent - k < 2 ^ 32" using k(4) u32_bound [of cap] by simp
  ultimately have o: "unat (of_nat sent - pf) = sent - k" by (simp add: unat_of_nat take_bit_nat_eq_self)
  have "unat (saturating_sub cap (of_nat sent - pf)) = unat cap - (sent - k)"
    using k(4) o by (auto simp: saturating_sub_def word_less_nat_alt unat_sub_if')
  then have "sent + n \<le> k + unat cap" using assms(3) k(4) kT by linarith
  with k show ?thesis unfolding credit_inv_def by blast
qed

lemma credit_back:
  assumes "credit_inv pf back got sent cap" "h_fwd_cnt (fst p) = of_nat got"
  shows "credit_inv pf (back @ [p]) got sent cap"
proof -
  from assms(1) obtain k fs where k: "pf = of_nat k" "map (h_fwd_cnt \<circ> fst) back = map of_nat fs"
    "sorted (k # fs @ [got])" "sent \<le> k + cap" unfolding credit_inv_def by blast
  have "map (h_fwd_cnt \<circ> fst) (back @ [p]) = map of_nat (fs @ [got])" using k(2) assms(2) by simp
  moreover have "sorted (k # (fs @ [got]) @ [got])" using k(3) by (auto simp: sorted_append)
  ultimately show ?thesis using k(1,4) unfolding credit_inv_def by blast
qed

lemma credit_read:
  assumes "credit_inv pf back got sent cap" "got \<le> got'"
  shows "credit_inv pf back got' sent cap"
proof -
  from assms(1) obtain k fs where k: "pf = of_nat k" "map (h_fwd_cnt \<circ> fst) back = map of_nat fs"
    "sorted (k # fs @ [got])" "sent \<le> k + cap" unfolding credit_inv_def by blast
  have "sorted (k # fs @ [got'])" using k(3) assms(2) by (auto simp: sorted_append)
  with k show ?thesis unfolding credit_inv_def by blast
qed

lemma credit_learn:
  assumes "credit_inv pf (p # back) got sent cap"
  shows "credit_inv (h_fwd_cnt (fst p)) back got sent cap"
proof -
  from assms obtain k fs where k: "map (h_fwd_cnt \<circ> fst) (p # back) = map of_nat fs"
    "sorted (k # fs @ [got])" "sent \<le> k + cap" unfolding credit_inv_def by blast
  then obtain f fs' where f: "fs = f # fs'" by (cases fs) auto
  have "sent \<le> f + cap" using k f by simp
  moreover have "sorted (f # fs' @ [got])" using k(2) f by simp
  ultimately show ?thesis using k(1) f unfolding credit_inv_def by auto
qed

text \<open>Sending: the invariant of the sending direction grows by the data, the other is unchanged.\<close>

lemma sk_send_wire:
  assumes "sk_send wire_manager bs c w = (r, (c', w'))"
  shows "w_in w' = w_in w \<and> w_cid w' = w_cid w \<and> c_buffer c' = c_buffer c \<and> peer_requested_shutdown c' = peer_requested_shutdown c \<and>
   (if length bs \<le> unat (peer_free (c_info c))
    then r = Ok () \<and> c_info c' = (c_info c)\<lparr>tx_cnt := tx_cnt (c_info c) + of_nat (length bs)\<rparr>
      \<and> w_out w' = w_out w @ [((new_header (w_cid w) (c_info c))\<lparr>h_op := VirtioVsockOp_code Op_Rw, h_len := of_nat (length bs)\<rparr>, bs)]
    else r = Err (SocketDeviceError InsufficientBufferSpaceInPeer)
      \<and> c_info c' = (c_info c)\<lparr>has_pending_credit_request := True\<rparr>
      \<and> (if has_pending_credit_request (c_info c) then w_out w' = w_out w
         else w_out w' = w_out w @ [((new_header (w_cid w) (c_info c))\<lparr>h_op := VirtioVsockOp_code Op_CreditRequest\<rparr>, [])]))"
proof -
  have nh: "new_header cid (ci\<lparr>has_pending_credit_request := True\<rparr>) = new_header cid ci" for cid ci
    by (simp add: new_header_def)
  show ?thesis using assms
    by (auto simp: sk_send_def check_peer_buffer_is_sufficient_def request_credit_def wire_manager_def wire_send_def Let_def nh
        split: if_splits)
qed

lemma new_header_pkt:
  assumes "single s (e_addr r) cs" "unat n = length b" "op = Op_Rw \<or> b = [] \<and> (op = Op_CreditUpdate \<or> op = Op_CreditRequest)"
  shows "wire_pkt (e_addr s) (e_addr r) (ci_buf_alloc (c_info cs)) ((new_header (e_cid s) (c_info cs))\<lparr>h_op := VirtioVsockOp_code op, h_len := n\<rparr>, b)"
  using assms by (auto simp: wire_pkt_def new_header_def single_def e_addr_def hdr_source_def hdr_destination_def)

lemma new_header_len: "(new_header cid c)\<lparr>h_op := op, h_len := 0\<rparr> = (new_header cid c)\<lparr>h_op := op\<rparr>"
  by (simp add: new_header_def VirtioVsockHdr_default_def)

lemma new_header_fwd [simp]: "h_fwd_cnt ((new_header cid c)\<lparr>h_op := op\<rparr>) = ci_fwd_cnt c" "h_fwd_cnt ((new_header cid c)\<lparr>h_op := op, h_len := n\<rparr>) = ci_fwd_cnt c"
  by (simp_all add: new_header_def)

lemma exec_send:
  assumes "single s (e_addr r) cs" "single r (e_addr s) cr" "dir_inv s cs r cr sr rs" "dir_inv r cr s cs rs sr"
    and "ep_exec (ESend bs) (e_addr r) (s, rs, sr) = (g, (s', rs', sr'))"
  shows "g \<and> rs' = rs \<and> (\<exists>cs'. single s' (e_addr r) cs' \<and> dir_inv s' cs' r cr sr' rs \<and> dir_inv r cr s' cs' rs sr') \<and> e_addr s' = e_addr s"
proof -
  let ?w = "\<lparr>w_cid = e_cid s, w_in = rs, w_out = sr\<rparr>"
  obtain q c' w' where q: "sk_send wire_manager bs cs ?w = (q, (c', w'))" by (metis surj_pair)
  note w = sk_send_wire [OF q]
  obtain a where a: "connections (e_mgr s) = [(a, cs)]" using assms(1) by (auto simp: single_def)
  define s1 where "s1 = s\<lparr>e_mgr := (e_mgr s)\<lparr>connections := [(a, c')]\<rparr>, e_sent := (if q = Ok () then e_sent s @ bs else e_sent s)\<rparr>"
  have ex: "g = good q" "s' = s1" "rs' = rs" "sr' = w_out w'"
    using assms(5) q w single_lookup [OF assms(1)] a by (auto simp: mgr_send_def set_conn_def s1_def)
  show ?thesis
  proof (cases "length bs \<le> unat (peer_free (c_info cs))")
    case True
    have n: "length bs < 2 ^ 32" using True u32_bound [of "peer_free (c_info cs)"] by simp
    have eq: "e_sent s = e_got r @ rb_list (c_buffer cr) @ concat (map snd sr)" using assms(3) by (simp add: dir_inv_def)
    then have le: "length (e_got r) \<le> length (e_sent s)" by simp
    have cr: "credit_inv (peer_fwd_cnt (c_info cs)) rs (length (e_got r)) (length (e_sent s) + length bs) (unat (ci_buf_alloc (c_info cr)))"
      by (rule credit_send) (use assms(3) True le in \<open>auto simp: dir_inv_def peer_free_def Let_def\<close>)
    have str: "e_got r @ rb_list (c_buffer cr) @ concat (map snd sr) @ bs = e_sent s @ bs"
      by (simp add: eq)
    define p where "p = ((new_header (e_cid s) (c_info cs))\<lparr>h_op := VirtioVsockOp_code Op_Rw, h_len := of_nat (length bs)\<rparr>, bs)"
    have sp: "snd p = bs" by (simp add: p_def)
    have w1: "q = Ok ()" "c_info c' = (c_info cs)\<lparr>tx_cnt := tx_cnt (c_info cs) + of_nat (length bs)\<rparr>" "sr' = sr @ [p]" "c_buffer c' = c_buffer cs"
      "peer_requested_shutdown c' = peer_requested_shutdown cs"
      using w True ex(4) by (auto simp: p_def)
    have "unat (of_nat (length bs) :: u32) = length bs" using n by (simp add: unat_of_nat take_bit_nat_eq_self)
    then have pk: "wire_pkt (e_addr s) (e_addr r) (ci_buf_alloc (c_info cs)) p" unfolding p_def by (intro new_header_pkt assms) auto
    have "single s1 (e_addr r) c'" using assms(1) w1 a by (auto simp: single_def s1_def conn_ok_def)
    moreover have "dir_inv s1 c' r cr sr' rs"
      using assms(3) pk cr w1 sp str by (simp add: dir_inv_def s1_def e_addr_def add.assoc)
    moreover have "dir_inv r cr s1 c' rs (sr @ [p])"
      using assms(4) w1 by (simp add: dir_inv_def s1_def e_addr_def p_def credit_back)
    ultimately show ?thesis using ex w1 by (auto simp: good_def s1_def e_addr_def)
  next
    case False
    have w1: "q = Err (SocketDeviceError InsufficientBufferSpaceInPeer)" "c_info c' = (c_info cs)\<lparr>has_pending_credit_request := True\<rparr>"
      "c_buffer c' = c_buffer cs" "peer_requested_shutdown c' = peer_requested_shutdown cs"
      "sr' = sr \<or> sr' = sr @ [((new_header (e_cid s) (c_info cs))\<lparr>h_op := VirtioVsockOp_code Op_CreditRequest\<rparr>, [])]"
      using w False ex(4) by (auto split: if_splits)
    let ?p = "((new_header (e_cid s) (c_info cs))\<lparr>h_op := VirtioVsockOp_code Op_CreditRequest\<rparr>, [])"
    have pk: "wire_pkt (e_addr s) (e_addr r) (ci_buf_alloc (c_info cs)) ?p"
      using new_header_pkt [OF assms(1), of 0 "[]" Op_CreditRequest] by (simp add: new_header_len)
    have "single s1 (e_addr r) c'" using assms(1) w1 a by (auto simp: single_def s1_def conn_ok_def)
    moreover have "dir_inv s1 c' r cr sr' rs"
      using assms(3) pk w1 by (auto simp: dir_inv_def s1_def e_addr_def)
    moreover have "dir_inv r cr s1 c' rs sr'"
      using assms(4) w1 by (auto simp: dir_inv_def s1_def e_addr_def credit_back)
    ultimately show ?thesis using ex w1 by (auto simp: good_def s1_def e_addr_def)
  qed
qed


lemma exec_recv:
  assumes "single s (e_addr r) cs" "single r (e_addr s) cr" "dir_inv s cs r cr sr rs" "dir_inv r cr s cs rs sr"
    and "ep_exec (ERecv n) (e_addr r) (s, rs, sr) = (g, (s', rs', sr'))"
  shows "g \<and> rs' = rs \<and> (\<exists>cs'. single s' (e_addr r) cs' \<and> dir_inv s' cs' r cr sr' rs \<and> dir_inv r cr s' cs' rs sr') \<and> e_addr s' = e_addr s"
proof -
  have ok: "conn_ok cs" "\<not> peer_requested_shutdown cs" using assms(1) by (auto simp: single_def)
  let ?l = "rb_list (c_buffer cs)"
  from rbq.drain_law [of "c_buffer cs" n] ok obtain b where d: "RingBuffer_drain n (c_buffer cs) = (Ok (take n ?l), b)"
    "rb_ok b" "rb_list b = drop n ?l" "rb_capacity b = rb_capacity (c_buffer cs)" by (auto simp: conn_ok_def)
  obtain a where a: "connections (e_mgr s) = [(a, cs)]" using assms(1) by (auto simp: single_def)
  define c' where "c' = cs\<lparr>c_buffer := b, c_info := done_forwarding (length (take n ?l)) (c_info cs)\<rparr>"
  define s1 where "s1 = s\<lparr>e_mgr := (e_mgr s)\<lparr>connections := [(a, c')]\<rparr>, e_got := e_got s @ take n ?l\<rparr>"
  have ex: "g" "s' = s1" "rs' = rs" "sr' = sr"
    using assms(5) d(1) ok(2) single_lookup [OF assms(1)] a
    by (auto simp: mgr_recv_def set_conn_def s1_def c'_def Let_def good_def)
  have "single s1 (e_addr r) c'"
    using assms(1) d ok a by (auto simp: single_def s1_def conn_ok_def c'_def done_forwarding_def)
  moreover have "dir_inv s1 c' r cr sr rs"
    using assms(3) by (simp add: dir_inv_def s1_def e_addr_def c'_def done_forwarding_def)
  moreover have "dir_inv r cr s1 c' rs sr"
  proof -
    have "credit_inv (peer_fwd_cnt (c_info cr)) sr (length (e_got s @ take n ?l)) (length (e_sent r)) (unat (ci_buf_alloc (c_info cs)))"
      by (rule credit_read) (use assms(4) in \<open>auto simp: dir_inv_def\<close>)
    moreover have "e_got s @ take n ?l @ drop n ?l @ concat (map snd rs) = e_sent r"
      using assms(4) by (simp add: dir_inv_def) (metis append.assoc append_take_drop_id)
    ultimately show ?thesis
      using assms(4) d(3) by (auto simp: dir_inv_def s1_def e_addr_def c'_def done_forwarding_def)
  qed
  ultimately show ?thesis using ex by (auto simp: s1_def e_addr_def)
qed

lemma exec_update:
  assumes "single s (e_addr r) cs" "single r (e_addr s) cr" "dir_inv s cs r cr sr rs" "dir_inv r cr s cs rs sr"
    and "ep_exec EUpdate (e_addr r) (s, rs, sr) = (g, (s', rs', sr'))"
  shows "g \<and> rs' = rs \<and> (\<exists>cs'. single s' (e_addr r) cs' \<and> dir_inv s' cs' r cr sr' rs \<and> dir_inv r cr s' cs' rs sr') \<and> e_addr s' = e_addr s
    \<and> s' = s \<and> sr' = sr @ [((new_header (e_cid s) (c_info cs))\<lparr>h_op := VirtioVsockOp_code Op_CreditUpdate\<rparr>, [])]"
proof -
  let ?p = "((new_header (e_cid s) (c_info cs))\<lparr>h_op := VirtioVsockOp_code Op_CreditUpdate\<rparr>, [])"
  have pk: "wire_pkt (e_addr s) (e_addr r) (ci_buf_alloc (c_info cs)) ?p"
    using new_header_pkt [OF assms(1), of 0 "[]" Op_CreditUpdate] by (simp add: new_header_len)
  have ex: "g" "s' = s" "rs' = rs" "sr' = sr @ [?p]"
    using assms(5) single_lookup [OF assms(1)]
    by (auto simp: mgr_update_credit_def credit_update_def wire_manager_def wire_send_def good_def)
  moreover have "dir_inv s cs r cr (sr @ [?p]) rs" using assms(3) pk by (simp add: dir_inv_def)
  moreover have "dir_inv r cr s cs rs (sr @ [?p])" using assms(4) by (simp add: dir_inv_def credit_back)
  ultimately show ?thesis using assms(1) by auto
qed

lemma from_header_cases:
  assumes "wire_pkt src dst cap (h, b)"
  shows "\<exists>ty. from_header h = Ok \<lparr>ev_source = src, ev_destination = dst,
      ev_buffer_status = \<lparr>buffer_allocation = cap, forward_count = h_fwd_cnt h\<rparr>, ev_type = ty, ev_new_connection = None\<rparr>
    \<and> (h_op h = VirtioVsockOp_code Op_Rw \<and> ty = Received (length b)
       \<or> h_op h = VirtioVsockOp_code Op_CreditUpdate \<and> ty = CreditUpdate \<and> b = []
       \<or> h_op h = VirtioVsockOp_code Op_CreditRequest \<and> ty = CreditRequest \<and> b = [])"
proof -
  have l: "h_len h = 0" if "b = []" using assms that by (simp add: wire_pkt_def unat_eq_zero)
  show ?thesis
    using assms l
    by (auto simp: wire_pkt_def from_header_def hdr_op_def VirtioVsockOp_try_from_def check_data_is_empty_def Let_def)
qed

lemma poll_one:
  assumes m: "connections m = [(a, c)]" and p: "wire_pkt src \<lparr>a_cid = w_cid w, a_port = port\<rparr> cap (h, b)"
    and k: "ci_dst (c_info c) = src" "ci_src_port (c_info c) = port"
    and add: "RingBuffer_add b (c_buffer c) = (Ok True, bf)" and w: "w_in w = (h, b) # ps"
  shows "\<exists>r pend c'. c' = c\<lparr>c_info := (c_info c)\<lparr>peer_buf_alloc := cap, peer_fwd_cnt := h_fwd_cnt h, has_pending_credit_request := pend\<rparr>,
        c_buffer := (if h_op h = VirtioVsockOp_code Op_Rw then bf else c_buffer c)\<rparr>
    \<and> mgr_poll wire_manager (w, m) = (Ok r, (w\<lparr>w_in := ps, w_out := w_out w @ (if h_op h = VirtioVsockOp_code Op_CreditRequest
         then [((new_header (w_cid w) (c_info c'))\<lparr>h_op := VirtioVsockOp_code Op_CreditUpdate\<rparr>, [])] else [])\<rparr>,
        m\<lparr>connections := [(a, c')]\<rparr>))"
proof -
  obtain ev where ev: "from_header h = Ok ev" "ev_source ev = src" "ev_destination ev = \<lparr>a_cid = w_cid w, a_port = port\<rparr>"
      "ev_buffer_status ev = \<lparr>buffer_allocation = cap, forward_count = h_fwd_cnt h\<rparr>"
    and ty: "h_op h = VirtioVsockOp_code Op_Rw \<and> ev_type ev = Received (length b)
       \<or> h_op h = VirtioVsockOp_code Op_CreditUpdate \<and> ev_type ev = CreditUpdate \<and> b = []
       \<or> h_op h = VirtioVsockOp_code Op_CreditRequest \<and> ev_type ev = CreditRequest \<and> b = []"
    using from_header_cases [OF p] by fastforce
  have rd: "read_header_and_body (hdr_as_bytes h @ b) = Ok (h, b)"
    using p by (subst read_header_and_body_Ok) (auto simp: wire_pkt_def)
  have mt: "matches_connection ev ci (w_cid w)" if "ci_dst ci = src" "ci_src_port ci = port" for ci
    using that ev by (simp add: matches_connection_def)
  have g: "get_connection_for_event [(a, c1)] ev (w_cid w) = Some (0, c1)"
    if "ci_dst (c_info c1) = src" "ci_src_port (c_info c1) = port" for c1
    using that mt by (simp add: get_connection_for_event_def)
  define c' where "c' = c\<lparr>c_info := update_for_event ev (c_info c), c_buffer := (if h_op h = VirtioVsockOp_code Op_Rw then bf else c_buffer c)\<rparr>"
  have d: "deliver ev b 0 m = (Ok (Some ev), m\<lparr>connections := [(a, c')]\<rparr>)"
    using ty add m by (auto simp: deliver_def Let_def set_conn_def c'_def)
  have k': "ci_dst (c_info c') = src" "ci_src_port (c_info c') = port" using k by (simp_all add: c'_def)
  have ph: "wire_poll (poll_handler (w_cid w)) (w, m) = (Ok (Some ev), (w\<lparr>w_in := ps\<rparr>, m\<lparr>connections := [(a, c')]\<rparr>))"
    using rd ev(1) g [OF k] d by (simp add: wire_poll_def w handle_buffer_def poll_handler_def m)
  have "\<exists>pend. c_info c' = (c_info c)\<lparr>peer_buf_alloc := cap, peer_fwd_cnt := h_fwd_cnt h, has_pending_credit_request := pend\<rparr>"
    using ev(4) by (auto simp: c'_def update_for_event_def Let_def intro: exI [of _ "has_pending_credit_request (c_info c)"])
  then obtain pend where pend: "c' = c\<lparr>c_info := (c_info c)\<lparr>peer_buf_alloc := cap, peer_fwd_cnt := h_fwd_cnt h, has_pending_credit_request := pend\<rparr>,
        c_buffer := (if h_op h = VirtioVsockOp_code Op_Rw then bf else c_buffer c)\<rparr>" by (auto simp: c'_def)
  have "\<exists>r. mgr_poll wire_manager (w, m) = (Ok r, (w\<lparr>w_in := ps, w_out := w_out w @ (if h_op h = VirtioVsockOp_code Op_CreditRequest
         then [((new_header (w_cid w) (c_info c'))\<lparr>h_op := VirtioVsockOp_code Op_CreditUpdate\<rparr>, [])] else [])\<rparr>,
        m\<lparr>connections := [(a, c')]\<rparr>))"
    using ty ph g [OF k'] by (auto simp: mgr_poll_def wire_manager_def credit_update_def wire_send_def)
  with pend show ?thesis by blast
qed

lemma exec_poll:
  assumes "single s (e_addr r) cs" "single r (e_addr s) cr" "dir_inv s cs r cr sr rs" "dir_inv r cr s cs rs sr"
    and "ep_exec EPoll (e_addr r) (s, rs, sr) = (g, (s', rs', sr'))"
  shows "g \<and> (\<exists>cs'. single s' (e_addr r) cs' \<and> dir_inv s' cs' r cr sr' rs' \<and> dir_inv r cr s' cs' rs' sr'
      \<and> (rs \<noteq> [] \<longrightarrow> peer_fwd_cnt (c_info cs') = h_fwd_cnt (fst (hd rs))))
    \<and> e_addr s' = e_addr s \<and> rs' = tl rs \<and> e_sent s' = e_sent s"
proof (cases rs)
  case Nil
  then have "g" "s' = s" "rs' = rs" "sr' = sr"
    using assms(5) by (auto simp: mgr_poll_def wire_manager_def wire_poll_def good_def)
  with assms Nil show ?thesis by auto
next
  case (Cons p rs1)
  obtain h b where p: "p = (h, b)" by fastforce
  obtain a where a: "connections (e_mgr s) = [(a, cs)]" using assms(1) by (auto simp: single_def)
  have ok: "conn_ok cs" "ci_dst (c_info cs) = e_addr r" "ci_src_port (c_info cs) = e_port s" "\<not> peer_requested_shutdown cs"
    using assms(1) by (auto simp: single_def)
  have D2: "wire_pkt (e_addr r) (e_addr s) (ci_buf_alloc (c_info cr)) (h, b)"
    "e_sent r = e_got s @ rb_list (c_buffer cs) @ b @ concat (map snd rs1)"
    "credit_inv (peer_fwd_cnt (c_info cr)) sr (length (e_got s)) (length (e_sent r)) (unat (ci_buf_alloc (c_info cs)))"
    using assms(4) Cons p by (auto simp: dir_inv_def)
  have "length (rb_list (c_buffer cs)) + length b \<le> rb_capacity (c_buffer cs)"
    using credit_bound [OF D2(3)] D2(2) ok(1) by (simp add: conn_ok_def)
  then obtain bf where bf: "RingBuffer_add b (c_buffer cs) = (Ok True, bf)" "rb_ok bf" "rb_list bf = rb_list (c_buffer cs) @ b"
    "rb_capacity bf = rb_capacity (c_buffer cs)"
    using rbq.add_fits [of "c_buffer cs" b] ok(1) by (auto simp: conn_ok_def)
  let ?w = "\<lparr>w_cid = e_cid s, w_in = rs, w_out = sr\<rparr>"
  have P: "wire_pkt (e_addr r) \<lparr>a_cid = w_cid ?w, a_port = e_port s\<rparr> (ci_buf_alloc (c_info cr)) (h, b)" "w_in ?w = (h, b) # rs1"
    using D2(1) Cons p by (simp_all add: e_addr_def)
  obtain q pend c' where c': "c' = cs\<lparr>c_info := (c_info cs)\<lparr>peer_buf_alloc := ci_buf_alloc (c_info cr), peer_fwd_cnt := h_fwd_cnt h, has_pending_credit_request := pend\<rparr>,
        c_buffer := (if h_op h = VirtioVsockOp_code Op_Rw then bf else c_buffer cs)\<rparr>"
    and q: "mgr_poll wire_manager (?w, e_mgr s) = (Ok q, (?w\<lparr>w_in := rs1, w_out := sr @ (if h_op h = VirtioVsockOp_code Op_CreditRequest
         then [((new_header (e_cid s) (c_info c'))\<lparr>h_op := VirtioVsockOp_code Op_CreditUpdate\<rparr>, [])] else [])\<rparr>,
        (e_mgr s)\<lparr>connections := [(a, c')]\<rparr>))"
    using poll_one [OF a P(1) ok(2,3) bf(1) P(2)] unfolding wire.simps by blast
  define s1 where "s1 = s\<lparr>e_mgr := (e_mgr s)\<lparr>connections := [(a, c')]\<rparr>\<rparr>"
  let ?p = "((new_header (e_cid s) (c_info c'))\<lparr>h_op := VirtioVsockOp_code Op_CreditUpdate\<rparr>, []) :: packet"
  have ex: "g" "s' = s1" "rs' = rs1" "sr' = sr \<or> sr' = sr @ [?p]"
    using assms(5) q by (auto simp: s1_def good_def)
  have buf: "rb_ok (c_buffer c')" "rb_list (c_buffer c') = rb_list (c_buffer cs) @ b" "rb_capacity (c_buffer c') = rb_capacity (c_buffer cs)"
    using bf ok(1) D2(1) by (auto simp: c' conn_ok_def wire_pkt_def)
  have info: "ci_dst (c_info c') = e_addr r" "ci_src_port (c_info c') = e_port s" "ci_buf_alloc (c_info c') = ci_buf_alloc (c_info cs)"
    "ci_fwd_cnt (c_info c') = ci_fwd_cnt (c_info cs)" "tx_cnt (c_info c') = tx_cnt (c_info cs)"
    "peer_buf_alloc (c_info c') = ci_buf_alloc (c_info cr)" "peer_fwd_cnt (c_info c') = h_fwd_cnt h"
    using ok by (simp_all add: c')
  have sng: "single s1 (e_addr r) c'" using ok buf info by (auto simp: single_def s1_def conn_ok_def c')
  have pk: "wire_pkt (e_addr s1) (e_addr r) (ci_buf_alloc (c_info c')) ?p"
    using new_header_pkt [OF sng, of 0 "[]" Op_CreditUpdate] by (simp add: new_header_len s1_def)
  have A: "dir_inv s1 c' r cr sr rs1"
  proof -
    have "credit_inv (h_fwd_cnt h) rs1 (length (e_got r)) (length (e_sent s)) (unat (ci_buf_alloc (c_info cr)))"
      using credit_learn [of "peer_fwd_cnt (c_info cs)" "(h, b)" rs1] assms(3) Cons p by (simp add: dir_inv_def)
    then show ?thesis using assms(3) info by (simp add: dir_inv_def s1_def e_addr_def)
  qed
  have B: "dir_inv r cr s1 c' rs1 sr"
    using assms(4) D2 info buf Cons p by (simp add: dir_inv_def s1_def e_addr_def)
  have "dir_inv s1 c' r cr (sr @ [?p]) rs1" using A pk by (simp add: dir_inv_def)
  moreover have "dir_inv r cr s1 c' rs1 (sr @ [?p])" using B by (simp add: dir_inv_def credit_back)
  ultimately show ?thesis using ex sng A B info(7) Cons p by (auto simp: s1_def e_addr_def)
qed

lemma exec_ok:
  assumes "single s (e_addr r) cs" "single r (e_addr s) cr" "dir_inv s cs r cr sr rs" "dir_inv r cr s cs rs sr"
    and "ep_exec p (e_addr r) (s, rs, sr) = (g, (s', rs', sr'))"
  shows "g \<and> net_inv (s', r, sr', rs')"
proof -
  have "g \<and> (\<exists>cs'. single s' (e_addr r) cs' \<and> dir_inv s' cs' r cr sr' rs' \<and> dir_inv r cr s' cs' rs' sr') \<and> e_addr s' = e_addr s"
  proof (cases p)
    case (ESend bs)
    then show ?thesis using exec_send [OF assms(1-4)] assms(5) by metis
  next
    case (ERecv n)
    then show ?thesis using exec_recv [OF assms(1-4)] assms(5) by metis
  next
    case EPoll
    then show ?thesis using exec_poll [OF assms(1-4)] assms(5) by metis
  next
    case EUpdate
    then show ?thesis using exec_update [OF assms(1-4)] assms(5) by metis
  qed
  with assms(2) show ?thesis by (auto simp: net_inv_def)
qed

lemma net_inv_swap: "net_inv (a, b, ab, ba) \<longleftrightarrow> net_inv (b, a, ba, ab)"
  by (auto simp: net_inv_def)

lemma net_run_ok:
  assumes "net_inv n" "net_run ops n = (g, n')"
  shows "g \<and> net_inv n'"
  using assms
proof (induction ops n arbitrary: g n' rule: net_run.induct)
  case (2 p ops a b ab ba)
  obtain g1 a1 ba1 ab1 where x: "ep_exec p (e_addr b) (a, ba, ab) = (g1, (a1, ba1, ab1))" by (metis surj_pair)
  from 2(2) x have "g1 \<and> net_inv (a1, b, ab1, ba1)" unfolding net_inv_def using exec_ok [OF _ _ _ _ x] by (auto simp: net_inv_def)
  with 2(1) [OF x [symmetric]] 2(3) x show ?case by (auto split: prod.splits)
next
  case (3 p ops a b ab ba)
  obtain g1 b1 ab1 ba1 where x: "ep_exec p (e_addr a) (b, ab, ba) = (g1, (b1, ab1, ba1))" by (metis surj_pair)
  from 3(2) x have "g1 \<and> net_inv (b1, a, ba1, ab1)" unfolding net_inv_def using exec_ok [OF _ _ _ _ x] by (auto simp: net_inv_def)
  then have "g1 \<and> net_inv (a, b1, ab1, ba1)" using net_inv_swap by blast
  with 3(1) [OF x [symmetric]] 3(3) x show ?case by (auto split: prod.splits)
qed simp

text \<open>Opening a stream, by the code of both sides: connect, accept, and the answer.\<close>

definition wire_connect :: "connection \<Rightarrow> wire \<Rightarrow> unit result \<times> wire" where
  "wire_connect c w = wire_send ((new_header (w_cid w) (c_info c))\<lparr>h_op := VirtioVsockOp_code Op_Request\<rparr>) [] w"

definition open_stream :: "vsock_addr \<Rightarrow> vsock_addr \<Rightarrow> u32 \<Rightarrow> u32 \<Rightarrow> endpoint \<times> endpoint \<times> packet list \<times> packet list" where
  "open_stream la lb capA capB =
     (case mgr_connect wire_connect lb (a_port la) (\<lparr>w_cid = a_cid la, w_in = [], w_out = []\<rparr>, manager_new_with_capacity capA) of (_, (wa, ma)) \<Rightarrow>
      case mgr_poll wire_manager (\<lparr>w_cid = a_cid lb, w_in = w_out wa, w_out = []\<rparr>, mgr_listen (a_port lb) (manager_new_with_capacity capB)) of (_, (wb, mb)) \<Rightarrow>
      case mgr_poll wire_manager (\<lparr>w_cid = a_cid la, w_in = w_out wb, w_out = []\<rparr>, ma) of (_, (wa, ma)) \<Rightarrow>
        (\<lparr>e_cid = a_cid la, e_port = a_port la, e_mgr = ma, e_sent = [], e_got = []\<rparr>,
         \<lparr>e_cid = a_cid lb, e_port = a_port lb, e_mgr = mb, e_sent = [], e_got = []\<rparr>, w_out wa, w_in wa))"

lemma open_stream_run:
  assumes "0 < capA" "0 < capB"
  shows "\<exists>ma mb. open_stream la lb capA capB =
     (\<lparr>e_cid = a_cid la, e_port = a_port la, e_mgr = ma, e_sent = [], e_got = []\<rparr>,
      \<lparr>e_cid = a_cid lb, e_port = a_port lb, e_mgr = mb, e_sent = [], e_got = []\<rparr>, [], [])
    \<and> net_inv (open_stream la lb capA capB)"
proof -
  define cA where "cA = Connection_new lb (a_port la) capA"
  define h1 where "h1 = (new_header (a_cid la) (c_info cA))\<lparr>h_op := VirtioVsockOp_code Op_Request\<rparr>"
  define mA where "mA = (manager_new_with_capacity capA)\<lparr>connections := [(0, cA)], next_arc := 1\<rparr>"
  have 1: "mgr_connect wire_connect lb (a_port la) (\<lparr>w_cid = a_cid la, w_in = [], w_out = []\<rparr>, manager_new_with_capacity capA)
    = (Ok (), (\<lparr>w_cid = a_cid la, w_in = [], w_out = [(h1, [])]\<rparr>, mA))"
    by (simp add: mgr_connect_def manager_new_with_capacity_def wire_connect_def wire_send_def push_conn_def Let_def h1_def cA_def mA_def)
  define cB where "cB = (Connection_new la (a_port lb) capB)\<lparr>c_info := (c_info (Connection_new la (a_port lb) capB))\<lparr>peer_buf_alloc := capA\<rparr>\<rparr>"
  define h2 where "h2 = (new_header (a_cid lb) (c_info cB))\<lparr>h_op := VirtioVsockOp_code Op_Response\<rparr>"
  define mB where "mB = (mgr_listen (a_port lb) (manager_new_with_capacity capB))\<lparr>connections := [(0, cB)], next_arc := 1\<rparr>"
  have rd: "read_header_and_body (hdr_as_bytes h1) = Ok (h1, [])" "read_header_and_body (hdr_as_bytes h2) = Ok (h2, [])"
    by (subst read_header_and_body_Ok; simp add: h1_def h2_def new_header_def VirtioVsockHdr_default_def)+
  let ?ev1 = "\<lparr>ev_source = la, ev_destination = lb, ev_buffer_status = \<lparr>buffer_allocation = capA, forward_count = 0\<rparr>,
     ev_type = ConnectionRequest, ev_new_connection = None\<rparr>"
  let ?ev2 = "\<lparr>ev_source = lb, ev_destination = la, ev_buffer_status = \<lparr>buffer_allocation = capB, forward_count = 0\<rparr>,
     ev_type = Connected, ev_new_connection = None\<rparr>"
  have fh: "from_header h1 = Ok ?ev1" "from_header h2 = Ok ?ev2"
    by (simp_all add: h1_def h2_def cA_def cB_def from_header_def hdr_op_def VirtioVsockOp_try_from_def check_data_is_empty_def Let_def
        new_header_def VirtioVsockHdr_default_def Connection_new_def ConnectionInfo_new_def hdr_source_def hdr_destination_def)
  have mt: "matches_connection ?ev1 (c_info cB) (a_cid lb)" "matches_connection ?ev2 (c_info cA) (a_cid la)"
    by (simp_all add: matches_connection_def cA_def cB_def Connection_new_def ConnectionInfo_new_def)
  let ?cA = "cA\<lparr>c_info := (c_info cA)\<lparr>peer_buf_alloc := capB\<rparr>\<rparr>"
  have up: "update_for_event ?ev1 (c_info (Connection_new la (a_port lb) capB)) = c_info cB"
    "update_for_event ?ev2 (c_info cA) = (c_info cA)\<lparr>peer_buf_alloc := capB\<rparr>"
    by (simp_all add: update_for_event_def cA_def cB_def Connection_new_def ConnectionInfo_new_def)
  have 2: "mgr_poll wire_manager (\<lparr>w_cid = a_cid lb, w_in = [(h1, [])], w_out = []\<rparr>, mgr_listen (a_port lb) (manager_new_with_capacity capB))
    = (Ok (Some ?ev1), (\<lparr>w_cid = a_cid lb, w_in = [], w_out = [(h2, [])]\<rparr>, mB))"
  proof -
    let ?m = "mgr_listen (a_port lb) (manager_new_with_capacity capB)"
    have m: "connections ?m = []" "next_arc ?m = 0" "per_connection_buffer_capacity ?m = capB" "listening_ports ?m = [a_port lb]"
      by (simp_all add: mgr_listen_def manager_new_with_capacity_def)
    have cB: "(Connection_new la (a_port lb) capB)\<lparr>c_info := c_info cB\<rparr> = cB" by (simp add: cB_def)
    have "poll_handler (a_cid lb) ?ev1 [] ?m = (Ok (Some ?ev1), mB)"
      using up(1) by (simp add: poll_handler_def get_connection_for_event_def m push_conn_def deliver_def set_conn_def cB mB_def)
    moreover have "get_connection_for_event (connections mB) ?ev1 (a_cid lb) = Some (0, cB)"
      using mt(1) by (simp add: get_connection_for_event_def mB_def)
    moreover have "listening_ports mB = [a_port lb]" by (simp add: mB_def m)
    ultimately show ?thesis
      using rd(1) fh(1) by (simp add: mgr_poll_def wire_manager_def wire_poll_def handle_buffer_def sk_accept_def wire_send_def h2_def Let_def)
  qed
  have 3: "mgr_poll wire_manager (\<lparr>w_cid = a_cid la, w_in = [(h2, [])], w_out = []\<rparr>, mA)
    = (Ok (Some ?ev2), (\<lparr>w_cid = a_cid la, w_in = [], w_out = []\<rparr>, mA\<lparr>connections := [(0, ?cA)]\<rparr>))"
  proof -
    have "get_connection_for_event (connections mA) ?ev2 (a_cid la) = Some (0, cA)"
      using mt(2) by (simp add: get_connection_for_event_def mA_def)
    then have "poll_handler (a_cid la) ?ev2 [] mA = (Ok (Some ?ev2), mA\<lparr>connections := [(0, ?cA)]\<rparr>)"
      using up(2) by (simp add: poll_handler_def deliver_def set_conn_def mA_def)
    moreover have "get_connection_for_event [(0, ?cA)] ?ev2 (a_cid la) = Some (0, ?cA)"
      using mt(2) by (simp add: get_connection_for_event_def matches_connection_def)
    ultimately show ?thesis
      using rd(2) fh(2) by (simp add: mgr_poll_def wire_manager_def wire_poll_def handle_buffer_def Let_def)
  qed
  have os: "open_stream la lb capA capB =
     (\<lparr>e_cid = a_cid la, e_port = a_port la, e_mgr = mA\<lparr>connections := [(0, ?cA)]\<rparr>, e_sent = [], e_got = []\<rparr>,
      \<lparr>e_cid = a_cid lb, e_port = a_port lb, e_mgr = mB, e_sent = [], e_got = []\<rparr>, [], [])"
    by (simp add: open_stream_def 1 2 3)
  have ok: "conn_ok ?cA" "conn_ok cB"
    using conn_ok_new [OF assms(1)] conn_ok_new [OF assms(2)] by (simp_all add: conn_ok_def cA_def cB_def)
  have info: "c_info ?cA = \<lparr>ci_dst = lb, ci_src_port = a_port la, peer_buf_alloc = capB, peer_fwd_cnt = 0, tx_cnt = 0,
      ci_buf_alloc = capA, ci_fwd_cnt = 0, has_pending_credit_request = False\<rparr>"
    "c_info cB = \<lparr>ci_dst = la, ci_src_port = a_port lb, peer_buf_alloc = capA, peer_fwd_cnt = 0, tx_cnt = 0,
      ci_buf_alloc = capB, ci_fwd_cnt = 0, has_pending_credit_request = False\<rparr>"
    "\<not> peer_requested_shutdown ?cA" "\<not> peer_requested_shutdown cB" "rb_list (c_buffer ?cA) = []" "rb_list (c_buffer cB) = []"
    using RingBuffer_new_ok by (simp_all add: cA_def cB_def Connection_new_def ConnectionInfo_new_def rb_list_def RingBuffer_new_def)
  have cr: "credit_inv 0 [] 0 0 cap" for cap unfolding credit_inv_def by (intro exI [of _ 0] exI [of _ "[]"]) simp
  have "net_inv (open_stream la lb capA capB)" unfolding os net_inv_def prod.case
    by (rule exI [of _ ?cA], rule exI [of _ cB])
       (use ok info cr in \<open>auto simp: single_def dir_inv_def e_addr_def mB_def\<close>)
  with os show ?thesis by blast
qed

lemma open_stream_inv: "0 < capA \<Longrightarrow> 0 < capB \<Longrightarrow> net_inv (open_stream la lb capA capB)"
  using open_stream_run by blast

lemma poll_all:
  assumes "net_inv (a, b, ab, ba)" "ba = ps @ [p]"
    and "net_run (replicate (length ba) (True, EPoll)) (a, b, ab, ba) = (g, (a', b', ab', ba'))"
  shows "b' = b \<and> ba' = [] \<and> e_sent a' = e_sent a \<and>
    (\<exists>ca. single a' (e_addr b) ca \<and> peer_fwd_cnt (c_info ca) = h_fwd_cnt (fst p) \<and> (\<exists>cb. single b (e_addr a') cb \<and> dir_inv a' ca b cb ab' []))"
  using assms
proof (induction ps arbitrary: a ab ba g)
  case Nil
  obtain g1 a1 ba1 ab1 where x: "ep_exec EPoll (e_addr b) (a, ba, ab) = (g1, (a1, ba1, ab1))" by (metis surj_pair)
  from Nil.prems(1) obtain ca cb where i: "single a (e_addr b) ca" "single b (e_addr a) cb" "dir_inv a ca b cb ab ba" "dir_inv b cb a ca ba ab"
    by (auto simp: net_inv_def)
  from exec_poll [OF i x] Nil.prems(2,3) x i(2) show ?case by (auto split: prod.splits)
next
  case (Cons q ps)
  obtain g1 a1 ba1 ab1 where x: "ep_exec EPoll (e_addr b) (a, ba, ab) = (g1, (a1, ba1, ab1))" by (metis surj_pair)
  from Cons.prems(1) obtain ca cb where i: "single a (e_addr b) ca" "single b (e_addr a) cb" "dir_inv a ca b cb ab ba" "dir_inv b cb a ca ba ab"
    by (auto simp: net_inv_def)
  have n: "net_inv (a1, b, ab1, ba1)" using exec_ok [OF i x] by blast
  have t: "ba1 = ps @ [p]" "e_sent a1 = e_sent a" using exec_poll [OF i x] Cons.prems(2) by auto
  obtain g2 where "net_run (replicate (length ba1) (True, EPoll)) (a1, b, ab1, ba1) = (g2, (a', b', ab', ba'))"
    using Cons.prems(2,3) x t(1) by (auto split: prod.splits)
  from Cons.IH [OF n t(1) this] t(2) show ?case by simp
qed

section \<open>Properties\<close>

definition demo_peer :: vsock_addr where "demo_peer = \<lparr>a_cid = 3, a_port = 7\<rparr>"

definition demo_mgr :: manager_inner where
  "demo_mgr = push_conn (Connection_new demo_peer 1 8) (manager_new_with_capacity 8)"

definition demo_req :: vsock_hdr where
  "demo_req = VirtioVsockHdr_default\<lparr>h_src_cid := 3, h_src_port := 7, h_dst_cid := 2, h_dst_port := 1, h_op := 1, h_buf_alloc := 9\<rparr>"

lemma demo_mgr_inv: "mgr_inv demo_mgr"
proof -
  have "mgr_inv (manager_new_with_capacity 8)" by (simp add: mgr_inv_def manager_new_with_capacity_def)
  then show ?thesis unfolding demo_mgr_def
    by (rule mgr_inv_push) (simp_all add: conn_ok_new manager_new_with_capacity_def)
qed

lemma demo_conn: "get_connection (connections demo_mgr) demo_peer 1 = Ok (0, Connection_new demo_peer 1 8)"
  by (simp add: demo_mgr_def push_conn_def manager_new_with_capacity_def get_connection_def is_conn_def Connection_new_def ConnectionInfo_new_def)

text \<open>
  C20. A vsock stream is reliable. After \<^verbatim>\<open>connect\<close>, \<^verbatim>\<open>accept\<close> and the answer, whatever the two clients send,
  receive, poll and update in whatever order and whatever amount: no call fails except for lack of
  credit, so in particular no packet is ever dropped because the receiver's buffer is too small; and
  on both directions the bytes sent are the bytes read, followed by those in the receiver's buffer,
  followed by those in flight.
\<close>

theorem vsock_stream_reliable:
  assumes "0 < capA" "0 < capB" "net_run ops (open_stream la lb capA capB) = (ok, (a, b, ab, ba))"
  shows "ok \<and> (\<exists>ca cb. single a (e_addr b) ca \<and> single b (e_addr a) cb
    \<and> e_sent a = e_got b @ rb_list (c_buffer cb) @ concat (map snd ab)
    \<and> e_sent b = e_got a @ rb_list (c_buffer ca) @ concat (map snd ba))"
proof -
  from net_run_ok [OF open_stream_inv [OF assms(1,2)] assms(3)] obtain ca cb where
    "ok" "single a (e_addr b) ca" "single b (e_addr a) cb" "dir_inv a ca b cb ab ba" "dir_inv b cb a ca ba ab"
    by (auto simp: net_inv_def)
  then show ?thesis by (intro conjI exI [of _ ca] exI [of _ cb]) (auto simp: dir_inv_def)
qed

theorem vsock_stream_reliable_witness:
  "\<exists>a b ab ba. net_run [(True, ESend [1, 2, 3]), (False, EPoll), (False, ERecv 2)] (open_stream demo_peer \<lparr>a_cid = 2, a_port = 1\<rparr> 8 8) = (True, (a, b, ab, ba))
     \<and> (\<exists>cb :: connection. e_sent a = e_got b @ rb_list (c_buffer cb) @ concat (map snd ab))"
proof -
  obtain ok a b ab ba where r: "net_run [(True, ESend [1, 2, 3]), (False, EPoll), (False, ERecv 2)] (open_stream demo_peer \<lparr>a_cid = 2, a_port = 1\<rparr> 8 8) = (ok, (a, b, ab, ba))"
    by (metis surj_pair)
  have 8: "0 < (8 :: u32)" by simp
  from vsock_stream_reliable [OF 8 8 r] have "ok"
    and "\<exists>cb :: connection. e_sent a = e_got b @ rb_list (c_buffer cb) @ concat (map snd ab)" by iprover+
  then have "ok = True" "\<exists>cb :: connection. e_sent a = e_got b @ rb_list (c_buffer cb) @ concat (map snd ab)" by simp_all
  then show ?thesis using r by (intro exI [of _ a] exI [of _ b] exI [of _ ab] exI [of _ ba]) simp
qed



text \<open>
  C25. \<^verbatim>\<open>recv\<close> returns the oldest bytes of the connection, at most as many as asked for, keeps the rest and
  counts what it returned as forwarded. If the peer had requested a shutdown and this empties the
  buffer, the connection is removed and a reset is sent.
\<close>

theorem mgr_recv_correct:
  assumes "mgr_inv m" "get_connection (connections m) peer port = Ok (i, c)"
  shows "\<exists>c'. rb_list (c_buffer c') = drop n (rb_list (c_buffer c))
    \<and> ci_fwd_cnt (c_info c') = ci_fwd_cnt (c_info c) + of_nat (min n (length (rb_list (c_buffer c))))
    \<and> (if peer_requested_shutdown c \<and> length (rb_list (c_buffer c)) \<le> n
       then mgr_recv M peer port n (s, m)
         = (case sk_force_close M c' s of (r, s') \<Rightarrow> (bind_ok r (\<lambda>_. Ok (take n (rb_list (c_buffer c)))), (s', remove_conn i (set_conn i c' m))))
       else mgr_recv M peer port n (s, m) = (Ok (take n (rb_list (c_buffer c))), (s, set_conn i c' m)))"
proof -
  have i: "i < length (connections m)" "c = snd (connections m ! i)" using get_connection_Ok [OF assms(2)] by auto
  have ok: "conn_ok c" using assms(1) i by (auto simp: mgr_inv_def)
  let ?l = "rb_list (c_buffer c)"
  from rbq.drain_law [of "c_buffer c" n] ok obtain b where d: "RingBuffer_drain n (c_buffer c) = (Ok (take n ?l), b)"
    "rb_ok b" "rb_list b = drop n ?l" by (auto simp: conn_ok_def)
  have e: "RingBuffer_is_empty b \<longleftrightarrow> length ?l \<le> n"
    using length_rb_list [OF d(2)] d(3) by (auto simp: RingBuffer_is_empty_def)
  define c' where "c' = c\<lparr>c_buffer := b, c_info := done_forwarding (length (take n ?l)) (c_info c)\<rparr>"
  show ?thesis
    by (rule exI [of _ c'])
       (use d(1,3) e assms(2) in \<open>auto simp: c'_def done_forwarding_def mgr_recv_def Let_def lift_then_def min.commute
          split: prod.splits outcome.split\<close>)
qed

theorem mgr_recv_correct_witness:
  "fst (mgr_recv wire_manager demo_peer 1 4 (\<lparr>w_cid = 2, w_in = [], w_out = []\<rparr>, demo_mgr)) = Ok []"
  using mgr_recv_correct [OF demo_mgr_inv demo_conn, of 4 wire_manager "\<lparr>w_cid = 2, w_in = [], w_out = []\<rparr>"]
  by (auto simp: Connection_new_def rb_list_def RingBuffer_new_def split: if_splits)

text \<open>
  C26. A connection request for a connection that already exists is not ignored, contrary to the comment in
  \<^verbatim>\<open>poll\<close>: if its port is not one we listen on, as with a connection we opened, the existing connection is
  removed with the data in its buffer, the peer gets a reset, and the client is not told.
\<close>

theorem duplicate_request_closes:
  assumes "mgr_inv m" "w_in w = (h, []) # ps" "h_len h = 0" "from_header h = Ok ev" "ev_type ev = ConnectionRequest"
    and "get_connection_for_event (connections m) ev (w_cid w) = Some (i, c)"
    and "a_port (ev_destination ev) \<notin> set (listening_ports m)"
  shows "\<exists>c'. ci_dst (c_info c') = ci_dst (c_info c) \<and> c_buffer c' = c_buffer c \<and>
    mgr_poll wire_manager (w, m) = (Ok None,
      (w\<lparr>w_in := ps, w_out := w_out w @ [((new_header (w_cid w) (c_info c'))\<lparr>h_op := VirtioVsockOp_code Op_Rst\<rparr>, [])]\<rparr>,
       remove_conn i (set_conn i c' m)))"
proof -
  have rd: "read_header_and_body (hdr_as_bytes h) = Ok (h, [])"
    using assms(3) by (subst read_header_and_body_Ok) simp
  from get_event_Some [OF assms(6)] have i: "i < length (connections m)" "c = snd (connections m ! i)" by auto
  define c' where "c' = c\<lparr>c_info := update_for_event ev (c_info c)\<rparr>"
  have d: "poll_handler (w_cid w) ev [] m = (Ok (Some ev), set_conn i c' m)"
    using assms(5,6) i by (simp add: poll_handler_def deliver_def c'_def Let_def)
  have g: "get_connection_for_event (connections (set_conn i c' m)) ev (w_cid w) = Some (i, c')"
    by (rule event_after_set [OF assms(1,6)]) (simp_all add: c'_def)
  have "listening_ports (set_conn i c' m) = listening_ports m" by (simp add: set_conn_def)
  then show ?thesis
    using rd d g assms(2,4,5,7)
    by (intro exI [of _ c']) (simp add: mgr_poll_def wire_manager_def wire_poll_def handle_buffer_def sk_force_close_def wire_send_def Let_def c'_def)
qed

theorem duplicate_request_closes_witness:
  "\<exists>w' c'. mgr_poll wire_manager (\<lparr>w_cid = 2, w_in = [(demo_req, [])], w_out = []\<rparr>, demo_mgr) = (Ok None, (w', remove_conn 0 (set_conn 0 c' demo_mgr)))"
proof -
  let ?ev = "\<lparr>ev_source = demo_peer, ev_destination = \<lparr>a_cid = 2, a_port = 1\<rparr>,
     ev_buffer_status = \<lparr>buffer_allocation = 9, forward_count = 0\<rparr>, ev_type = ConnectionRequest, ev_new_connection = None\<rparr>"
  let ?w = "\<lparr>w_cid = 2, w_in = [(demo_req, [])], w_out = []\<rparr>"
  have fh: "from_header demo_req = Ok ?ev"
    by (simp add: demo_req_def from_header_def hdr_op_def VirtioVsockOp_try_from_def check_data_is_empty_def Let_def
        VirtioVsockHdr_default_def hdr_source_def hdr_destination_def demo_peer_def)
  have g: "get_connection_for_event (connections demo_mgr) ?ev (w_cid ?w) = Some (0, Connection_new demo_peer 1 8)"
    by (simp add: demo_mgr_def push_conn_def manager_new_with_capacity_def get_connection_for_event_def matches_connection_def
        Connection_new_def ConnectionInfo_new_def)
  have "w_in ?w = (demo_req, []) # []" "h_len demo_req = 0" "ev_type ?ev = ConnectionRequest"
    "a_port (ev_destination ?ev) \<notin> set (listening_ports demo_mgr)"
    by (simp_all add: demo_req_def VirtioVsockHdr_default_def demo_mgr_def push_conn_def manager_new_with_capacity_def)
  from duplicate_request_closes [OF demo_mgr_inv this(1,2) fh this(3) g this(4)] show ?thesis by blast
qed

end
