(* ===== verification/Vsock_Api.thy ===== *)
theory Vsock_Api
  imports Vsock_Manager_Inv Device_Queue_Props
begin

text \<open>
  The public types of src/src/device/socket/connectionmanager.rs: \<^verbatim>\<open>VsockConnectionManager\<close> over the
  driver, \<^verbatim>\<open>VsockDeviceConnectionManager\<close> over the device, and their common trait \<^verbatim>\<open>VsockManager\<close> as a
  dictionary. Inherent methods forward to the common manager, trait methods to the inherent ones.
\<close>

section \<open>The trait\<close>

record 's vsock_manager =
  v_accept :: "connection \<Rightarrow> 's \<times> manager_inner \<Rightarrow> unit result \<times> ('s \<times> manager_inner)"
  v_connect :: "vsock_addr \<Rightarrow> u32 \<Rightarrow> 's \<times> manager_inner \<Rightarrow> unit result \<times> ('s \<times> manager_inner)"
  v_send :: "vsock_addr \<Rightarrow> u32 \<Rightarrow> bytes \<Rightarrow> 's \<times> manager_inner \<Rightarrow> unit result \<times> ('s \<times> manager_inner)"
  v_update_credit :: "vsock_addr \<Rightarrow> u32 \<Rightarrow> 's \<times> manager_inner \<Rightarrow> unit result \<times> ('s \<times> manager_inner)"
  v_force_close :: "vsock_addr \<Rightarrow> u32 \<Rightarrow> 's \<times> manager_inner \<Rightarrow> unit result \<times> ('s \<times> manager_inner)"
  v_listen :: "u32 \<Rightarrow> 's \<times> manager_inner \<Rightarrow> unit result \<times> ('s \<times> manager_inner)"
  v_poll :: "'s \<times> manager_inner \<Rightarrow> vsock_event option result \<times> ('s \<times> manager_inner)"
  v_poll_direct :: "'s \<times> manager_inner \<Rightarrow> vsock_event option result \<times> ('s \<times> manager_inner)"
  v_local_cid :: "'s \<times> manager_inner \<Rightarrow> u64"
  v_shutdown :: "vsock_addr \<Rightarrow> u32 \<Rightarrow> 's \<times> manager_inner \<Rightarrow> unit result \<times> ('s \<times> manager_inner)"
  v_recv :: "vsock_addr \<Rightarrow> u32 \<Rightarrow> nat \<Rightarrow> 's \<times> manager_inner \<Rightarrow> bytes result \<times> ('s \<times> manager_inner)"
  v_recv_buffer_available_bytes :: "vsock_addr \<Rightarrow> u32 \<Rightarrow> 's \<times> manager_inner \<Rightarrow> nat result"
  v_ack_interrupt :: "'s \<times> manager_inner \<Rightarrow> u32 result \<times> ('s \<times> manager_inner)"

text \<open>\<^verbatim>\<open>VsockConnectionManagerCommon::local_cid\<close>\<close>

definition mgr_local_cid :: "('s, 'i) socket_manager \<Rightarrow> 's \<times> manager_inner \<Rightarrow> u64" where
  "mgr_local_cid M sm = sm_local_cid M (fst sm)"

section \<open>The driver's side\<close>

definition VirtIOSocket_ack_interrupt :: "'t drv_env \<Rightarrow> 't vsock \<Rightarrow> u32 result \<times> 't vsock" where
  "VirtIOSocket_ack_interrupt E v =
     (case t_ack_interrupt_raw (de_T E) (vs_transport v) of (r, t) \<Rightarrow> (r, v\<lparr>vs_transport := t\<rparr>))"

definition VsockConnectionManager_ack_interrupt ::
  "'t drv_env \<Rightarrow> 't vsock \<times> manager_inner \<Rightarrow> u32 result \<times> ('t vsock \<times> manager_inner)"
where
  "VsockConnectionManager_ack_interrupt E sm =
     (case VirtIOSocket_ack_interrupt E (fst sm) of (r, s) \<Rightarrow> (r, (s, snd sm)))"

definition VsockConnectionManager_trait :: "'t drv_env \<Rightarrow> 't vsock vsock_manager" where
  "VsockConnectionManager_trait E =
     (let M = VirtIOSocket_manager E
      in \<lparr>v_accept = mgr_accept M, v_connect = mgr_connect (VirtIOSocket_connect E), v_send = mgr_send M,
          v_update_credit = mgr_update_credit M, v_force_close = mgr_force_close M,
          v_listen = (\<lambda>port (s, m). (Ok (), (s, mgr_listen port m))),
          v_poll = mgr_poll M, v_poll_direct = mgr_poll_direct M, v_local_cid = mgr_local_cid M,
          v_shutdown = mgr_shutdown M, v_recv = mgr_recv M,
          v_recv_buffer_available_bytes = (\<lambda>peer port (s, m). recv_buffer_available_bytes peer port m),
          v_ack_interrupt = VsockConnectionManager_ack_interrupt E\<rparr>)"

section \<open>The device's side\<close>

text \<open>
  \<^verbatim>\<open>connect\<close> is an \<^verbatim>\<open>unreachable!\<close> and \<^verbatim>\<open>ack_interrupt\<close> a \<^verbatim>\<open>panic!\<close> on this side.
\<close>

definition VsockDeviceConnectionManager_trait :: "'t dev_env \<Rightarrow> 't vsock_device vsock_manager" where
  "VsockDeviceConnectionManager_trait E =
     (let M = VirtIOSocketDevice_manager E
      in \<lparr>v_accept = mgr_accept M, v_connect = (\<lambda>destination src_port sm. (Panic, sm)), v_send = mgr_send M,
          v_update_credit = mgr_update_credit M, v_force_close = mgr_force_close M,
          v_listen = (\<lambda>port (s, m). (Ok (), (s, mgr_listen port m))),
          v_poll = mgr_poll M, v_poll_direct = mgr_poll_direct M, v_local_cid = mgr_local_cid M,
          v_shutdown = mgr_shutdown M, v_recv = mgr_recv M,
          v_recv_buffer_available_bytes = (\<lambda>peer port (s, m). recv_buffer_available_bytes peer port m),
          v_ack_interrupt = (\<lambda>sm. (Panic, sm))\<rparr>)"

section \<open>Accepting connections through the direct interface\<close>

text \<open>
  A server that uses \<^verbatim>\<open>poll_direct\<close> and accepts the connection of every request that is not in the list
  yet: one turn of its loop.
\<close>

definition direct_server :: "'s vsock_manager \<Rightarrow> 's \<times> manager_inner \<Rightarrow> unit result \<times> ('s \<times> manager_inner)" where
  "direct_server V sm =
     and_then (v_poll_direct V sm) (\<lambda>r sm.
       case r of
         None \<Rightarrow> (Ok (), sm)
       | Some ev \<Rightarrow>
           (case ev_new_connection ev of
              None \<Rightarrow> (Ok (), sm)
            | Some c \<Rightarrow>
                (case v_recv_buffer_available_bytes V (ci_dst (c_info c)) (ci_src_port (c_info c)) sm of
                   Ok _ \<Rightarrow> (Ok (), sm)
                 | _ \<Rightarrow> v_accept V c sm)))"

definition demo_dev_env :: "nat dev_env" where
  "demo_dev_env = \<lparr>dd_T = demo_dtransport, dd_H = demo_dhal, dd_fuel = 4, dd_wait = (\<lambda>q. [])\<rparr>"

definition demo_vsock_device :: "nat vsock_device" where
  "demo_vsock_device = \<lparr>vd_transport = 0, vd_rx = demo_dvq demo_mem, vd_tx = demo_dvq demo_mem, vd_event = demo_dvq demo_mem\<rparr>"

lemma from_header_plain: "from_header h = Ok e \<Longrightarrow> ev_new_connection e = None"
  by (auto simp: from_header_def Let_def bind_ok_Ok_iff)

text \<open>Outside of requests the callback passes the event on as it is.\<close>

lemma poll_direct_handler_other:
  assumes "mgr_inv m" "ev_type e \<noteq> ConnectionRequest" "poll_direct_handler cid e body m = (Ok (Some ev), m')"
  shows "ev = e"
proof (cases "get_connection_for_event (connections m) e cid")
  case None
  with assms show ?thesis by (simp add: poll_direct_handler_def split: if_splits)
next
  case (Some p)
  then obtain i c where g: "get_connection_for_event (connections m) e cid = Some (i, c)" by (cases p) simp
  then have "i < length (connections m)" using get_event_Some by blast
  then obtain r m'' where d: "deliver e body i m = (r, m'')" "r = Ok (Some e) \<or> (\<exists>x. r = Err x)"
    using deliver_ok [OF assms(1), of i e body] by blast
  from assms(2,3) g d show ?thesis by (simp add: poll_direct_handler_def split: if_splits) auto
qed

context manager_driver
begin

lemma poll_direct_new_connection:
  assumes "mgr_inv m" "mgr_poll_direct M (s, m) = (Ok (Some ev), (s', m'))" "ev_new_connection ev = Some c"
  shows "conn_ok c \<and> a_cid (ev_destination ev) = sm_local_cid M s \<and> ci_dst (c_info c) = ev_source ev
    \<and> ci_src_port (c_info c) = a_port (ev_destination ev) \<and> ci_src_port (c_info c) \<in> set (listening_ports m) \<and> m' = m"
proof -
  let ?cid = "sm_local_cid M s"
  from poll_once [OF assms(2) [unfolded mgr_poll_direct_def fst_conv]]
  obtain h e body where f: "from_header h = Ok e" and d: "poll_direct_handler ?cid e body m = (Ok (Some ev), m')"
    by (auto simp: no_event_def)
  have e: "ev_new_connection e = None" using f by (rule from_header_plain)
  show ?thesis
  proof (cases "ev_type e = ConnectionRequest")
    case True
    let ?n = "Connection_new (ev_source e) (a_port (ev_destination e)) (per_connection_buffer_capacity m)"
    have "conn_ok ?n" using assms(1) by (simp add: conn_ok_new mgr_inv_def)
    then have "conn_ok (?n\<lparr>c_info := update_for_event e (c_info ?n)\<rparr>)" by (simp add: conn_ok_def)
    with True d assms(3) show ?thesis
      by (auto simp: poll_direct_handler_def Let_def Connection_new_def ConnectionInfo_new_def split: if_splits)
  next
    case False
    then have "ev = e" using poll_direct_handler_other [OF assms(1) _ d] by simp
    with e assms(3) show ?thesis by simp
  qed
qed

text \<open>The trait's operations that the server calls, for any socket.\<close>

lemma direct_server_inv:
  assumes "mgr_inv m" "v_poll_direct V = mgr_poll_direct M" "v_accept V = mgr_accept M"
    "v_recv_buffer_available_bytes V = (\<lambda>peer port (s, m). recv_buffer_available_bytes peer port m)"
  shows "mgr_inv (snd (snd (direct_server V (s, m))))"
proof -
  obtain r s' m' where p: "mgr_poll_direct M (s, m) = (r, (s', m'))" by (metis surj_pair)
  then have inv: "mgr_inv m'" using mgr_poll_direct_inv [OF assms(1), of s] by simp
  show ?thesis
  proof (cases "\<exists>ev c. r = Ok (Some ev) \<and> ev_new_connection ev = Some c")
    case True
    then obtain ev c where ev: "r = Ok (Some ev)" "ev_new_connection ev = Some c" by blast
    let ?d = "ci_dst (c_info c)" and ?p = "ci_src_port (c_info c)"
    have "conn_ok c" using poll_direct_new_connection [OF assms(1) p [unfolded ev(1)] ev(2)] by simp
    then have acc: "mgr_inv (snd (snd (mgr_accept M c (s', m'))))" if "\<forall>q\<in>set (connections m'). \<not> is_conn ?d ?p q"
      using mgr_accept_inv [OF inv _ that] by simp
    have run: "direct_server V (s, m) = (case recv_buffer_available_bytes ?d ?p m' of Ok _ \<Rightarrow> (Ok (), (s', m')) | _ \<Rightarrow> mgr_accept M c (s', m'))"
      using p ev assms(2-) by (simp add: direct_server_def split: outcome.split)
    from get_connection_cases [of "connections m'" ?d ?p] show ?thesis
    proof
      assume "\<exists>i c. get_connection (connections m') ?d ?p = Ok (i, c)"
      with run inv show ?thesis by (auto simp: recv_buffer_available_bytes_def)
    next
      assume "get_connection (connections m') ?d ?p = Err (SocketDeviceError NotConnected) \<and> (\<forall>q\<in>set (connections m'). \<not> is_conn ?d ?p q)"
      with run acc show ?thesis by (simp add: recv_buffer_available_bytes_def)
    qed
  next
    case False
    then have "(snd (direct_server V (s, m))) = (s', m')"
      using p assms(2) by (cases r) (auto simp: direct_server_def split: option.split)
    with inv show ?thesis by simp
  qed
qed

end



end
