(* ===== verification/Pci_Bus.thy ===== *)
theory Pci_Bus
  imports Transport
begin


text \<open>
  The PCI bus, src/src/transport/pci/bus.rs: access to configuration space, enumeration of the
  functions on a bus, capabilities and base address registers.

  The trait \<^verbatim>\<open>ConfigurationAccess\<close> is a dictionary over a state; an access is \<open>None\<close> when it panics. A
  clone made by \<^verbatim>\<open>unsafe_clone\<close> accesses the same bus, so it is the same state. The memory-mapped
  implementation runs over a device that answers reads from the history of accesses. An arithmetic
  overflow is a panic, as in a build with overflow checks.
\<close>

section \<open>Constants and data\<close>

definition INVALID_READ :: u32 where "INVALID_READ = 0xffffffff"
definition MAX_DEVICES :: u8 where "MAX_DEVICES = 32"
definition MAX_FUNCTIONS :: u8 where "MAX_FUNCTIONS = 8"
definition STATUS_COMMAND_OFFSET :: u8 where "STATUS_COMMAND_OFFSET = 0x04"
definition BAR0_OFFSET :: u8 where "BAR0_OFFSET = 0x10"
definition PCI_CAP_ID_VNDR :: u8 where "PCI_CAP_ID_VNDR = 0x09"

text \<open>The flags of the status register, bits 3 to 5, 7, 8 and 11 to 15, and of the command register.\<close>

definition PciStatus_all :: u16 where
  "PciStatus_all =
     push_bit 3 1 OR push_bit 4 1 OR push_bit 5 1 OR push_bit 7 1 OR push_bit 8 1 OR push_bit 11 1
     OR push_bit 12 1 OR push_bit 13 1 OR push_bit 14 1 OR push_bit 15 1"

definition PciStatus_CAPABILITIES_LIST :: u16 where "PciStatus_CAPABILITIES_LIST = push_bit 4 1"

definition PciCommand_all :: u16 where
  "PciCommand_all =
     push_bit 0 1 OR push_bit 1 1 OR push_bit 2 1 OR push_bit 3 1 OR push_bit 4 1 OR push_bit 5 1
     OR push_bit 6 1 OR push_bit 8 1 OR push_bit 9 1 OR push_bit 10 1"

datatype PciError = InvalidBarType

datatype Cam = MmioCam | Ecam

record device_function =
  df_bus :: u8
  df_device :: u8
  df_function :: u8

definition DeviceFunction_valid :: "device_function \<Rightarrow> bool" where
  "DeviceFunction_valid df \<longleftrightarrow> df_device df < 32 \<and> df_function df < 8"

datatype MemoryBarType = Width32 | Below1MiB | Width64

fun MemoryBarType_to_u8 :: "MemoryBarType \<Rightarrow> u8" where
  "MemoryBarType_to_u8 Width32 = 0"
| "MemoryBarType_to_u8 Below1MiB = 1"
| "MemoryBarType_to_u8 Width64 = 2"

definition MemoryBarType_try_from :: "u8 \<Rightarrow> (PciError, MemoryBarType) outcome" where
  "MemoryBarType_try_from v =
     (if v = 0 then Ok Width32 else if v = 1 then Ok Below1MiB else if v = 2 then Ok Width64 else Err InvalidBarType)"

text \<open>\<^verbatim>\<open>Memory { address_type, prefetchable, address, size }\<close> and \<^verbatim>\<open>IO { address, size }\<close>.\<close>

datatype BarInfo = BarMemory MemoryBarType bool u64 u32 | BarIO u32 u32

fun takes_two_entries :: "BarInfo \<Rightarrow> bool" where
  "takes_two_entries (BarMemory address_type _ _ _) = (address_type = Width64)"
| "takes_two_entries (BarIO _ _) = False"

fun memory_address_size :: "BarInfo \<Rightarrow> (u64 \<times> u32) option" where
  "memory_address_size (BarMemory _ _ address n) = Some (address, n)"
| "memory_address_size (BarIO _ _) = None"

datatype HeaderType = Standard | PciPciBridge | PciCardbusBridge | Unrecognised u8

definition HeaderType_from :: "u8 \<Rightarrow> HeaderType" where
  "HeaderType_from v =
     (if v = 0x00 then Standard else if v = 0x01 then PciPciBridge else if v = 0x02 then PciCardbusBridge
      else Unrecognised v)"

record device_function_info =
  vendor_id :: u16
  device_id :: u16
  pci_class :: u8
  pci_subclass :: u8
  prog_if :: u8
  revision :: u8
  header_type :: HeaderType

record capability_info =
  cap_offset :: u8
  cap_id :: u8
  private_header :: u16

section \<open>Access to configuration space\<close>

fun Cam_size :: "Cam \<Rightarrow> u32" where
  "Cam_size MmioCam = 0x1000000"
| "Cam_size Ecam = 0x10000000"

fun Cam_shift :: "Cam \<Rightarrow> nat" where
  "Cam_shift MmioCam = 8"
| "Cam_shift Ecam = 12"

definition cam_offset :: "Cam \<Rightarrow> device_function \<Rightarrow> u8 \<Rightarrow> u32 option" where
  "cam_offset cam df register_offset =
     (if \<not> DeviceFunction_valid df then None
      else let bdf = push_bit 8 (ucast (df_bus df)) OR push_bit 3 (ucast (df_device df)) OR ucast (df_function df);
               address = push_bit (Cam_shift cam) bdf OR ucast register_offset
           in if \<not> address < Cam_size cam then None
              else if address AND 0x3 \<noteq> 0 then None
              else Some address)"

record 'c config_access =
  ca_read_word :: "device_function \<Rightarrow> u8 \<Rightarrow> 'c \<Rightarrow> u32 option \<times> 'c"
  ca_write_word :: "device_function \<Rightarrow> u8 \<Rightarrow> u32 \<Rightarrow> 'c \<Rightarrow> unit option \<times> 'c"

definition or_panic :: "'a option \<times> 'c \<Rightarrow> ('e, 'a) outcome \<times> 'c" where
  "or_panic r = ((case fst r of Some a \<Rightarrow> Ok a | None \<Rightarrow> Panic), snd r)"

definition read_word :: "'c config_access \<Rightarrow> device_function \<Rightarrow> u8 \<Rightarrow> 'c \<Rightarrow> ('e, u32) outcome \<times> 'c" where
  "read_word C df off c = or_panic (ca_read_word C df off c)"

definition write_word :: "'c config_access \<Rightarrow> device_function \<Rightarrow> u8 \<Rightarrow> u32 \<Rightarrow> 'c \<Rightarrow> ('e, unit) outcome \<times> 'c" where
  "write_word C df off v c = or_panic (ca_write_word C df off v c)"

text \<open>
  \<^verbatim>\<open>MmioCam\<close>: the word at an index of the mapped region is read and written with volatile accesses.
\<close>

datatype cam_event = CamRead nat u32 | CamWrite nat u32

type_synonym cam_dev = "cam_event list \<Rightarrow> nat \<Rightarrow> u32"

record mmio_cam =
  mmio_base :: u64
  mc_cam :: Cam
  cam_trace :: "cam_event list"

definition MmioCam_new :: "u64 \<Rightarrow> Cam \<Rightarrow> mmio_cam option" where
  "MmioCam_new base cam = (if base AND 0x3 \<noteq> 0 then None else Some \<lparr>mmio_base = base, mc_cam = cam, cam_trace = []\<rparr>)"

definition MmioCam_read_word :: "cam_dev \<Rightarrow> device_function \<Rightarrow> u8 \<Rightarrow> mmio_cam \<Rightarrow> u32 option \<times> mmio_cam" where
  "MmioCam_read_word D df off c =
     (case cam_offset (mc_cam c) df off of
        None \<Rightarrow> (None, c)
      | Some address \<Rightarrow>
          let i = unat (drop_bit 2 address); v = D (cam_trace c) i
          in (Some v, c\<lparr>cam_trace := cam_trace c @ [CamRead i v]\<rparr>))"

definition MmioCam_write_word :: "device_function \<Rightarrow> u8 \<Rightarrow> u32 \<Rightarrow> mmio_cam \<Rightarrow> unit option \<times> mmio_cam" where
  "MmioCam_write_word df off v c =
     (case cam_offset (mc_cam c) df off of
        None \<Rightarrow> (None, c)
      | Some address \<Rightarrow> (Some (), c\<lparr>cam_trace := cam_trace c @ [CamWrite (unat (drop_bit 2 address)) v]\<rparr>))"

definition mmio_cam_access :: "cam_dev \<Rightarrow> mmio_cam config_access" where
  "mmio_cam_access D = \<lparr>ca_read_word = MmioCam_read_word D, ca_write_word = MmioCam_write_word\<rparr>"

section \<open>The root complex\<close>

definition get_status_command :: "'c config_access \<Rightarrow> device_function \<Rightarrow> 'c \<Rightarrow> ('e, u16 \<times> u16) outcome \<times> 'c" where
  "get_status_command C df c =
     and_then (read_word C df STATUS_COMMAND_OFFSET c) (\<lambda>status_command c.
       (Ok (from_bits_truncate PciStatus_all (ucast (drop_bit 16 status_command)),
            from_bits_truncate PciCommand_all (ucast status_command)), c))"

definition set_command :: "'c config_access \<Rightarrow> device_function \<Rightarrow> u16 \<Rightarrow> 'c \<Rightarrow> ('e, unit) outcome \<times> 'c" where
  "set_command C df command c = write_word C df STATUS_COMMAND_OFFSET (ucast command) c"

text \<open>\<^verbatim>\<open>BAR0_OFFSET + 4 * bar_index\<close> in 8 bits.\<close>

definition bar_register :: "u8 \<Rightarrow> ('e, u8) outcome" where
  "bar_register i = (if 16 + 4 * unat i < 256 then Ok (BAR0_OFFSET + 4 * i) else Panic)"

definition bar_info :: "'c config_access \<Rightarrow> device_function \<Rightarrow> u8 \<Rightarrow> 'c \<Rightarrow> (PciError, BarInfo) outcome \<times> 'c" where
  "bar_info C df bar_index c =
     and_then (bar_register bar_index, c) (\<lambda>reg c.
     and_then (read_word C df reg c) (\<lambda>bar_orig c.
     and_then (write_word C df reg 0xffffffff c) (\<lambda>_ c.
     and_then (read_word C df reg c) (\<lambda>size_mask c.
     let n = NOT (size_mask AND 0xfffffff0) + 1
     in and_then (write_word C df reg bar_orig c) (\<lambda>_ c.
        if bar_orig AND 0x00000001 = 0x00000001 then (Ok (BarIO (bar_orig AND 0xfffffffc) n), c)
        else let address = (ucast (bar_orig AND 0xfffffff0) :: u64);
                 prefetchable = (bar_orig AND 0x00000008 \<noteq> 0)
             in and_then (MemoryBarType_try_from (ucast (drop_bit 1 (bar_orig AND 0x00000006))), c) (\<lambda>address_type c.
                if address_type = Width64
                then if bar_index \<ge> 5 then (Err InvalidBarType, c)
                     else and_then (bar_register (bar_index + 1), c) (\<lambda>reg c.
                          and_then (read_word C df reg c) (\<lambda>address_top c.
                            (Ok (BarMemory address_type prefetchable (address OR push_bit 32 (ucast address_top)) n), c)))
                else (Ok (BarMemory address_type prefetchable address n), c)))))))"

function bars_loop ::
  "'c config_access \<Rightarrow> device_function \<Rightarrow> u8 \<Rightarrow> BarInfo option list \<Rightarrow> 'c \<Rightarrow> (PciError, BarInfo option list) outcome \<times> 'c"
where
  "bars_loop C df bar_index bars c =
     (if bar_index < 6
      then and_then (bar_info C df bar_index c) (\<lambda>info c.
             bars_loop C df (bar_index + (if takes_two_entries info then 2 else 1)) (bars[unat bar_index := Some info]) c)
      else (Ok bars, c))"
  by pat_completeness auto
termination
proof (relation "measure (\<lambda>(C, df, i, bars, c). 6 - unat (i :: u8))")
  fix i :: u8 and info :: BarInfo
  assume "i < 6"
  then have "unat i < 6" by (simp add: word_less_nat_alt)
  then have "unat (i + (if takes_two_entries info then 2 else 1)) = unat i + (if takes_two_entries info then 2 else 1)"
    by (auto simp: unat_word_ariths)
  then show "((C, df, i + (if takes_two_entries info then 2 else 1), bars', c'), (C, df, i, bars, c))
      \<in> measure (\<lambda>(C, df, i, bars, c). 6 - unat (i :: u8))" for C df bars bars' c c'
    using \<open>unat i < 6\<close> by auto
qed simp

definition pci_bars :: "'c config_access \<Rightarrow> device_function \<Rightarrow> 'c \<Rightarrow> (PciError, BarInfo option list) outcome \<times> 'c" where
  "pci_bars C df c = bars_loop C df 0 (replicate 6 None) c"

definition set_bar_32 :: "'c config_access \<Rightarrow> device_function \<Rightarrow> u8 \<Rightarrow> u32 \<Rightarrow> 'c \<Rightarrow> ('e, unit) outcome \<times> 'c" where
  "set_bar_32 C df bar_index address c =
     and_then (bar_register bar_index, c) (\<lambda>reg c. write_word C df reg address c)"

definition set_bar_64 :: "'c config_access \<Rightarrow> device_function \<Rightarrow> u8 \<Rightarrow> u64 \<Rightarrow> 'c \<Rightarrow> ('e, unit) outcome \<times> 'c" where
  "set_bar_64 C df bar_index address c =
     and_then (bar_register bar_index, c) (\<lambda>reg c.
     and_then (write_word C df reg (ucast address) c) (\<lambda>_ c.
     and_then (if bar_index = 255 then Panic else bar_register (bar_index + 1), c) (\<lambda>reg c.
       write_word C df reg (ucast (drop_bit 32 address)) c)))"

section \<open>Capabilities\<close>

definition capabilities_offset :: "'c config_access \<Rightarrow> device_function \<Rightarrow> 'c \<Rightarrow> ('e, u8 option) outcome \<times> 'c" where
  "capabilities_offset C df c =
     and_then (get_status_command C df c) (\<lambda>(status, _) c.
       if contains status PciStatus_CAPABILITIES_LIST
       then and_then (read_word C df 0x34 c) (\<lambda>w c. (Ok (Some (ucast (w AND 0xFC))), c))
       else (Ok None, c))"

text \<open>The iterator of \<^verbatim>\<open>capabilities\<close> is its \<^verbatim>\<open>next_capability_offset\<close>.\<close>

definition capabilities :: "'c config_access \<Rightarrow> device_function \<Rightarrow> 'c \<Rightarrow> ('e, u8 option) outcome \<times> 'c" where
  "capabilities C df c = capabilities_offset C df c"

definition CapabilityIterator_next ::
  "'c config_access \<Rightarrow> device_function \<Rightarrow> u8 option \<times> 'c \<Rightarrow> ('e, capability_info option) outcome \<times> (u8 option \<times> 'c)"
where
  "CapabilityIterator_next C df s =
     (case s of (nxt, c) \<Rightarrow>
       case nxt of
         None \<Rightarrow> (Ok None, (nxt, c))
       | Some offset \<Rightarrow>
           lift_then (read_word C df offset c) (\<lambda>c. (nxt, c)) (\<lambda>capability_header c.
             let cid = ucast capability_header;
                 next_offset = (ucast (drop_bit 8 capability_header) :: u8);
                 priv = ucast (drop_bit 16 capability_header);
                 nxt = (if next_offset = 0 then None
                        else if next_offset < 64 \<or> next_offset AND 0x3 \<noteq> 0 then None
                        else Some next_offset)
             in (Ok (Some \<lparr>cap_offset = offset, cap_id = cid, private_header = priv\<rparr>), (nxt, c))))"

section \<open>Enumeration\<close>

definition enumerate_bus :: "u8 \<Rightarrow> device_function" where
  "enumerate_bus bus = \<lparr>df_bus = bus, df_device = 0, df_function = 0\<rparr>"

text \<open>\<^verbatim>\<open>self.next\<close> advanced by one function.\<close>

definition advance :: "device_function \<Rightarrow> device_function option" where
  "advance n =
     (if df_function n = 255 then None
      else let n = n\<lparr>df_function := df_function n + 1\<rparr>
           in if df_function n \<ge> MAX_FUNCTIONS then Some (n\<lparr>df_function := 0, df_device := df_device n + 1\<rparr>) else Some n)"

lemma advance_less:
  assumes "df_device n < MAX_DEVICES" "advance n = Some n'"
  shows "256 * (32 - unat (df_device n')) + (256 - unat (df_function n')) <
         256 * (32 - unat (df_device n)) + (256 - unat (df_function n))"
proof -
  have d: "unat (df_device n) < 32" using assms(1) by (simp add: word_less_nat_alt MAX_DEVICES_def)
  have f: "df_function n \<noteq> 255" using assms(2) by (simp add: advance_def split: if_splits)
  then have "unat (df_function n) \<noteq> 255" by (simp add: word_unat_eq_iff)
  moreover have "unat (df_function n) < 256" using unsigned_less [of "df_function n"] by simp
  ultimately have f: "unat (df_function n + 1) = unat (df_function n) + 1" "unat (df_function n) < 255"
    by (simp_all add: unat_word_ariths)
  have "unat (df_device n + 1) = unat (df_device n) + 1" using d by (simp add: unat_word_ariths)
  then show ?thesis using assms(2) f d by (auto simp: advance_def Let_def split: if_splits)
qed

definition read_function_info :: "'c config_access \<Rightarrow> device_function \<Rightarrow> u32 \<Rightarrow> 'c \<Rightarrow> ('e, device_function_info) outcome \<times> 'c" where
  "read_function_info C current device_vendor c =
     and_then (read_word C current 8 c) (\<lambda>class_revision c.
     and_then (read_word C current 12 c) (\<lambda>bist_type_latency_cache c.
       (Ok \<lparr>vendor_id = ucast device_vendor, device_id = ucast (drop_bit 16 device_vendor),
            pci_class = ucast (drop_bit 24 class_revision), pci_subclass = ucast (drop_bit 16 class_revision),
            prog_if = ucast (drop_bit 8 class_revision), revision = ucast class_revision,
            header_type = HeaderType_from (ucast (drop_bit 16 bist_type_latency_cache) AND 0x7f)\<rparr>, c)))"

function BusDeviceIterator_next ::
  "'c config_access \<Rightarrow> device_function \<times> 'c \<Rightarrow> ('e, (device_function \<times> device_function_info) option) outcome \<times> (device_function \<times> 'c)"
where
  "BusDeviceIterator_next C (nxt, c) =
     (if df_device nxt < MAX_DEVICES
      then lift_then (read_word C nxt 0 c) (\<lambda>c. (nxt, c)) (\<lambda>device_vendor c.
             case advance nxt of
               None \<Rightarrow> (Panic, (nxt, c))
             | Some nxt' \<Rightarrow>
                 if device_vendor \<noteq> INVALID_READ
                 then lift_then (read_function_info C nxt device_vendor c) (\<lambda>c. (nxt', c)) (\<lambda>info c.
                        (Ok (Some (nxt, info)), (nxt', c)))
                 else BusDeviceIterator_next C (nxt', c))
      else (Ok None, (nxt, c)))"
  by pat_completeness auto
termination
  by (relation "measure (\<lambda>(C, n, c). 256 * (32 - unat (df_device n)) + (256 - unat (df_function n)))")
     (auto dest: advance_less)

end
