(* ===== verification/Pci_Transport.thy ===== *)
theory Pci_Transport
  imports Pci_Bus Mmio
begin


text \<open>
  The PCI transport, src/src/transport/pci.rs: finding the structures of a device through its
  capabilities and base address registers, and every method of \<^verbatim>\<open>impl Transport for PciTransport\<close>.

  The structures are pointers into mapped memory. An access is recorded with its address and size, and
  the device answers a read from the history of accesses. \<^verbatim>\<open>H::mmio_phys_to_virt\<close> is a parameter.
\<close>

section \<open>Identification\<close>

definition VIRTIO_VENDOR_ID :: u16 where "VIRTIO_VENDOR_ID = 0x1af4"
definition PCI_DEVICE_ID_OFFSET :: u16 where "PCI_DEVICE_ID_OFFSET = 0x1040"
definition TRANSITIONAL_NETWORK :: u16 where "TRANSITIONAL_NETWORK = 0x1000"
definition TRANSITIONAL_BLOCK :: u16 where "TRANSITIONAL_BLOCK = 0x1001"
definition TRANSITIONAL_MEMORY_BALLOONING :: u16 where "TRANSITIONAL_MEMORY_BALLOONING = 0x1002"
definition TRANSITIONAL_CONSOLE :: u16 where "TRANSITIONAL_CONSOLE = 0x1003"
definition TRANSITIONAL_SCSI_HOST :: u16 where "TRANSITIONAL_SCSI_HOST = 0x1004"
definition TRANSITIONAL_ENTROPY_SOURCE :: u16 where "TRANSITIONAL_ENTROPY_SOURCE = 0x1005"
definition TRANSITIONAL_9P_TRANSPORT :: u16 where "TRANSITIONAL_9P_TRANSPORT = 0x1009"

definition CAP_BAR_OFFSET :: u8 where "CAP_BAR_OFFSET = 4"
definition CAP_BAR_OFFSET_OFFSET :: u8 where "CAP_BAR_OFFSET_OFFSET = 8"
definition CAP_LENGTH_OFFSET :: u8 where "CAP_LENGTH_OFFSET = 12"
definition CAP_NOTIFY_OFF_MULTIPLIER_OFFSET :: u8 where "CAP_NOTIFY_OFF_MULTIPLIER_OFFSET = 16"

definition VIRTIO_PCI_CAP_COMMON_CFG :: u8 where "VIRTIO_PCI_CAP_COMMON_CFG = 1"
definition VIRTIO_PCI_CAP_NOTIFY_CFG :: u8 where "VIRTIO_PCI_CAP_NOTIFY_CFG = 2"
definition VIRTIO_PCI_CAP_ISR_CFG :: u8 where "VIRTIO_PCI_CAP_ISR_CFG = 3"
definition VIRTIO_PCI_CAP_DEVICE_CFG :: u8 where "VIRTIO_PCI_CAP_DEVICE_CFG = 4"

lemmas pci_consts = VIRTIO_VENDOR_ID_def PCI_DEVICE_ID_OFFSET_def TRANSITIONAL_NETWORK_def TRANSITIONAL_BLOCK_def
  TRANSITIONAL_MEMORY_BALLOONING_def TRANSITIONAL_CONSOLE_def TRANSITIONAL_SCSI_HOST_def
  TRANSITIONAL_ENTROPY_SOURCE_def TRANSITIONAL_9P_TRANSPORT_def
  CAP_BAR_OFFSET_def CAP_BAR_OFFSET_OFFSET_def CAP_LENGTH_OFFSET_def CAP_NOTIFY_OFF_MULTIPLIER_OFFSET_def
  VIRTIO_PCI_CAP_COMMON_CFG_def VIRTIO_PCI_CAP_NOTIFY_CFG_def VIRTIO_PCI_CAP_ISR_CFG_def VIRTIO_PCI_CAP_DEVICE_CFG_def

definition device_type :: "u16 \<Rightarrow> DeviceType" where
  "device_type pci_device_id =
     (if pci_device_id = TRANSITIONAL_NETWORK then Network
      else if pci_device_id = TRANSITIONAL_BLOCK then Block
      else if pci_device_id = TRANSITIONAL_MEMORY_BALLOONING then MemoryBalloon
      else if pci_device_id = TRANSITIONAL_CONSOLE then Console
      else if pci_device_id = TRANSITIONAL_SCSI_HOST then ScsiHost
      else if pci_device_id = TRANSITIONAL_ENTROPY_SOURCE then EntropySource
      else if pci_device_id = TRANSITIONAL_9P_TRANSPORT then Dev9P
      else if pci_device_id \<ge> PCI_DEVICE_ID_OFFSET then DeviceType_from_u16 (pci_device_id - PCI_DEVICE_ID_OFFSET)
      else Invalid)"

definition virtio_device_type :: "device_function_info \<Rightarrow> DeviceType option" where
  "virtio_device_type info =
     (if vendor_id info = VIRTIO_VENDOR_ID
      then let ty = device_type (device_id info) in if ty \<noteq> Invalid then Some ty else None
      else None)"

section \<open>Finding the structures\<close>

datatype VirtioPciError =
    InvalidVendorId u16
  | MissingCommonConfig
  | MissingNotifyConfig
  | InvalidNotifyOffMultiplier u32
  | MissingIsrConfig
  | UnexpectedIoBar
  | BarNotAllocated u8
  | BarOffsetOutOfRange
  | Misaligned u64 nat
  | Pci PciError

record virtio_cap =
  vc_bar :: u8
  vc_offset :: u32
  vc_length :: u32

text \<open>The local variables that the loop over the capabilities assigns.\<close>

record found_caps =
  fc_common :: "virtio_cap option"
  fc_notify :: "virtio_cap option"
  fc_multiplier :: u32
  fc_isr :: "virtio_cap option"
  fc_device :: "virtio_cap option"

definition no_caps :: found_caps where
  "no_caps = \<lparr>fc_common = None, fc_notify = None, fc_multiplier = 0, fc_isr = None, fc_device = None\<rparr>"

text \<open>A read at \<^verbatim>\<open>capability.offset + k\<close>, computed in 8 bits.\<close>

definition read_cap_word :: "'c config_access \<Rightarrow> device_function \<Rightarrow> u8 \<Rightarrow> u8 \<Rightarrow> 'c \<Rightarrow> ('e, u32) outcome \<times> 'c" where
  "read_cap_word C df offset k c =
     (if unat offset + unat k < 256 then read_word C df (offset + k) c else (Panic, c))"

text \<open>The body of the loop for one capability.\<close>

definition consider_capability ::
  "'c config_access \<Rightarrow> device_function \<Rightarrow> capability_info \<Rightarrow> found_caps \<Rightarrow> 'c \<Rightarrow> (VirtioPciError, found_caps) outcome \<times> 'c"
where
  "consider_capability C df capability f c =
     (if cap_id capability \<noteq> PCI_CAP_ID_VNDR then (Ok f, c)
      else let cap_len = (ucast (private_header capability) :: u8);
               cfg_type = (ucast (drop_bit 8 (private_header capability)) :: u8)
           in if cap_len < 16 then (Ok f, c)
              else and_then (read_cap_word C df (cap_offset capability) CAP_BAR_OFFSET c) (\<lambda>bar c.
                   and_then (read_cap_word C df (cap_offset capability) CAP_BAR_OFFSET_OFFSET c) (\<lambda>off c.
                   and_then (read_cap_word C df (cap_offset capability) CAP_LENGTH_OFFSET c) (\<lambda>len c.
                   let info = \<lparr>vc_bar = ucast bar, vc_offset = off, vc_length = len\<rparr>
                   in if cfg_type = VIRTIO_PCI_CAP_COMMON_CFG \<and> fc_common f = None
                      then (Ok (f\<lparr>fc_common := Some info\<rparr>), c)
                      else if cfg_type = VIRTIO_PCI_CAP_NOTIFY_CFG \<and> cap_len \<ge> 20 \<and> fc_notify f = None
                      then and_then (read_cap_word C df (cap_offset capability) CAP_NOTIFY_OFF_MULTIPLIER_OFFSET c) (\<lambda>mult c.
                             (Ok (f\<lparr>fc_notify := Some info, fc_multiplier := mult\<rparr>), c))
                      else if cfg_type = VIRTIO_PCI_CAP_ISR_CFG \<and> fc_isr f = None
                      then (Ok (f\<lparr>fc_isr := Some info\<rparr>), c)
                      else if cfg_type = VIRTIO_PCI_CAP_DEVICE_CFG \<and> fc_device f = None
                      then (Ok (f\<lparr>fc_device := Some info\<rparr>), c)
                      else (Ok f, c)))))"

text \<open>\<^verbatim>\<open>for capability in root.capabilities(device_function)\<close>, observed for \<open>fuel\<close> iterations.\<close>

fun capabilities_loop ::
  "nat \<Rightarrow> 'c config_access \<Rightarrow> device_function \<Rightarrow> found_caps \<Rightarrow> u8 option \<times> 'c \<Rightarrow> (VirtioPciError, found_caps) outcome \<times> 'c"
where
  "capabilities_loop 0 C df f s = (Diverge, snd s)"
| "capabilities_loop (Suc fuel) C df f s =
     lift_then (CapabilityIterator_next C df s) snd (\<lambda>capability (nxt, c).
       case capability of
         None \<Rightarrow> (Ok f, c)
       | Some cap \<Rightarrow> and_then (consider_capability C df cap f c) (\<lambda>f c. capabilities_loop fuel C df f (nxt, c)))"

text \<open>
  The checks of \<^verbatim>\<open>get_bar_region\<close>: the physical address of the structure, for a type of the given size.
\<close>

definition bar_region_paddr ::
  "'c config_access \<Rightarrow> nat \<Rightarrow> device_function \<Rightarrow> virtio_cap \<Rightarrow> 'c \<Rightarrow> (VirtioPciError, u64) outcome \<times> 'c"
where
  "bar_region_paddr C size_of df info c =
     (case bar_info C df (vc_bar info) c of (r, c) \<Rightarrow>
       and_then (map_err Pci r, c) (\<lambda>bar c.
       and_then (ok_or UnexpectedIoBar (memory_address_size bar), c) (\<lambda>(bar_address, bar_size) c.
         if bar_address = 0 then (Err (BarNotAllocated (vc_bar info)), c)
         else if unat (vc_offset info) + unat (vc_length info) \<ge> 2 ^ 32 then (Panic, c)
         else if vc_offset info + vc_length info > bar_size \<or> size_of > unat (vc_length info)
         then (Err BarOffsetOutOfRange, c)
         else if unat bar_address + unat (vc_offset info) \<ge> 2 ^ 64 then (Panic, c)
         else (Ok (bar_address + ucast (vc_offset info)), c))))"

definition get_bar_region ::
  "'c config_access \<Rightarrow> (u64 \<Rightarrow> nat \<Rightarrow> u64) \<Rightarrow> nat \<Rightarrow> nat \<Rightarrow> device_function \<Rightarrow> virtio_cap \<Rightarrow> 'c \<Rightarrow> (VirtioPciError, u64) outcome \<times> 'c"
where
  "get_bar_region C phys_to_virt size_of align_of df info c =
     and_then (bar_region_paddr C size_of df info c) (\<lambda>paddr c.
       let vaddr = phys_to_virt paddr (unat (vc_length info))
       in if unat vaddr mod align_of \<noteq> 0 then (Err (Misaligned vaddr align_of), c)
          else (Ok vaddr, c))"

text \<open>A slice is its address and its number of elements.\<close>

definition get_bar_region_slice ::
  "'c config_access \<Rightarrow> (u64 \<Rightarrow> nat \<Rightarrow> u64) \<Rightarrow> nat \<Rightarrow> nat \<Rightarrow> device_function \<Rightarrow> virtio_cap \<Rightarrow> 'c \<Rightarrow> (VirtioPciError, u64 \<times> nat) outcome \<times> 'c"
where
  "get_bar_region_slice C phys_to_virt size_of align_of df info c =
     and_then (get_bar_region C phys_to_virt size_of align_of df info c) (\<lambda>ptr c.
       (Ok (ptr, unat (vc_length info) div size_of), c))"

section \<open>Registers and state\<close>

datatype common_field =
    Device_feature_select | Device_feature | Driver_feature_select | Driver_feature | Msix_config | Num_queues
  | Device_status | Config_gen | Queue_select | Queue_size | Queue_msix_vector | Queue_enable | Queue_notify_off
  | Queue_desc | Queue_driver | Queue_device

text \<open>The fields of the \<^verbatim>\<open>repr(C)\<close> struct \<^verbatim>\<open>CommonCfg\<close> in order, with their sizes.\<close>

definition CommonCfg_fields :: "(common_field \<times> nat) list" where
  "CommonCfg_fields =
     [(Device_feature_select, 4), (Device_feature, 4), (Driver_feature_select, 4), (Driver_feature, 4),
      (Msix_config, 2), (Num_queues, 2), (Device_status, 1), (Config_gen, 1), (Queue_select, 2), (Queue_size, 2),
      (Queue_msix_vector, 2), (Queue_enable, 2), (Queue_notify_off, 2), (Queue_desc, 8), (Queue_driver, 8),
      (Queue_device, 8)]"

text \<open>
  \<^verbatim>\<open>repr(C)\<close>: each field at the next multiple of its alignment, which is its size here; the struct is padded
  to a multiple of the largest alignment.
\<close>

definition round_up :: "nat \<Rightarrow> nat \<Rightarrow> nat" where
  "round_up x a = (x + a - 1) div a * a"

fun repr_C :: "nat \<Rightarrow> ('f \<times> nat) list \<Rightarrow> ('f \<times> nat) list" where
  "repr_C off [] = []"
| "repr_C off ((f, n) # fs) = (f, round_up off n) # repr_C (round_up off n + n) fs"

definition CommonCfg_offset :: "common_field \<Rightarrow> nat" where
  "CommonCfg_offset f = the (map_of (repr_C 0 CommonCfg_fields) f)"

definition CommonCfg_size :: nat where
  "CommonCfg_size = round_up (CommonCfg_offset Queue_device + 8) 8"

definition CommonCfg_align :: nat where
  "CommonCfg_align = 8"

lemma CommonCfg_offsets [simp]:
  "CommonCfg_offset Device_feature_select = 0" "CommonCfg_offset Device_feature = 4"
  "CommonCfg_offset Driver_feature_select = 8" "CommonCfg_offset Driver_feature = 12"
  "CommonCfg_offset Msix_config = 16" "CommonCfg_offset Num_queues = 18"
  "CommonCfg_offset Device_status = 20" "CommonCfg_offset Config_gen = 21"
  "CommonCfg_offset Queue_select = 22" "CommonCfg_offset Queue_size = 24"
  "CommonCfg_offset Queue_msix_vector = 26" "CommonCfg_offset Queue_enable = 28"
  "CommonCfg_offset Queue_notify_off = 30" "CommonCfg_offset Queue_desc = 32"
  "CommonCfg_offset Queue_driver = 40" "CommonCfg_offset Queue_device = 48"
  by (simp_all add: CommonCfg_offset_def CommonCfg_fields_def round_up_def)

lemma CommonCfg_size [simp]: "CommonCfg_size = 56"
  by (simp add: CommonCfg_size_def round_up_def)

datatype pci_event = PRead u64 nat bytes | PWrite u64 bytes

text \<open>The device answers a read of one byte of the access at the given address.\<close>

type_synonym pci_dev = "pci_event list \<Rightarrow> u64 \<Rightarrow> nat \<Rightarrow> u8"

record pci =
  pt_device_type :: DeviceType
  pt_device_function :: device_function
  common_cfg :: u64
  notify_region :: "u64 \<times> nat"
  notify_off_multiplier :: u32
  notification_offsets :: "(u16 \<times> u16) list"
  isr_status :: u64
  pt_config_space :: "(u64 \<times> nat) option"
  pt_trace :: "pci_event list"

definition mem_read :: "pci_dev \<Rightarrow> u64 \<Rightarrow> nat \<Rightarrow> pci \<Rightarrow> bytes result \<times> pci" where
  "mem_read D a n t =
     (let v = map (D (pt_trace t) a) [0..<n] in (Ok v, t\<lparr>pt_trace := pt_trace t @ [PRead a n v]\<rparr>))"

definition mem_write :: "u64 \<Rightarrow> bytes \<Rightarrow> pci \<Rightarrow> pci" where
  "mem_write a v t = t\<lparr>pt_trace := pt_trace t @ [PWrite a v]\<rparr>"

definition cfg_read :: "pci_dev \<Rightarrow> common_field \<Rightarrow> nat \<Rightarrow> pci \<Rightarrow> ('a::len word) result \<times> pci" where
  "cfg_read D f n t =
     and_then (mem_read D (common_cfg t + of_nat (CommonCfg_offset f)) n t) (\<lambda>bs t. (Ok (from_le bs), t))"

definition cfg_write :: "common_field \<Rightarrow> nat \<Rightarrow> 'a::len word \<Rightarrow> pci \<Rightarrow> pci" where
  "cfg_write f n v t = mem_write (common_cfg t + of_nat (CommonCfg_offset f)) (le_bytes n v) t"

text \<open>\<^verbatim>\<open>PciTransport::new\<close>\<close>

definition PciTransport_new ::
  "nat \<Rightarrow> 'c config_access \<Rightarrow> (u64 \<Rightarrow> nat \<Rightarrow> u64) \<Rightarrow> device_function \<Rightarrow> 'c \<Rightarrow> (VirtioPciError, pci) outcome \<times> 'c"
where
  "PciTransport_new fuel C phys_to_virt df c =
     and_then (read_word C df 0 c) (\<lambda>device_vendor c.
     let dev_id = (ucast (drop_bit 16 device_vendor) :: u16);
         ven_id = (ucast device_vendor :: u16)
     in if ven_id \<noteq> VIRTIO_VENDOR_ID then (Err (InvalidVendorId ven_id), c)
     else
     and_then (capabilities C df c) (\<lambda>nxt c.
     and_then (capabilities_loop fuel C df no_caps (nxt, c)) (\<lambda>f c.
     and_then (ok_or MissingCommonConfig (fc_common f), c) (\<lambda>common c.
     and_then (get_bar_region C phys_to_virt CommonCfg_size CommonCfg_align df common c) (\<lambda>common_ptr c.
     and_then (ok_or MissingNotifyConfig (fc_notify f), c) (\<lambda>notify c.
     if fc_multiplier f mod 2 \<noteq> 0 then (Err (InvalidNotifyOffMultiplier (fc_multiplier f)), c)
     else
     and_then (get_bar_region_slice C phys_to_virt 2 2 df notify c) (\<lambda>notify_ptr c.
     and_then (ok_or MissingIsrConfig (fc_isr f), c) (\<lambda>isr c.
     and_then (get_bar_region C phys_to_virt 1 1 df isr c) (\<lambda>isr_ptr c.
     and_then (case fc_device f of
                 None \<Rightarrow> (Ok None, c)
               | Some d \<Rightarrow> and_then (get_bar_region_slice C phys_to_virt 4 4 df d c) (\<lambda>p c. (Ok (Some p), c))) (\<lambda>config c.
       (Ok \<lparr>pt_device_type = device_type dev_id, pt_device_function = df, common_cfg = common_ptr,
            notify_region = notify_ptr, notify_off_multiplier = fc_multiplier f, notification_offsets = [],
            isr_status = isr_ptr, pt_config_space = config, pt_trace = []\<rparr>, c)))))))))))"

section \<open>The methods of the transport\<close>

definition Pci_device_type :: "pci \<Rightarrow> DeviceType result \<times> pci" where
  "Pci_device_type t = (Ok (pt_device_type t), t)"

definition Pci_read_device_features :: "pci_dev \<Rightarrow> pci \<Rightarrow> u64 result \<times> pci" where
  "Pci_read_device_features D t =
     and_then (cfg_read D Device_feature 4 (cfg_write Device_feature_select 4 (0 :: u32) t)) (\<lambda>lo t.
     and_then (cfg_read D Device_feature 4 (cfg_write Device_feature_select 4 (1 :: u32) t)) (\<lambda>hi t.
       (Ok (ucast (lo :: u32) OR push_bit 32 (ucast (hi :: u32))), t)))"

definition Pci_write_driver_features :: "u64 \<Rightarrow> pci \<Rightarrow> unit result \<times> pci" where
  "Pci_write_driver_features f t =
     (Ok (), cfg_write Driver_feature 4 (ucast (drop_bit 32 f) :: u32) (cfg_write Driver_feature_select 4 (1 :: u32)
             (cfg_write Driver_feature 4 (ucast f :: u32) (cfg_write Driver_feature_select 4 (0 :: u32) t))))"

definition Pci_max_queue_size :: "pci_dev \<Rightarrow> u16 \<Rightarrow> pci \<Rightarrow> u32 result \<times> pci" where
  "Pci_max_queue_size D queue t =
     and_then (cfg_read D Queue_size 2 (cfg_write Queue_select 2 queue t)) (\<lambda>n t. (Ok (ucast (n :: u16)), t))"

definition Pci_notify :: "u16 \<Rightarrow> pci \<Rightarrow> unit result \<times> pci" where
  "Pci_notify queue t =
     (case find (\<lambda>(vq, _). vq = queue) (notification_offsets t) of
        None \<Rightarrow> (Panic, t)
      | Some (_, queue_notify_off) \<Rightarrow>
          let offset_bytes = unat queue_notify_off * unat (notify_off_multiplier t);
              index = offset_bytes div 2
          in if \<not> index < snd (notify_region t) then (Panic, t)
             else (Ok (), mem_write (fst (notify_region t) + of_nat (2 * index)) (le_bytes 2 queue) t))"

definition Pci_get_status :: "pci_dev \<Rightarrow> pci \<Rightarrow> u32 result \<times> pci" where
  "Pci_get_status D t =
     and_then (cfg_read D Device_status 1 t) (\<lambda>s t. (Ok (from_bits_truncate DeviceStatus_all (ucast (s :: u8))), t))"

definition Pci_set_status :: "u32 \<Rightarrow> pci \<Rightarrow> unit result \<times> pci" where
  "Pci_set_status status t = (Ok (), cfg_write Device_status 1 (ucast status :: u8) t)"

definition Pci_set_guest_page_size :: "u32 \<Rightarrow> pci \<Rightarrow> unit result \<times> pci" where
  "Pci_set_guest_page_size n t = (Ok (), t)"

definition Pci_requires_legacy_layout :: "pci \<Rightarrow> bool" where
  "Pci_requires_legacy_layout t = False"

definition Pci_queue_set :: "pci_dev \<Rightarrow> u16 \<Rightarrow> u32 \<Rightarrow> PhysAddr \<Rightarrow> PhysAddr \<Rightarrow> PhysAddr \<Rightarrow> pci \<Rightarrow> unit result \<times> pci" where
  "Pci_queue_set D queue n descriptors driver_area device_area t =
     (if \<exists>e\<in>set (notification_offsets t). fst e = queue then (Panic, t)
      else and_then (cfg_read D Queue_notify_off 2
                     (cfg_write Queue_enable 2 (1 :: u16)
                     (cfg_write Queue_device 8 device_area
                     (cfg_write Queue_driver 8 driver_area
                     (cfg_write Queue_desc 8 descriptors
                     (cfg_write Queue_size 2 (ucast n :: u16)
                     (cfg_write Queue_select 2 queue t))))))) (\<lambda>off t.
             (Ok (), t\<lparr>notification_offsets := notification_offsets t @ [(queue, off)]\<rparr>)))"

definition Pci_queue_unset :: "u16 \<Rightarrow> pci \<Rightarrow> unit result \<times> pci" where
  "Pci_queue_unset queue t = (Ok (), t)"

definition Pci_queue_used :: "pci_dev \<Rightarrow> u16 \<Rightarrow> pci \<Rightarrow> bool result \<times> pci" where
  "Pci_queue_used D queue t =
     and_then (cfg_read D Queue_enable 2 (cfg_write Queue_select 2 queue t)) (\<lambda>e t. (Ok (e = (1 :: u16)), t))"

definition Pci_ack_interrupt_raw :: "pci_dev \<Rightarrow> pci \<Rightarrow> u32 result \<times> pci" where
  "Pci_ack_interrupt_raw D t =
     and_then (mem_read D (isr_status t) 1 t) (\<lambda>bs t. (Ok (ucast (from_le bs :: u8)), t))"

definition Pci_ack_interrupt :: "pci_dev \<Rightarrow> pci \<Rightarrow> u32 result \<times> pci" where
  "Pci_ack_interrupt D t = Pci_ack_interrupt_raw D t"

definition Pci_read_config_generation :: "pci_dev \<Rightarrow> pci \<Rightarrow> u32 result \<times> pci" where
  "Pci_read_config_generation D t = and_then (cfg_read D Config_gen 1 t) (\<lambda>g t. (Ok (ucast (g :: u8)), t))"

definition Pci_read_config_space :: "pci_dev \<Rightarrow> nat \<Rightarrow> nat \<Rightarrow> nat \<Rightarrow> pci \<Rightarrow> bytes result \<times> pci" where
  "Pci_read_config_space D offset size_of align_of t =
     (if \<not> align_of \<le> 4 then (Panic, t)
      else if offset mod align_of \<noteq> 0 then (Panic, t)
      else and_then (ok_or ConfigSpaceMissing (pt_config_space t), t) (\<lambda>(ptr, len) t.
             if len * 4 < offset + size_of then (Err ConfigSpaceTooSmall, t)
             else mem_read D (ptr + of_nat offset) size_of t))"

definition Pci_write_config_space :: "nat \<Rightarrow> nat \<Rightarrow> bytes \<Rightarrow> pci \<Rightarrow> unit result \<times> pci" where
  "Pci_write_config_space offset align_of value_bytes t =
     (if \<not> align_of \<le> 4 then (Panic, t)
      else if offset mod align_of \<noteq> 0 then (Panic, t)
      else and_then (ok_or ConfigSpaceMissing (pt_config_space t), t) (\<lambda>(ptr, len) t.
             if len * 4 < offset + length value_bytes then (Err ConfigSpaceTooSmall, t)
             else (Ok (), mem_write (ptr + of_nat offset) value_bytes t)))"

text \<open>\<^verbatim>\<open>drop\<close>: reset the device and wait until it reads as reset, observed for \<open>fuel\<close> iterations.\<close>

fun wait_reset :: "nat \<Rightarrow> pci_dev \<Rightarrow> pci \<Rightarrow> unit result \<times> pci" where
  "wait_reset 0 D t = (Diverge, t)"
| "wait_reset (Suc fuel) D t = and_then (Pci_get_status D t) (\<lambda>s t. if s \<noteq> 0 then wait_reset fuel D t else (Ok (), t))"

definition Pci_drop :: "nat \<Rightarrow> pci_dev \<Rightarrow> pci \<Rightarrow> unit result \<times> pci" where
  "Pci_drop fuel D t = and_then (Pci_set_status 0 t) (\<lambda>_ t. wait_reset fuel D t)"

definition pci_transport :: "pci_dev \<Rightarrow> pci transport" where
  "pci_transport D =
     \<lparr>t_device_type = Pci_device_type,
      t_read_device_features = Pci_read_device_features D,
      t_write_driver_features = Pci_write_driver_features,
      t_max_queue_size = Pci_max_queue_size D,
      t_notify = Pci_notify,
      t_get_status = Pci_get_status D,
      t_set_status = Pci_set_status,
      t_set_guest_page_size = Pci_set_guest_page_size,
      t_requires_legacy_layout = Pci_requires_legacy_layout,
      t_queue_set = Pci_queue_set D,
      t_queue_unset = Pci_queue_unset,
      t_queue_used = Pci_queue_used D,
      t_ack_interrupt = Pci_ack_interrupt D,
      t_ack_interrupt_raw = Pci_ack_interrupt_raw D,
      t_read_config_generation = Pci_read_config_generation D,
      t_read_config_space = Pci_read_config_space D,
      t_write_config_space = Pci_write_config_space\<rparr>"

section \<open>The transport is total\<close>

lemmas pci_simps = mem_read_def mem_write_def cfg_read_def cfg_write_def Let_def Pci_read_device_features_def
  Pci_write_driver_features_def Pci_get_status_def Pci_set_status_def Pci_set_guest_page_size_def
  Pci_read_config_generation_def

interpretation pci_total: transport_total "pci_transport D" "\<lambda>_. True" for D
  by unfold_locales (simp_all add: pci_transport_def pci_simps)

end
