(* ===== verification/Hyp_Pci.thy ===== *)
theory Hyp_Pci
  imports Pci_Transport
begin


text \<open>
  The PCI transport over hypercalls of the pKVM hypervisor, src/src/transport/x86_64.rs with its
  submodules cam.rs and hypercalls.rs. The hypervisor is a parameter that answers a hypercall from the
  history of hypercalls.
\<close>

section \<open>Hypercalls\<close>

definition KVM_HC_PKVM_OP :: u64 where "KVM_HC_PKVM_OP = 20"
definition PKVM_GHC_IOREAD :: u64 where "PKVM_GHC_IOREAD = KVM_HC_PKVM_OP + 3"
definition PKVM_GHC_IOWRITE :: u64 where "PKVM_GHC_IOWRITE = KVM_HC_PKVM_OP + 4"
definition HYP_IO_MAX :: nat where "HYP_IO_MAX = 8"

text \<open>A hypercall with its number, its first three arguments and its answer.\<close>

datatype hyp_event = Vmcall u64 u64 u64 u64 u64

type_synonym hypervisor = "hyp_event list \<Rightarrow> u64 \<Rightarrow> u64 \<Rightarrow> u64 \<Rightarrow> u64 \<Rightarrow> u64"

definition vmcall :: "hypervisor \<Rightarrow> u64 \<Rightarrow> u64 \<Rightarrow> u64 \<Rightarrow> u64 \<Rightarrow> hyp_event list \<Rightarrow> u64 \<times> hyp_event list" where
  "vmcall V hypcall a1 a2 a3 tr = (let r = V tr hypcall a1 a2 a3 in (r, tr @ [Vmcall hypcall a1 a2 a3 r]))"

definition hyp_io_read :: "hypervisor \<Rightarrow> u64 \<Rightarrow> nat \<Rightarrow> hyp_event list \<Rightarrow> u64 \<times> hyp_event list" where
  "hyp_io_read V address n tr = vmcall V PKVM_GHC_IOREAD address (of_nat n) 0 tr"

definition hyp_io_write :: "hypervisor \<Rightarrow> u64 \<Rightarrow> nat \<Rightarrow> u64 \<Rightarrow> hyp_event list \<Rightarrow> hyp_event list" where
  "hyp_io_write V address n data tr = snd (vmcall V PKVM_GHC_IOWRITE address (of_nat n) data tr)"

record hyp_io_region =
  hr_paddr :: u64
  hr_size :: nat

text \<open>\<^verbatim>\<open>read::<T>\<close> for a type of \<open>n\<close> bytes.\<close>

definition HypIoRegion_read :: "hypervisor \<Rightarrow> hyp_io_region \<Rightarrow> nat \<Rightarrow> nat \<Rightarrow> hyp_event list \<Rightarrow> bytes result \<times> hyp_event list" where
  "HypIoRegion_read V r offset n tr =
     (if \<not> offset + n \<le> hr_size r then (Panic, tr)
      else if \<not> n \<le> HYP_IO_MAX then (Panic, tr)
      else if unat (hr_paddr r) + offset \<ge> 2 ^ 64 then (Panic, tr)
      else case hyp_io_read V (hr_paddr r + of_nat offset) n tr of (data, tr) \<Rightarrow> (Ok (take n (le_bytes 8 data)), tr))"

definition HypIoRegion_write :: "hypervisor \<Rightarrow> hyp_io_region \<Rightarrow> nat \<Rightarrow> bytes \<Rightarrow> hyp_event list \<Rightarrow> unit result \<times> hyp_event list" where
  "HypIoRegion_write V r offset value_bytes tr =
     (if \<not> offset + length value_bytes \<le> hr_size r then (Panic, tr)
      else if \<not> length value_bytes \<le> HYP_IO_MAX then (Panic, tr)
      else if unat (hr_paddr r) + offset \<ge> 2 ^ 64 then (Panic, tr)
      else (Ok (), hyp_io_write V (hr_paddr r + of_nat offset) (length value_bytes) (from_le value_bytes) tr))"

section \<open>Configuration access\<close>

record hyp_cam =
  phys_base :: u64
  hc_cam :: Cam
  hc_trace :: "hyp_event list"

definition HypCam_new :: "u64 \<Rightarrow> Cam \<Rightarrow> hyp_cam" where
  "HypCam_new base cam = \<lparr>phys_base = base, hc_cam = cam, hc_trace = []\<rparr>"

definition HypCam_read_word :: "hypervisor \<Rightarrow> device_function \<Rightarrow> u8 \<Rightarrow> hyp_cam \<Rightarrow> u32 option \<times> hyp_cam" where
  "HypCam_read_word V df off c =
     (case cam_offset (hc_cam c) df off of
        None \<Rightarrow> (None, c)
      | Some address \<Rightarrow>
          if unat (phys_base c) + unat address \<ge> 2 ^ 64 then (None, c)
          else case hyp_io_read V (phys_base c + ucast address) 4 (hc_trace c) of
                 (v, tr) \<Rightarrow> (Some (ucast v), c\<lparr>hc_trace := tr\<rparr>))"

definition HypCam_write_word :: "hypervisor \<Rightarrow> device_function \<Rightarrow> u8 \<Rightarrow> u32 \<Rightarrow> hyp_cam \<Rightarrow> unit option \<times> hyp_cam" where
  "HypCam_write_word V df off v c =
     (case cam_offset (hc_cam c) df off of
        None \<Rightarrow> (None, c)
      | Some address \<Rightarrow>
          if unat (phys_base c) + unat address \<ge> 2 ^ 64 then (None, c)
          else (Some (), c\<lparr>hc_trace := hyp_io_write V (phys_base c + ucast address) 4 (ucast v) (hc_trace c)\<rparr>))"

definition hyp_cam_access :: "hypervisor \<Rightarrow> hyp_cam config_access" where
  "hyp_cam_access V = \<lparr>ca_read_word = HypCam_read_word V, ca_write_word = HypCam_write_word V\<rparr>"

section \<open>State and construction\<close>

record hyp_pci =
  hp_device_type :: DeviceType
  hp_device_function :: device_function
  hp_common_cfg :: hyp_io_region
  hp_notify_region :: hyp_io_region
  hp_notify_off_multiplier :: u32
  hp_notification_offsets :: "(u16 \<times> u16) list"
  hp_isr_status :: hyp_io_region
  hp_config_space :: "hyp_io_region option"
  hp_trace :: "hyp_event list"

definition hyp_get_bar_region ::
  "'c config_access \<Rightarrow> nat \<Rightarrow> nat \<Rightarrow> device_function \<Rightarrow> virtio_cap \<Rightarrow> 'c \<Rightarrow> (VirtioPciError, hyp_io_region) outcome \<times> 'c"
where
  "hyp_get_bar_region C size_of align_of df info c =
     and_then (bar_region_paddr C size_of df info c) (\<lambda>paddr c.
       if unat paddr mod align_of \<noteq> 0 then (Err (Misaligned paddr align_of), c)
       else (Ok \<lparr>hr_paddr = paddr, hr_size = unat (vc_length info)\<rparr>, c))"

definition HypPciTransport_new ::
  "nat \<Rightarrow> 'c config_access \<Rightarrow> device_function \<Rightarrow> 'c \<Rightarrow> (VirtioPciError, hyp_pci) outcome \<times> 'c"
where
  "HypPciTransport_new fuel C df c =
     and_then (read_word C df 0 c) (\<lambda>device_vendor c.
     let dev_id = (ucast (drop_bit 16 device_vendor) :: u16);
         ven_id = (ucast device_vendor :: u16)
     in if ven_id \<noteq> VIRTIO_VENDOR_ID then (Err (InvalidVendorId ven_id), c)
     else
     and_then (capabilities C df c) (\<lambda>nxt c.
     and_then (capabilities_loop fuel C df no_caps (nxt, c)) (\<lambda>f c.
     and_then (ok_or MissingCommonConfig (fc_common f), c) (\<lambda>common c.
     and_then (hyp_get_bar_region C CommonCfg_size CommonCfg_align df common c) (\<lambda>common_r c.
     and_then (ok_or MissingNotifyConfig (fc_notify f), c) (\<lambda>notify c.
     if fc_multiplier f mod 2 \<noteq> 0 then (Err (InvalidNotifyOffMultiplier (fc_multiplier f)), c)
     else
     and_then (hyp_get_bar_region C 2 2 df notify c) (\<lambda>notify_r c.
     and_then (ok_or MissingIsrConfig (fc_isr f), c) (\<lambda>isr c.
     and_then (hyp_get_bar_region C 1 1 df isr c) (\<lambda>isr_r c.
     and_then (case fc_device f of
                 None \<Rightarrow> (Ok None, c)
               | Some d \<Rightarrow> and_then (hyp_get_bar_region C 4 4 df d c) (\<lambda>p c. (Ok (Some p), c))) (\<lambda>config c.
       (Ok \<lparr>hp_device_type = device_type dev_id, hp_device_function = df, hp_common_cfg = common_r,
            hp_notify_region = notify_r, hp_notify_off_multiplier = fc_multiplier f, hp_notification_offsets = [],
            hp_isr_status = isr_r, hp_config_space = config, hp_trace = []\<rparr>, c)))))))))))"

section \<open>The methods of the transport\<close>

text \<open>\<^verbatim>\<open>configread!\<close> and \<^verbatim>\<open>configwrite!\<close>\<close>

definition configread :: "hypervisor \<Rightarrow> common_field \<Rightarrow> nat \<Rightarrow> hyp_pci \<Rightarrow> ('a::len word) result \<times> hyp_pci" where
  "configread V f n t =
     lift_then (HypIoRegion_read V (hp_common_cfg t) (CommonCfg_offset f) n (hp_trace t)) (\<lambda>tr. t\<lparr>hp_trace := tr\<rparr>)
       (\<lambda>bs tr. (Ok (from_le bs), t\<lparr>hp_trace := tr\<rparr>))"

definition configwrite :: "hypervisor \<Rightarrow> common_field \<Rightarrow> nat \<Rightarrow> 'a::len word \<Rightarrow> hyp_pci \<Rightarrow> unit result \<times> hyp_pci" where
  "configwrite V f n v t =
     lift_then (HypIoRegion_write V (hp_common_cfg t) (CommonCfg_offset f) (le_bytes n v) (hp_trace t))
       (\<lambda>tr. t\<lparr>hp_trace := tr\<rparr>) (\<lambda>_ tr. (Ok (), t\<lparr>hp_trace := tr\<rparr>))"

definition Hyp_device_type :: "hyp_pci \<Rightarrow> DeviceType result \<times> hyp_pci" where
  "Hyp_device_type t = (Ok (hp_device_type t), t)"

definition Hyp_read_device_features :: "hypervisor \<Rightarrow> hyp_pci \<Rightarrow> u64 result \<times> hyp_pci" where
  "Hyp_read_device_features V t =
     and_then (configwrite V Device_feature_select 4 (0 :: u32) t) (\<lambda>_ t.
     and_then (configread V Device_feature 4 t) (\<lambda>lo t.
     and_then (configwrite V Device_feature_select 4 (1 :: u32) t) (\<lambda>_ t.
     and_then (configread V Device_feature 4 t) (\<lambda>hi t.
       (Ok (push_bit 32 (ucast (hi :: u32)) OR ucast (lo :: u32)), t)))))"

definition Hyp_write_driver_features :: "hypervisor \<Rightarrow> u64 \<Rightarrow> hyp_pci \<Rightarrow> unit result \<times> hyp_pci" where
  "Hyp_write_driver_features V f t =
     and_then (configwrite V Driver_feature_select 4 (0 :: u32) t) (\<lambda>_ t.
     and_then (configwrite V Driver_feature 4 (ucast f :: u32) t) (\<lambda>_ t.
     and_then (configwrite V Driver_feature_select 4 (1 :: u32) t) (\<lambda>_ t.
       configwrite V Driver_feature 4 (ucast (drop_bit 32 f) :: u32) t)))"

definition Hyp_max_queue_size :: "hypervisor \<Rightarrow> u16 \<Rightarrow> hyp_pci \<Rightarrow> u32 result \<times> hyp_pci" where
  "Hyp_max_queue_size V queue t =
     and_then (configwrite V Queue_select 2 queue t) (\<lambda>_ t.
     and_then (configread V Queue_size 2 t) (\<lambda>n t. (Ok (ucast (n :: u16)), t)))"

definition Hyp_notify :: "hypervisor \<Rightarrow> u16 \<Rightarrow> hyp_pci \<Rightarrow> unit result \<times> hyp_pci" where
  "Hyp_notify V queue t =
     (case find (\<lambda>(vq, _). vq = queue) (hp_notification_offsets t) of
        None \<Rightarrow> (Panic, t)
      | Some (_, queue_notify_off) \<Rightarrow>
          let offset_bytes = unat queue_notify_off * unat (hp_notify_off_multiplier t)
          in lift_then (HypIoRegion_write V (hp_notify_region t) offset_bytes (le_bytes 2 queue) (hp_trace t))
               (\<lambda>tr. t\<lparr>hp_trace := tr\<rparr>) (\<lambda>_ tr. (Ok (), t\<lparr>hp_trace := tr\<rparr>)))"

definition Hyp_get_status :: "hypervisor \<Rightarrow> hyp_pci \<Rightarrow> u32 result \<times> hyp_pci" where
  "Hyp_get_status V t =
     and_then (configread V Device_status 1 t) (\<lambda>s t. (Ok (from_bits_truncate DeviceStatus_all (ucast (s :: u8))), t))"

definition Hyp_set_status :: "hypervisor \<Rightarrow> u32 \<Rightarrow> hyp_pci \<Rightarrow> unit result \<times> hyp_pci" where
  "Hyp_set_status V status t = configwrite V Device_status 1 (ucast status :: u8) t"

definition Hyp_set_guest_page_size :: "u32 \<Rightarrow> hyp_pci \<Rightarrow> unit result \<times> hyp_pci" where
  "Hyp_set_guest_page_size n t = (Ok (), t)"

definition Hyp_requires_legacy_layout :: "hyp_pci \<Rightarrow> bool" where
  "Hyp_requires_legacy_layout t = False"

definition Hyp_queue_set :: "hypervisor \<Rightarrow> u16 \<Rightarrow> u32 \<Rightarrow> PhysAddr \<Rightarrow> PhysAddr \<Rightarrow> PhysAddr \<Rightarrow> hyp_pci \<Rightarrow> unit result \<times> hyp_pci" where
  "Hyp_queue_set V queue n descriptors driver_area device_area t =
     (if \<exists>e\<in>set (hp_notification_offsets t). fst e = queue then (Panic, t)
      else and_then (configwrite V Queue_select 2 queue t) (\<lambda>_ t.
           and_then (configwrite V Queue_size 2 (ucast n :: u16) t) (\<lambda>_ t.
           and_then (configwrite V Queue_desc 8 descriptors t) (\<lambda>_ t.
           and_then (configwrite V Queue_driver 8 driver_area t) (\<lambda>_ t.
           and_then (configwrite V Queue_device 8 device_area t) (\<lambda>_ t.
           and_then (configwrite V Queue_enable 2 (1 :: u16) t) (\<lambda>_ t.
           and_then (configread V Queue_notify_off 2 t) (\<lambda>off t.
             (Ok (), t\<lparr>hp_notification_offsets := hp_notification_offsets t @ [(queue, off)]\<rparr>)))))))))"

definition Hyp_queue_unset :: "u16 \<Rightarrow> hyp_pci \<Rightarrow> unit result \<times> hyp_pci" where
  "Hyp_queue_unset queue t = (Ok (), t)"

definition Hyp_queue_used :: "hypervisor \<Rightarrow> u16 \<Rightarrow> hyp_pci \<Rightarrow> bool result \<times> hyp_pci" where
  "Hyp_queue_used V queue t =
     and_then (configwrite V Queue_select 2 queue t) (\<lambda>_ t.
     and_then (configread V Queue_enable 2 t) (\<lambda>e t. (Ok (e = (1 :: u16)), t)))"

definition Hyp_ack_interrupt :: "hypervisor \<Rightarrow> hyp_pci \<Rightarrow> u32 result \<times> hyp_pci" where
  "Hyp_ack_interrupt V t =
     lift_then (HypIoRegion_read V (hp_isr_status t) 0 1 (hp_trace t)) (\<lambda>tr. t\<lparr>hp_trace := tr\<rparr>) (\<lambda>bs tr.
       (Ok (from_bits_truncate InterruptStatus_all (ucast (from_le bs :: u8))), t\<lparr>hp_trace := tr\<rparr>))"

text \<open>The field is a byte, but the macro reads a value of the function's result type, four bytes.\<close>

definition Hyp_read_config_generation :: "hypervisor \<Rightarrow> hyp_pci \<Rightarrow> u32 result \<times> hyp_pci" where
  "Hyp_read_config_generation V t = configread V Config_gen 4 t"

definition Hyp_read_config_space :: "hypervisor \<Rightarrow> nat \<Rightarrow> nat \<Rightarrow> nat \<Rightarrow> hyp_pci \<Rightarrow> bytes result \<times> hyp_pci" where
  "Hyp_read_config_space V offset size_of align_of t =
     (if \<not> align_of \<le> 4 then (Panic, t)
      else if offset mod align_of \<noteq> 0 then (Panic, t)
      else and_then (ok_or ConfigSpaceMissing (hp_config_space t), t) (\<lambda>r t.
             if hr_size r < offset + size_of then (Err ConfigSpaceTooSmall, t)
             else lift_then (HypIoRegion_read V r offset size_of (hp_trace t)) (\<lambda>tr. t\<lparr>hp_trace := tr\<rparr>)
                    (\<lambda>bs tr. (Ok bs, t\<lparr>hp_trace := tr\<rparr>))))"

definition Hyp_write_config_space :: "hypervisor \<Rightarrow> nat \<Rightarrow> nat \<Rightarrow> bytes \<Rightarrow> hyp_pci \<Rightarrow> unit result \<times> hyp_pci" where
  "Hyp_write_config_space V offset align_of value_bytes t =
     (if \<not> align_of \<le> 4 then (Panic, t)
      else if offset mod align_of \<noteq> 0 then (Panic, t)
      else and_then (ok_or ConfigSpaceMissing (hp_config_space t), t) (\<lambda>r t.
             if hr_size r < offset + length value_bytes then (Err ConfigSpaceTooSmall, t)
             else lift_then (HypIoRegion_write V r offset value_bytes (hp_trace t)) (\<lambda>tr. t\<lparr>hp_trace := tr\<rparr>)
                    (\<lambda>_ tr. (Ok (), t\<lparr>hp_trace := tr\<rparr>))))"

definition hyp_pci_transport :: "hypervisor \<Rightarrow> hyp_pci transport" where
  "hyp_pci_transport V =
     \<lparr>t_device_type = Hyp_device_type,
      t_read_device_features = Hyp_read_device_features V,
      t_write_driver_features = Hyp_write_driver_features V,
      t_max_queue_size = Hyp_max_queue_size V,
      t_notify = Hyp_notify V,
      t_get_status = Hyp_get_status V,
      t_set_status = Hyp_set_status V,
      t_set_guest_page_size = Hyp_set_guest_page_size,
      t_requires_legacy_layout = Hyp_requires_legacy_layout,
      t_queue_set = Hyp_queue_set V,
      t_queue_unset = Hyp_queue_unset,
      t_queue_used = Hyp_queue_used V,
      t_ack_interrupt = Hyp_ack_interrupt V,
      t_ack_interrupt_raw = ack_interrupt_raw_default,
      t_read_config_generation = Hyp_read_config_generation V,
      t_read_config_space = Hyp_read_config_space V,
      t_write_config_space = Hyp_write_config_space V\<rparr>"

section \<open>The transport is total\<close>

text \<open>The common configuration is large enough and does not wrap around the address space.\<close>

definition hyp_ok :: "hyp_pci \<Rightarrow> bool" where
  "hyp_ok t \<longleftrightarrow> CommonCfg_size \<le> hr_size (hp_common_cfg t) \<and> unat (hr_paddr (hp_common_cfg t)) + CommonCfg_size \<le> 2 ^ 64"

lemma configread_ok:
  assumes "hyp_ok t" "CommonCfg_offset f + n \<le> 56" "n \<le> 8" "0 < n"
  shows "\<exists>bs t'. configread V f n t = (Ok (from_le bs), t') \<and> hyp_ok t'
    \<and> hp_notification_offsets t' = hp_notification_offsets t \<and> hp_common_cfg t' = hp_common_cfg t"
proof -
  let ?r = "hp_common_cfg t"
  have "CommonCfg_offset f + n \<le> hr_size ?r" "unat (hr_paddr ?r) + CommonCfg_offset f < 2 ^ 64"
    using assms by (simp_all add: hyp_ok_def)
  then obtain bs tr where r: "HypIoRegion_read V ?r (CommonCfg_offset f) n (hp_trace t) = (Ok bs, tr)"
    using assms(3) by (cases "hyp_io_read V (hr_paddr ?r + of_nat (CommonCfg_offset f)) n (hp_trace t)")
      (simp add: HypIoRegion_read_def HYP_IO_MAX_def)
  then show ?thesis using assms(1) by (auto simp: configread_def hyp_ok_def)
qed

lemma configwrite_ok:
  assumes "hyp_ok t" "CommonCfg_offset f + n \<le> 56" "n \<le> 8" "0 < n"
  shows "\<exists>t'. configwrite V f n v t = (Ok (), t') \<and> hyp_ok t'
    \<and> hp_notification_offsets t' = hp_notification_offsets t \<and> hp_common_cfg t' = hp_common_cfg t"
proof -
  let ?r = "hp_common_cfg t"
  have "CommonCfg_offset f + n \<le> hr_size ?r" "unat (hr_paddr ?r) + CommonCfg_offset f < 2 ^ 64"
    using assms by (simp_all add: hyp_ok_def)
  then have "HypIoRegion_write V ?r (CommonCfg_offset f) (le_bytes n v) (hp_trace t) =
      (Ok (), snd (HypIoRegion_write V ?r (CommonCfg_offset f) (le_bytes n v) (hp_trace t)))"
    using assms(3) by (simp add: HypIoRegion_write_def HYP_IO_MAX_def)
  then obtain tr where "HypIoRegion_write V ?r (CommonCfg_offset f) (le_bytes n v) (hp_trace t) = (Ok (), tr)" by metis
  then show ?thesis using assms(1) by (auto simp: configwrite_def hyp_ok_def)
qed

interpretation hyp_total: transport_total "hyp_pci_transport V" hyp_ok for V
proof unfold_locales
  fix t assume t: "hyp_ok t"
  obtain t1 where 1: "configwrite V Device_feature_select 4 (0 :: u32) t = (Ok (), t1)" "hyp_ok t1"
    using configwrite_ok [OF t, of Device_feature_select 4 V 0] by auto
  obtain b1 t2 where 2: "configread V Device_feature 4 t1 = (Ok (from_le b1 :: u32), t2)" "hyp_ok t2"
    using configread_ok [OF 1(2), of Device_feature 4 V] by auto
  obtain t3 where 3: "configwrite V Device_feature_select 4 (1 :: u32) t2 = (Ok (), t3)" "hyp_ok t3"
    using configwrite_ok [OF 2(2), of Device_feature_select 4 V 1] by auto
  obtain b2 t4 where 4: "configread V Device_feature 4 t3 = (Ok (from_le b2 :: u32), t4)" "hyp_ok t4"
    using configread_ok [OF 3(2), of Device_feature 4 V] by auto
  show "\<exists>v t'. t_read_device_features (hyp_pci_transport V) t = (Ok v, t') \<and> hyp_ok t'"
    using 1 2 3 4 by (simp add: hyp_pci_transport_def Hyp_read_device_features_def)
next
  fix t and f :: u64 assume t: "hyp_ok t"
  obtain t1 where 1: "configwrite V Driver_feature_select 4 (0 :: u32) t = (Ok (), t1)" "hyp_ok t1"
    using configwrite_ok [OF t, of Driver_feature_select 4 V 0] by auto
  obtain t2 where 2: "configwrite V Driver_feature 4 (ucast f :: u32) t1 = (Ok (), t2)" "hyp_ok t2"
    using configwrite_ok [OF 1(2), of Driver_feature 4 V "ucast f :: u32"] by auto
  obtain t3 where 3: "configwrite V Driver_feature_select 4 (1 :: u32) t2 = (Ok (), t3)" "hyp_ok t3"
    using configwrite_ok [OF 2(2), of Driver_feature_select 4 V 1] by auto
  obtain t4 where 4: "configwrite V Driver_feature 4 (ucast (drop_bit 32 f) :: u32) t3 = (Ok (), t4)" "hyp_ok t4"
    using configwrite_ok [OF 3(2), of Driver_feature 4 V "ucast (drop_bit 32 f) :: u32"] by auto
  show "\<exists>t'. t_write_driver_features (hyp_pci_transport V) f t = (Ok (), t') \<and> hyp_ok t'"
    using 1 2 3 4 by (simp add: hyp_pci_transport_def Hyp_write_driver_features_def)
next
  fix t assume t: "hyp_ok t"
  obtain b1 t2 where 2: "configread V Device_status 1 t = (Ok (from_le b1 :: u8), t2)" "hyp_ok t2"
    using configread_ok [OF t, of Device_status 1 V] by auto
  then show "\<exists>v t'. t_get_status (hyp_pci_transport V) t = (Ok v, t') \<and> hyp_ok t'"
    by (simp add: hyp_pci_transport_def Hyp_get_status_def)
next
  fix t and s :: u32 assume t: "hyp_ok t"
  then show "\<exists>t'. t_set_status (hyp_pci_transport V) s t = (Ok (), t') \<and> hyp_ok t'"
    using configwrite_ok [OF t, of Device_status 1 V "ucast s :: u8"] by (auto simp: hyp_pci_transport_def Hyp_set_status_def)
next
  fix t and n :: u32 assume t: "hyp_ok t"
  then show "\<exists>t'. t_set_guest_page_size (hyp_pci_transport V) n t = (Ok (), t') \<and> hyp_ok t'"
    by (simp add: hyp_pci_transport_def Hyp_set_guest_page_size_def)
next
  fix t assume t: "hyp_ok t"
  then show "\<exists>v t'. t_read_config_generation (hyp_pci_transport V) t = (Ok v, t') \<and> hyp_ok t'"
    using configread_ok [OF t, of Config_gen 4 V] by (auto simp: hyp_pci_transport_def Hyp_read_config_generation_def)
qed

end
