(* ===== verification/Some_Transport.thy ===== *)
theory Some_Transport
  imports Hyp_Pci
begin

text \<open>
  \<^verbatim>\<open>SomeTransport\<close>, src/src/transport/some.rs: a value that is one of the crate's transports, with methods
  that dispatch on it. The targets are those of x86-64, where all three variants exist.
\<close>

datatype some_transport = Some_Mmio mmio | Some_Pci pci | Some_HypPci hyp_pci

text \<open>Every method is a match of the same shape: call the method of the variant and put its state back.\<close>

definition dispatch ::
  "(mmio \<Rightarrow> 'a result \<times> mmio) \<Rightarrow> (pci \<Rightarrow> 'a result \<times> pci) \<Rightarrow> (hyp_pci \<Rightarrow> 'a result \<times> hyp_pci) \<Rightarrow>
     some_transport \<Rightarrow> 'a result \<times> some_transport"
where
  "dispatch f g h t =
     (case t of
        Some_Mmio x \<Rightarrow> (case f x of (r, y) \<Rightarrow> (r, Some_Mmio y))
      | Some_Pci x \<Rightarrow> (case g x of (r, y) \<Rightarrow> (r, Some_Pci y))
      | Some_HypPci x \<Rightarrow> (case h x of (r, y) \<Rightarrow> (r, Some_HypPci y)))"

text \<open>\<^verbatim>\<open>ack_interrupt_raw\<close> calls \<^verbatim>\<open>ack_interrupt\<close> of the variant.\<close>

definition some_transport_impl :: "mmio transport \<Rightarrow> pci transport \<Rightarrow> hyp_pci transport \<Rightarrow> some_transport transport" where
  "some_transport_impl M P H =
     \<lparr>t_device_type = dispatch (t_device_type M) (t_device_type P) (t_device_type H),
      t_read_device_features = dispatch (t_read_device_features M) (t_read_device_features P) (t_read_device_features H),
      t_write_driver_features = (\<lambda>f. dispatch (t_write_driver_features M f) (t_write_driver_features P f) (t_write_driver_features H f)),
      t_max_queue_size = (\<lambda>q. dispatch (t_max_queue_size M q) (t_max_queue_size P q) (t_max_queue_size H q)),
      t_notify = (\<lambda>q. dispatch (t_notify M q) (t_notify P q) (t_notify H q)),
      t_get_status = dispatch (t_get_status M) (t_get_status P) (t_get_status H),
      t_set_status = (\<lambda>s. dispatch (t_set_status M s) (t_set_status P s) (t_set_status H s)),
      t_set_guest_page_size = (\<lambda>n. dispatch (t_set_guest_page_size M n) (t_set_guest_page_size P n) (t_set_guest_page_size H n)),
      t_requires_legacy_layout = (\<lambda>t. case t of
          Some_Mmio x \<Rightarrow> t_requires_legacy_layout M x
        | Some_Pci x \<Rightarrow> t_requires_legacy_layout P x
        | Some_HypPci x \<Rightarrow> t_requires_legacy_layout H x),
      t_queue_set = (\<lambda>q n a b c. dispatch (t_queue_set M q n a b c) (t_queue_set P q n a b c) (t_queue_set H q n a b c)),
      t_queue_unset = (\<lambda>q. dispatch (t_queue_unset M q) (t_queue_unset P q) (t_queue_unset H q)),
      t_queue_used = (\<lambda>q. dispatch (t_queue_used M q) (t_queue_used P q) (t_queue_used H q)),
      t_ack_interrupt = dispatch (t_ack_interrupt M) (t_ack_interrupt P) (t_ack_interrupt H),
      t_ack_interrupt_raw = dispatch (t_ack_interrupt M) (t_ack_interrupt P) (t_ack_interrupt H),
      t_read_config_generation = dispatch (t_read_config_generation M) (t_read_config_generation P) (t_read_config_generation H),
      t_read_config_space = (\<lambda>p n a. dispatch (t_read_config_space M p n a) (t_read_config_space P p n a) (t_read_config_space H p n a)),
      t_write_config_space = (\<lambda>p a v. dispatch (t_write_config_space M p a v) (t_write_config_space P p a v) (t_write_config_space H p a v))\<rparr>"

definition some_ok :: "some_transport \<Rightarrow> bool" where
  "some_ok t = (case t of Some_HypPci x \<Rightarrow> hyp_ok x | _ \<Rightarrow> True)"

definition some_of :: "nat \<Rightarrow> mmio_dev \<Rightarrow> pci_dev \<Rightarrow> hypervisor \<Rightarrow> some_transport transport" where
  "some_of fuel D P V = some_transport_impl (mmio_transport fuel D) (pci_transport P) (hyp_pci_transport V)"

lemma dispatch_total:
  assumes "\<And>x. \<exists>v x'. f x = (Ok v, x')" "\<And>x. \<exists>v x'. g x = (Ok v, x')" "\<And>x. hyp_ok x \<Longrightarrow> \<exists>v x'. h x = (Ok v, x') \<and> hyp_ok x'"
    "some_ok t"
  shows "\<exists>v t'. dispatch f g h t = (Ok v, t') \<and> some_ok t'"
proof (cases t)
  case (Some_Mmio x)
  with assms(1) [of x] show ?thesis by (auto simp: dispatch_def some_ok_def)
next
  case (Some_Pci x)
  with assms(2) [of x] show ?thesis by (auto simp: dispatch_def some_ok_def)
next
  case (Some_HypPci x)
  with assms(3) [of x] assms(4) show ?thesis by (auto simp: dispatch_def some_ok_def)
qed

interpretation some_total: transport_total "some_of fuel D P V" some_ok for fuel D P V
proof unfold_locales
  fix t assume t: "some_ok t"
  show "\<exists>v t'. t_read_device_features (some_of fuel D P V) t = (Ok v, t') \<and> some_ok t'"
    using dispatch_total [OF _ _ _ t, of "t_read_device_features (mmio_transport fuel D)" "t_read_device_features (pci_transport P)"
        "t_read_device_features (hyp_pci_transport V)"]
      mmio_total.read_features pci_total.read_features hyp_total.read_features
    by (simp add: some_of_def some_transport_impl_def)
  show "\<exists>v t'. t_get_status (some_of fuel D P V) t = (Ok v, t') \<and> some_ok t'"
    using dispatch_total [OF _ _ _ t, of "t_get_status (mmio_transport fuel D)" "t_get_status (pci_transport P)"
        "t_get_status (hyp_pci_transport V)"]
      mmio_total.get_status pci_total.get_status hyp_total.get_status
    by (simp add: some_of_def some_transport_impl_def)
  show "\<exists>v t'. t_read_config_generation (some_of fuel D P V) t = (Ok v, t') \<and> some_ok t'"
    using dispatch_total [OF _ _ _ t, of "t_read_config_generation (mmio_transport fuel D)" "t_read_config_generation (pci_transport P)"
        "t_read_config_generation (hyp_pci_transport V)"]
      mmio_total.read_config_generation pci_total.read_config_generation hyp_total.read_config_generation
    by (simp add: some_of_def some_transport_impl_def)
next
  fix t and f :: u64 assume t: "some_ok t"
  show "\<exists>t'. t_write_driver_features (some_of fuel D P V) f t = (Ok (), t') \<and> some_ok t'"
    using dispatch_total [OF _ _ _ t, of "t_write_driver_features (mmio_transport fuel D) f" "t_write_driver_features (pci_transport P) f"
        "t_write_driver_features (hyp_pci_transport V) f"]
      mmio_total.write_features pci_total.write_features hyp_total.write_features
    by (simp add: some_of_def some_transport_impl_def)
next
  fix t and s :: u32 assume t: "some_ok t"
  show "\<exists>t'. t_set_status (some_of fuel D P V) s t = (Ok (), t') \<and> some_ok t'"
    using dispatch_total [OF _ _ _ t, of "t_set_status (mmio_transport fuel D) s" "t_set_status (pci_transport P) s"
        "t_set_status (hyp_pci_transport V) s"]
      mmio_total.set_status pci_total.set_status hyp_total.set_status
    by (simp add: some_of_def some_transport_impl_def)
  show "\<exists>t'. t_set_guest_page_size (some_of fuel D P V) s t = (Ok (), t') \<and> some_ok t'"
    using dispatch_total [OF _ _ _ t, of "t_set_guest_page_size (mmio_transport fuel D) s" "t_set_guest_page_size (pci_transport P) s"
        "t_set_guest_page_size (hyp_pci_transport V) s"]
      mmio_total.set_guest_page_size pci_total.set_guest_page_size hyp_total.set_guest_page_size
    by (simp add: some_of_def some_transport_impl_def)
qed

end
