(* ===== verification/Pci_Bus_Props.thy ===== *)
theory Pci_Bus_Props
  imports Pci_Bus
begin


text \<open>
  Properties of the PCI bus: addresses in configuration space, sizing of base address registers and
  enumeration of the functions on a bus.
\<close>

section \<open>Addresses in configuration space\<close>

lemma nat_or_shift:
  assumes "(a :: nat) < 2 ^ n"
  shows "push_bit n b OR a = b * 2 ^ n + a"
proof -
  have a: "take_bit n a = a" using assms by (simp add: take_bit_nat_eq_self)
  have "push_bit n b AND a = 0"
    by (subst a [symmetric]) (auto simp: bit_eq_iff bit_simps)
  then show ?thesis by (metis disjunctive_add_eq_or push_bit_nat_def push_bit_eq_mult)
qed

lemma unat_push_bit_small:
  assumes "unat (w :: u32) * 2 ^ n < 2 ^ 32"
  shows "unat (push_bit n w) = unat w * 2 ^ n"
proof -
  have "unat (push_bit n w) = take_bit 32 (push_bit n (unat w))" by (simp only: unsigned_push_bit_eq) simp
  then show ?thesis using assms by (simp add: push_bit_eq_mult take_bit_nat_eq_self)
qed

lemma and_3_eq_0: "(w :: u32) AND 3 = 0 \<longleftrightarrow> unat w mod 4 = 0"
proof -
  have "w AND 3 = take_bit 2 w" by (simp add: take_bit_eq_mask mask_eq_exp_minus_1)
  then have "unat (w AND 3) = unat w mod 4"
    by (simp only: unsigned_take_bit_eq) (simp add: take_bit_eq_mod)
  then show ?thesis by (metis unat_eq_zero)
qed

lemma unat_ucast_u8 [simp]: "unat (ucast (b :: u8) :: u32) = unat b"
  by (simp add: unsigned_ucast_eq take_bit_nat_eq_self_iff order_less_le_trans [OF unsigned_less])

lemma unat_of_nat_u32: "n < 2 ^ 32 \<Longrightarrow> unat (of_nat n :: u32) = n"
  by (simp add: unat_of_nat take_bit_nat_eq_self)

lemma u8_bound: "unat (x :: u8) < 256"
  using unsigned_less [of x] by simp

definition function_number :: "device_function \<Rightarrow> nat" where
  "function_number df = unat (df_bus df) * 256 + unat (df_device df) * 8 + unat (df_function df)"

lemma function_number_bound: "DeviceFunction_valid df \<Longrightarrow> function_number df < 65536"
  using u8_bound [of "df_bus df"] by (simp add: DeviceFunction_valid_def function_number_def word_less_nat_alt)

lemma unat_bdf:
  assumes "DeviceFunction_valid df"
  shows "unat (push_bit 8 (ucast (df_bus df)) OR push_bit 3 (ucast (df_device df)) OR ucast (df_function df) :: u32) = function_number df"
proof -
  have b: "unat (df_bus df) < 256" "unat (df_device df) < 32" "unat (df_function df) < 8"
    using assms u8_bound [of "df_bus df"] by (simp_all add: DeviceFunction_valid_def word_less_nat_alt)
  have p: "unat (push_bit 3 (ucast (df_device df)) :: u32) = unat (df_device df) * 8"
    "unat (push_bit 8 (ucast (df_bus df)) :: u32) = unat (df_bus df) * 256"
    using unat_push_bit_small [of "ucast (df_device df)" 3] unat_push_bit_small [of "ucast (df_bus df)" 8] b by simp_all
  have "unat (df_device df) * 8 OR unat (df_function df) = unat (df_device df) * 8 + unat (df_function df)"
    using b nat_or_shift [of "unat (df_function df)" 3 "unat (df_device df)"] by (simp add: push_bit_eq_mult)
  then have "unat (push_bit 8 (ucast (df_bus df)) OR (push_bit 3 (ucast (df_device df)) OR ucast (df_function df)) :: u32)
      = unat (df_bus df) * 256 OR (unat (df_device df) * 8 + unat (df_function df))"
    by (simp only: unsigned_or_eq p unat_ucast_u8)
  also have "\<dots> = function_number df"
    using b nat_or_shift [of "unat (df_device df) * 8 + unat (df_function df)" 8 "unat (df_bus df)"]
    by (simp add: push_bit_eq_mult function_number_def)
  finally show ?thesis by (simp add: or.assoc)
qed

lemma cam_offset_eq:
  assumes "DeviceFunction_valid df"
  shows "cam_offset cam df off =
    (if unat off mod 4 = 0 then Some (of_nat (function_number df * 2 ^ Cam_shift cam + unat off)) else None)"
proof -
  let ?bdf = "push_bit 8 (ucast (df_bus df)) OR push_bit 3 (ucast (df_device df)) OR ucast (df_function df) :: u32"
  let ?a = "push_bit (Cam_shift cam) ?bdf OR ucast off :: u32"
  have s: "8 \<le> Cam_shift cam" "function_number df * 2 ^ Cam_shift cam + 256 \<le> unat (Cam_size cam)" "unat (Cam_size cam) < 2 ^ 32"
    using function_number_bound [OF assms] by (cases cam; simp)+
  have "unat off < 2 ^ Cam_shift cam"
    using u8_bound [of off] power_increasing [OF s(1), of "2 :: nat"] by simp
  moreover have "unat (push_bit (Cam_shift cam) ?bdf) = function_number df * 2 ^ Cam_shift cam"
    using unat_push_bit_small [of ?bdf "Cam_shift cam"] unat_bdf [OF assms] s by simp
  ultimately have a: "unat ?a = function_number df * 2 ^ Cam_shift cam + unat off"
    using nat_or_shift [of "unat off" "Cam_shift cam" "function_number df"]
    by (simp add: unsigned_or_eq push_bit_eq_mult)
  then have "?a < Cam_size cam" using s u8_bound [of off] by (simp add: word_less_nat_alt)
  moreover have "?a AND 3 = 0 \<longleftrightarrow> unat off mod 4 = 0"
  proof -
    have "?a AND 3 = 0 \<longleftrightarrow> unat ?a mod 4 = 0" by (rule and_3_eq_0)
    moreover have "(4 :: nat) dvd 2 ^ Cam_shift cam" using s(1) le_imp_power_dvd [of 2 "Cam_shift cam" "2 :: nat"] by simp
    then obtain q :: nat where "2 ^ Cam_shift cam = 4 * q" by (rule dvdE)
    then have "function_number df * 2 ^ Cam_shift cam + unat off = unat off + function_number df * q * 4" by simp
    then have "(function_number df * 2 ^ Cam_shift cam + unat off) mod 4 = unat off mod 4" by (simp only: mod_mult_self1)
    ultimately show ?thesis using a by simp
  qed
  moreover have "?a = of_nat (function_number df * 2 ^ Cam_shift cam + unat off)" unfolding a [symmetric] by simp
  ultimately show ?thesis using assms unfolding cam_offset_def Let_def by simp
qed

lemma cam_offset_invalid: "\<not> DeviceFunction_valid df \<Longrightarrow> cam_offset cam df off = None"
  by (simp add: cam_offset_def)

lemma function_number_inj:
  assumes "DeviceFunction_valid df" "DeviceFunction_valid df'" "function_number df = function_number df'"
  shows "df = df'"
proof -
  have b: "unat (df_device x) < 32" "unat (df_function x) < 8" if "DeviceFunction_valid x" for x
    using that by (simp_all add: DeviceFunction_valid_def word_less_nat_alt)
  note b1 = b [OF assms(1)] and b2 = b [OF assms(2)]
  have "unat (df_bus df) = unat (df_bus df') \<and> unat (df_device df) = unat (df_device df') \<and> unat (df_function df) = unat (df_function df')"
  proof -
    have dec: "b = b' \<and> d = d' \<and> f = f'" if "d < 32" "f < 8" "d' < 32" "f' < 8"
      and e: "b * 256 + d * 8 + f = b' * 256 + d' * 8 + f'" for b d f b' d' f' :: nat
    proof -
      have "d * 8 + f < 256" "d' * 8 + f' < 256" using that by simp_all
      then have "(b * 256 + (d * 8 + f)) div 256 = b" "(b' * 256 + (d' * 8 + f')) div 256 = b'" by simp_all
      then have b: "b = b'" using e by (simp add: add.assoc)
      then have df: "d * 8 + f = d' * 8 + f'" using e by simp
      moreover have "(d * 8 + f) div 8 = d" "(d' * 8 + f') div 8 = d'" using that by simp_all
      ultimately have "d = d'" by simp
      with b df show ?thesis by simp
    qed
    show ?thesis by (rule dec [OF b1 b2 assms(3) [unfolded function_number_def]])
  qed
  then show ?thesis by (intro device_function.equality) (simp_all add: word_unat_eq_iff)
qed

lemma cam_bound:
  assumes "DeviceFunction_valid df"
  shows "function_number df * 2 ^ Cam_shift cam + unat (off :: u8) < unat (Cam_size cam)"
  using function_number_bound [OF assms] u8_bound [of off] by (cases cam) simp_all

text \<open>
  C28. The address of a configuration register. The computation of \<^verbatim>\<open>cam_offset\<close> succeeds exactly for valid
  device and function numbers and word-aligned registers. Then the address is the function's number times
  the size of a configuration space, plus the register; it is inside the region, and no two registers of
  any two functions have the same address.
\<close>

theorem cam_offset_exact:
  "(cam_offset cam df off = Some a \<longleftrightarrow>
      DeviceFunction_valid df \<and> unat off mod 4 = 0 \<and> unat a = function_number df * 2 ^ Cam_shift cam + unat off)
   \<and> (cam_offset cam df off = Some a \<longrightarrow> a < Cam_size cam)
   \<and> (cam_offset cam df off = Some a \<and> cam_offset cam df' off' = Some a \<longrightarrow> df' = df \<and> off' = off)"
proof -
  have iff: "cam_offset cam df off = Some a \<longleftrightarrow>
      DeviceFunction_valid df \<and> unat off mod 4 = 0 \<and> unat a = function_number df * 2 ^ Cam_shift cam + unat off" for df off
  proof (cases "DeviceFunction_valid df")
    case True
    have "unat (Cam_size cam) < 2 ^ 32" by (cases cam) simp_all
    then have "unat (of_nat (function_number df * 2 ^ Cam_shift cam + unat off) :: u32) = function_number df * 2 ^ Cam_shift cam + unat off"
      using cam_bound [OF True, of cam off] by (intro unat_of_nat_u32) simp
    then show ?thesis using True by (auto simp: cam_offset_eq word_unat_eq_iff)
  qed (simp add: cam_offset_invalid)
  have "df' = df \<and> off' = off" if "cam_offset cam df off = Some a" "cam_offset cam df' off' = Some a"
  proof -
    let ?m = "2 ^ Cam_shift cam :: nat"
    have v: "DeviceFunction_valid df" "DeviceFunction_valid df'"
      and e: "function_number df * ?m + unat off = function_number df' * ?m + unat off'"
      using that by (auto simp: iff)
    have "256 \<le> ?m" by (cases cam) simp_all
    then have l: "unat off < ?m" "unat off' < ?m" using u8_bound [of off] u8_bound [of off'] by linarith+
    from arg_cong [OF e, of "\<lambda>x. x div ?m"] arg_cong [OF e, of "\<lambda>x. x mod ?m"] l
    have "function_number df = function_number df'" "unat off = unat off'" by simp_all
    then show ?thesis using function_number_inj [OF v] by (simp add: word_unat_eq_iff)
  qed
  moreover have "a < Cam_size cam" if "cam_offset cam df off = Some a"
    using that cam_bound [of df cam off] by (simp add: iff word_less_nat_alt)
  ultimately show ?thesis using iff [of df off] by blast
qed

theorem cam_offset_exact_witness:
  "cam_offset Ecam \<lparr>df_bus = 0, df_device = 1, df_function = 2\<rparr> 0x34 = Some 0xa034 \<and> (0xa034 :: u32) < Cam_size Ecam"
proof -
  have "cam_offset Ecam \<lparr>df_bus = 0, df_device = 1, df_function = 2\<rparr> 0x34 = Some 0xa034"
    using cam_offset_exact [of Ecam "\<lparr>df_bus = 0, df_device = 1, df_function = 2\<rparr>" "0x34" "0xa034"]
    by (simp add: DeviceFunction_valid_def function_number_def)
  then show ?thesis
    using cam_offset_exact [of Ecam "\<lparr>df_bus = 0, df_device = 1, df_function = 2\<rparr>" "0x34" "0xa034"] by blast
qed

section \<open>Base address registers\<close>

text \<open>
  A device as the PCI specification has it: each register has a mask of writable bits, the others are
  fixed. The device's registers after the accesses of a trace.
\<close>

fun cfg_access :: "(nat \<Rightarrow> u32) \<Rightarrow> cam_event \<Rightarrow> (nat \<Rightarrow> u32) \<Rightarrow> nat \<Rightarrow> u32" where
  "cfg_access writable (CamRead i v) r = r"
| "cfg_access writable (CamWrite i v) r = r(i := (v AND writable i) OR (r i AND NOT (writable i)))"

definition cfg_regs :: "(nat \<Rightarrow> u32) \<Rightarrow> (nat \<Rightarrow> u32) \<Rightarrow> cam_dev" where
  "cfg_regs writable initial tr = fold (cfg_access writable) tr initial"

lemma cfg_regs_append [simp]: "cfg_regs w r (tr @ es) = fold (cfg_access w) es (cfg_regs w r tr)"
  by (simp add: cfg_regs_def)

text \<open>The index of the word that holds a register.\<close>

definition cfg_word :: "Cam \<Rightarrow> device_function \<Rightarrow> nat \<Rightarrow> nat" where
  "cfg_word cam df off = (function_number df * 2 ^ Cam_shift cam + off) div 4"

lemma cam_offset_word:
  assumes "DeviceFunction_valid df" "unat off mod 4 = 0"
  shows "\<exists>a. cam_offset cam df off = Some a \<and> unat (drop_bit 2 a) = cfg_word cam df (unat off)"
proof -
  let ?n = "function_number df * 2 ^ Cam_shift cam + unat off"
  have "unat (Cam_size cam) < 2 ^ 32" by (cases cam) simp_all
  then have "unat (of_nat ?n :: u32) = ?n"
    using cam_bound [OF assms(1), of cam off] by (intro unat_of_nat_u32) simp
  moreover have "unat (drop_bit 2 w) = unat w div 4" for w :: u32
    by (simp add: drop_bit_eq_div unat_div)
  ultimately show ?thesis using assms by (simp add: cam_offset_eq cfg_word_def)
qed

lemma read_word_regs:
  assumes "DeviceFunction_valid df" "unat off mod 4 = 0"
  shows "read_word (mmio_cam_access D) df off c =
    (let i = cfg_word (mc_cam c) df (unat off); v = D (cam_trace c) i in (Ok v, c\<lparr>cam_trace := cam_trace c @ [CamRead i v]\<rparr>))"
  using cam_offset_word [OF assms, of "mc_cam c"]
  by (auto simp: read_word_def or_panic_def mmio_cam_access_def MmioCam_read_word_def Let_def)

lemma write_word_regs:
  assumes "DeviceFunction_valid df" "unat off mod 4 = 0"
  shows "write_word (mmio_cam_access D) df off v c =
    (Ok (), c\<lparr>cam_trace := cam_trace c @ [CamWrite (cfg_word (mc_cam c) df (unat off)) v]\<rparr>)"
  using cam_offset_word [OF assms, of "mc_cam c"]
  by (auto simp: write_word_def or_panic_def mmio_cam_access_def MmioCam_write_word_def)

lemma bar_register_ok:
  assumes "unat b < 6"
  shows "bar_register b = Ok (BAR0_OFFSET + 4 * b)" "unat (BAR0_OFFSET + 4 * b) = 16 + 4 * unat b"
proof -
  have "unat (4 * b) = 4 * unat b" using assms by (simp add: unat_word_ariths)
  then show "unat (BAR0_OFFSET + 4 * b) = 16 + 4 * unat b" using assms by (simp add: unat_word_ariths BAR0_OFFSET_def)
  show "bar_register b = Ok (BAR0_OFFSET + 4 * b)" using assms by (simp add: bar_register_def)
qed

lemma mask_words:
  "(0xfffffff0 :: u32) = NOT (mask 4)" "(0xfffffffc :: u32) = NOT (mask 2)" "(0xffffffff :: u32) = NOT 0"
  by (simp_all add: mask_eq_exp_minus_1)

text \<open>What the probing write leaves in a register whose writable bits are those from \<open>k\<close> on.\<close>

lemma bar_size:
  assumes "k < 32" "(v :: u32) AND NOT w AND NOT (mask 4) = 0" "w = NOT (mask k)"
  shows "NOT (((0xffffffff AND w) OR (v AND NOT w)) AND 0xfffffff0) + 1 = 2 ^ max 4 k"
proof -
  have "((NOT 0 AND w) OR (v AND NOT w)) AND NOT (mask 4) = w AND NOT (mask 4)"
    using assms(2) by (simp add: bit.conj_disj_distrib2 and.assoc)
  also have "\<dots> = NOT (mask (max 4 k))"
    unfolding assms(3) by (rule bit_word_eqI) (auto simp: bit_simps)
  finally have "NOT (((0xffffffff AND w) OR (v AND NOT w)) AND 0xfffffff0) = mask (max 4 k)"
    by (simp only: mask_words) simp
  then show ?thesis by (simp add: mask_eq_exp_minus_1)
qed

lemma bar_restore: "((v AND w) OR (((0xffffffff AND w) OR (v AND NOT w)) AND NOT w)) = (v :: u32)"
  unfolding mask_words by (rule bit_word_eqI) (auto simp: bit_simps)

lemma and_exp: "(v :: u32) AND 2 ^ n = (if bit v n then 2 ^ n else 0)"
  by (rule bit_word_eqI) (auto simp: bit_simps)

lemma and_bits [simp]:
  "(v :: u32) AND 1 = 1 \<longleftrightarrow> bit v 0" "v AND 8 = 0 \<longleftrightarrow> \<not> bit v 3"
  "v AND 6 = (if bit v 1 then 2 else 0) + (if bit v 2 then 4 else 0)"
proof -
  have "v AND 6 = (v AND 2) OR (v AND 4)" using bit.conj_disj_distrib [of v 2 4] by simp
  then show "v AND 6 = (if bit v 1 then 2 else 0) + (if bit v 2 then 4 else 0)"
    using and_exp [of v 1] and_exp [of v 2] by simp
qed (use and_exp [of v 0] and_exp [of v 3] in simp_all)

lemma bar_type:
  "MemoryBarType_try_from (ucast (drop_bit 1 ((v :: u32) AND 6))) =
    (if bit v 1 then (if bit v 2 then Err InvalidBarType else Ok Below1MiB) else if bit v 2 then Ok Width64 else Ok Width32)"
  unfolding and_bits(3) by (simp add: MemoryBarType_try_from_def)

text \<open>
  C29. Probing a base address register on a device whose registers have writable and fixed bits. If the
  writable bits of the register are those from bit \<open>k\<close> on and its address is aligned to its size, then
  \<^verbatim>\<open>bar_info\<close> reports, by the type in the low bits, the address and the size \<open>2 ^ k\<close> of a memory BAR, with
  the upper half of a 64-bit address from the next register, or the address of an I/O BAR; the two error
  cases are the reserved type and a 64-bit BAR in the last register. Afterwards every register of every
  function has the value it had before. The size of an I/O BAR below 16 bytes is reported as 16.
\<close>

theorem bar_info_correct:
  assumes "DeviceFunction_valid df" "unat b < 6"
    and "i = cfg_word (mc_cam c) df (16 + 4 * unat b)" "regs = cfg_regs writable initial (cam_trace c)" "v = regs i"
    and "writable i = NOT (mask k)" "k < 32" "v AND NOT (writable i) AND NOT (mask 4) = 0" "\<not> bit v 0 \<Longrightarrow> 4 \<le> k"
    and "upper = regs (cfg_word (mc_cam c) df (20 + 4 * unat b))"
  shows "\<exists>c'. cfg_regs writable initial (cam_trace c') = regs \<and>
    bar_info (mmio_cam_access (cfg_regs writable initial)) df b c =
      ((if bit v 0 then Ok (BarIO (v AND 0xfffffffc) (2 ^ max 4 k))
        else if bit v 1 then (if bit v 2 then Err InvalidBarType else Ok (BarMemory Below1MiB (bit v 3) (ucast (v AND 0xfffffff0)) (2 ^ k)))
        else if \<not> bit v 2 then Ok (BarMemory Width32 (bit v 3) (ucast (v AND 0xfffffff0)) (2 ^ k))
        else if b = 5 then Err InvalidBarType
        else Ok (BarMemory Width64 (bit v 3) (ucast (v AND 0xfffffff0) OR push_bit 32 (ucast upper)) (2 ^ k))), c')"
proof -
  let ?A = "mmio_cam_access (cfg_regs writable initial)"
  note reg = bar_register_ok [OF assms(2)]
  have al: "unat (BAR0_OFFSET + 4 * b) mod 4 = 0" using reg(2) by simp
  define m where "m = (0xffffffff AND writable i) OR (v AND NOT (writable i))"
  define c4 where "c4 = c\<lparr>cam_trace := cam_trace c @ [CamRead i v, CamWrite i 0xffffffff, CamRead i m, CamWrite i v]\<rparr>"
  have rs: "cfg_regs writable initial (cam_trace c) = regs" "regs i = v" "cfg_word (mc_cam c) df (16 + 4 * unat b) = i"
    using assms(3-5) by simp_all
  have restored: "(v AND writable i) OR (m AND NOT (writable i)) = v" unfolding m_def by (rule bar_restore)
  have regs4: "cfg_regs writable initial (cam_trace c4) = regs"
    using rs by (simp add: c4_def m_def [symmetric] restored fun_upd_idem)
  have n: "NOT (m AND 0xfffffff0) + 1 = 2 ^ max 4 k"
    unfolding m_def using bar_size [OF assms(7,8,6)] .
  let ?R = "BAR0_OFFSET + 4 * b"
  define c1 where "c1 = c\<lparr>cam_trace := cam_trace c @ [CamRead i v]\<rparr>"
  define c2 where "c2 = c\<lparr>cam_trace := cam_trace c @ [CamRead i v, CamWrite i 0xffffffff]\<rparr>"
  define c3 where "c3 = c\<lparr>cam_trace := cam_trace c @ [CamRead i v, CamWrite i 0xffffffff, CamRead i m]\<rparr>"
  have r1: "read_word ?A df ?R c = (Ok v, c1)"
    using rs by (simp add: read_word_regs [OF assms(1) al] Let_def reg(2) c1_def)
  have w2: "write_word ?A df ?R 0xffffffff c1 = (Ok (), c2)"
    using rs by (simp add: write_word_regs [OF assms(1) al] reg(2) c1_def c2_def)
  have r3: "read_word ?A df ?R c2 = (Ok m, c3)"
    using rs by (simp add: read_word_regs [OF assms(1) al] Let_def reg(2) c2_def c3_def m_def)
  have w4: "write_word ?A df ?R v c3 = (Ok (), c4)"
    using rs by (simp add: write_word_regs [OF assms(1) al] reg(2) c3_def c4_def)
  have head: "bar_info ?A df b c =
      (if bit v 0 then (Ok (BarIO (v AND 0xfffffffc) (2 ^ max 4 k)), c4)
       else and_then (MemoryBarType_try_from (ucast (drop_bit 1 (v AND 6))), c4) (\<lambda>ty c4.
              if ty = Width64
              then if b \<ge> 5 then (Err InvalidBarType, c4)
                   else and_then (bar_register (b + 1), c4) (\<lambda>reg c.
                        and_then (read_word ?A df reg c) (\<lambda>upper c.
                          (Ok (BarMemory ty (bit v 3) (ucast (v AND 0xfffffff0) OR push_bit 32 (ucast upper)) (2 ^ max 4 k)), c)))
              else (Ok (BarMemory ty (bit v 3) (ucast (v AND 0xfffffff0)) (2 ^ max 4 k)), c4)))"
    unfolding bar_info_def
    by (simp only: reg(1) and_then_simps r1 w2 r3 w4 Let_def n and_bits(1,2) not_not numeral_One)
  note head' = head [unfolded bar_type]
  show ?thesis
  proof (cases "bit v 0 \<or> bit v 1 \<or> \<not> bit v 2 \<or> b = 5")
    case True
    have "b \<ge> 5 \<longleftrightarrow> b = 5" using assms(2) by (auto simp: word_le_nat_alt word_unat_eq_iff)
    with True show ?thesis using regs4 assms(9)
      by (intro exI [of _ c4]) (auto simp: head' max_def)
  next
    case False
    then have b5: "unat b < 5" using assms(2) by (simp add: word_unat_eq_iff)
    then have b1: "unat (b + 1) = unat b + 1" by (simp add: unat_word_ariths)
    then obtain R' where reg': "bar_register (b + 1) = (Ok R' :: (PciError, u8) outcome)" "unat R' = 20 + 4 * unat b"
      using bar_register_ok [of "b + 1"] b5 by simp
    then have "unat R' mod 4 = 0" "mc_cam c4 = mc_cam c" by (simp_all add: c4_def)
    define c5 where "c5 = c4\<lparr>cam_trace := cam_trace c4 @ [CamRead (cfg_word (mc_cam c) df (20 + 4 * unat b)) upper]\<rparr>"
    have "read_word ?A df R' c4 = (Ok upper :: (PciError, u32) outcome, c5)"
      unfolding read_word_regs [OF assms(1) \<open>unat R' mod 4 = 0\<close>] Let_def reg'(2) regs4 \<open>mc_cam c4 = mc_cam c\<close>
      by (simp only: assms(10) [symmetric] c5_def)
    moreover have "\<not> b \<ge> 5" using b5 by (simp add: word_le_nat_alt)
    moreover have "cfg_regs writable initial (cam_trace c5) = regs" using regs4 by (simp add: c5_def)
    ultimately show ?thesis using False reg'(1) assms(9)
      by (intro exI [of _ c5]) (simp add: head' max_def)
  qed
qed
theorem bar_info_correct_witness:
  "\<exists>c'. bar_info (mmio_cam_access (cfg_regs (\<lambda>_. NOT (mask 12)) (\<lambda>_. 0xfeb00008))) \<lparr>df_bus = 0, df_device = 0, df_function = 0\<rparr> 0
       \<lparr>mmio_base = 0, mc_cam = Ecam, cam_trace = []\<rparr> = (Ok (BarMemory Width32 True 0xfeb00000 4096), c')"
proof -
  let ?c = "\<lparr>mmio_base = 0, mc_cam = Ecam, cam_trace = []\<rparr> :: mmio_cam" and ?df = "\<lparr>df_bus = 0, df_device = 0, df_function = 0\<rparr>"
  have v: "DeviceFunction_valid ?df" "unat (0 :: u8) < 6" by (simp_all add: DeviceFunction_valid_def)
  have a: "(0xfeb00008 :: u32) AND NOT (NOT (mask 12)) AND NOT (mask 4) = 0" "\<not> bit (0xfeb00008 :: u32) 0"
    "\<not> bit (0xfeb00008 :: u32) 1" "\<not> bit (0xfeb00008 :: u32) 2" "bit (0xfeb00008 :: u32) 3"
    "ucast ((0xfeb00008 :: u32) AND 0xfffffff0) = (0xfeb00000 :: u64)"
    by (simp_all add: mask_eq_exp_minus_1)
  have r: "cfg_regs (\<lambda>_. NOT (mask 12)) (\<lambda>_. 0xfeb00008) (cam_trace ?c) = (\<lambda>_. 0xfeb00008)" by (simp add: cfg_regs_def)
  from bar_info_correct [OF v refl r [symmetric] refl refl _ a(1) _ refl] a(2-)
  show ?thesis by (auto simp del: and_bits)
qed

declare BusDeviceIterator_next.simps [simp del] bars_loop.simps [simp del]

section \<open>Enumeration\<close>

text \<open>\<^verbatim>\<open>for (device_function, info) in root.enumerate_bus(bus)\<close>, collecting what the iterator returns.\<close>

fun collect_functions ::
  "nat \<Rightarrow> 'c config_access \<Rightarrow> device_function \<times> 'c \<Rightarrow> (PciError, (device_function \<times> device_function_info) list) outcome \<times> (device_function \<times> 'c)"
where
  "collect_functions 0 C s = (Diverge, s)"
| "collect_functions (Suc fuel) C s =
     and_then (BusDeviceIterator_next C s) (\<lambda>r s.
       case r of
         None \<Rightarrow> (Ok [], s)
       | Some x \<Rightarrow> and_then (collect_functions fuel C s) (\<lambda>xs s. (Ok (x # xs), s)))"

text \<open>The \<open>n\<close>-th function of a bus, and what a device with constant registers says about it.\<close>

definition nth_function :: "u8 \<Rightarrow> nat \<Rightarrow> device_function" where
  "nth_function bus n = \<lparr>df_bus = bus, df_device = of_nat (n div 8), df_function = of_nat (n mod 8)\<rparr>"

definition present :: "(nat \<Rightarrow> u32) \<Rightarrow> Cam \<Rightarrow> device_function \<Rightarrow> bool" where
  "present R cam df \<longleftrightarrow> R (cfg_word cam df 0) \<noteq> INVALID_READ"

definition function_info :: "(nat \<Rightarrow> u32) \<Rightarrow> Cam \<Rightarrow> device_function \<Rightarrow> device_function_info" where
  "function_info R cam df =
     (let id = R (cfg_word cam df 0); cls = R (cfg_word cam df 8); hdr = R (cfg_word cam df 12)
      in \<lparr>vendor_id = ucast id, device_id = ucast (drop_bit 16 id),
          pci_class = ucast (drop_bit 24 cls), pci_subclass = ucast (drop_bit 16 cls), prog_if = ucast (drop_bit 8 cls),
          revision = ucast cls, header_type = HeaderType_from (ucast (drop_bit 16 hdr) AND 0x7f)\<rparr>)"

lemma unat_of_nat_u8: "n < 256 \<Longrightarrow> unat (of_nat n :: u8) = n"
  by (simp add: unat_of_nat take_bit_nat_eq_self)

lemma nth_function_valid: "n < 256 \<Longrightarrow> DeviceFunction_valid (nth_function bus n)"
  by (simp add: DeviceFunction_valid_def nth_function_def word_less_nat_alt unat_of_nat_u8 less_mult_imp_div_less)

lemma nth_function_more: "n \<le> 256 \<Longrightarrow> df_device (nth_function bus n) < MAX_DEVICES \<longleftrightarrow> n < 256"
proof -
  assume n: "n \<le> 256"
  then have "unat (of_nat (n div 8) :: u8) = n div 8" by (intro unat_of_nat_u8) simp
  with n show ?thesis by (simp add: nth_function_def MAX_DEVICES_def word_less_nat_alt) linarith
qed

lemma advance_nth:
  assumes "n < 256"
  shows "advance (nth_function bus n) = Some (nth_function bus (n + 1))"
proof -
  have f: "unat (of_nat (n mod 8) :: u8) = n mod 8" by (intro unat_of_nat_u8) simp
  have f1: "of_nat (n mod 8) + 1 = (of_nat (n mod 8 + 1) :: u8)" "of_nat (n div 8) + 1 = (of_nat (n div 8 + 1) :: u8)" by simp_all
  have "unat (of_nat (n mod 8 + 1) :: u8) = n mod 8 + 1" by (intro unat_of_nat_u8) simp
  then have ge: "(of_nat (n mod 8 + 1) :: u8) \<ge> MAX_FUNCTIONS \<longleftrightarrow> n mod 8 = 7"
    by (simp add: MAX_FUNCTIONS_def word_le_nat_alt) linarith
  have ne: "(of_nat (n mod 8) :: u8) \<noteq> 255" using f by (auto simp: word_unat_eq_iff)
  show ?thesis
  proof (cases "n mod 8 = 7")
    case True
    then have "(n + 1) div 8 = n div 8 + 1" "(n + 1) mod 8 = 0" by (simp_all add: mod_Suc div_Suc)
    with True ge ne f1 show ?thesis by (simp only: advance_def nth_function_def Let_def) (simp add: add.commute)
  next
    case False
    then have "(n + 1) div 8 = n div 8" "(n + 1) mod 8 = n mod 8 + 1" by (simp_all add: mod_Suc div_Suc)
    with False ge ne f1 show ?thesis by (simp only: advance_def nth_function_def Let_def) (simp add: add.commute)
  qed
qed

lemma next_function:
  assumes "n < 256"
  shows "\<exists>c'. mc_cam c' = mc_cam c \<and>
    (BusDeviceIterator_next (mmio_cam_access (\<lambda>_. R)) (nth_function bus n, c) :: ('e, (device_function \<times> device_function_info) option) outcome \<times> _) =
      (if present R (mc_cam c) (nth_function bus n)
       then (Ok (Some (nth_function bus n, function_info R (mc_cam c) (nth_function bus n))), (nth_function bus (n + 1), c'))
       else BusDeviceIterator_next (mmio_cam_access (\<lambda>_. R)) (nth_function bus (n + 1), c'))"
proof -
  note rd = read_word_regs [OF nth_function_valid [OF assms, of bus], of _ "\<lambda>_. R"]
  have al: "unat (0 :: u8) mod 4 = 0" "unat (8 :: u8) mod 4 = 0" "unat (12 :: u8) mod 4 = 0" by simp_all
  have more: "df_device (nth_function bus n) < MAX_DEVICES" using nth_function_more [of n bus] assms by simp
  show ?thesis
  proof (cases "present R (mc_cam c) (nth_function bus n)")
    case True
    then show ?thesis using more advance_nth [OF assms, of bus]
      by (subst BusDeviceIterator_next.simps)
        (simp add: rd [OF al(1)] rd [OF al(2)] rd [OF al(3)] Let_def present_def read_function_info_def function_info_def)
  next
    case False
    then show ?thesis using more advance_nth [OF assms, of bus]
      by (intro exI [of _ "c\<lparr>cam_trace := cam_trace c @ [CamRead (cfg_word (mc_cam c) (nth_function bus n) 0) INVALID_READ]\<rparr>"])
        (subst BusDeviceIterator_next.simps, simp add: rd [OF al(1)] Let_def present_def)
  qed
qed

lemma collect_from:
  assumes "n \<le> 256" "length (filter (present R (mc_cam c)) (map (nth_function bus) [n..<256])) < fuel"
  shows "\<exists>c'. collect_functions fuel (mmio_cam_access (\<lambda>_. R)) (nth_function bus n, c) =
    (Ok (map (\<lambda>df. (df, function_info R (mc_cam c) df)) (filter (present R (mc_cam c)) (map (nth_function bus) [n..<256]))),
     (nth_function bus 256, c'))"
  using assms
proof (induction "256 - n" arbitrary: n c fuel)
  case 0
  then have n: "n = 256" by simp
  obtain f where f: "fuel = Suc f" using 0(3) by (cases fuel) auto
  have "\<not> df_device (nth_function bus 256) < MAX_DEVICES" using nth_function_more [of 256 bus] by simp
  then show ?case using n f by (simp add: BusDeviceIterator_next.simps)
next
  case (Suc k)
  let ?A = "mmio_cam_access (\<lambda>_. R)" and ?p = "present R (mc_cam c) (nth_function bus n)"
  have n: "n < 256" "k = 256 - (n + 1)" "[n..<256] = n # [n + 1..<256]" using Suc.hyps(2) by (auto simp: upt_conv_Cons)
  obtain f where f: "fuel = Suc f" using Suc.prems(2) by (cases fuel) auto
  obtain c' where c': "mc_cam c' = mc_cam c" "(BusDeviceIterator_next ?A (nth_function bus n, c) :: (PciError, _) outcome \<times> _) =
      (if ?p then (Ok (Some (nth_function bus n, function_info R (mc_cam c) (nth_function bus n))), (nth_function bus (n + 1), c'))
       else BusDeviceIterator_next ?A (nth_function bus (n + 1), c'))"
    using next_function [OF n(1), of c R bus] by blast
  show ?case
  proof (cases ?p)
    case True
    have "length (filter (present R (mc_cam c')) (map (nth_function bus) [n + 1..<256])) < f"
      using Suc.prems(2) True c'(1) f n(3) by simp
    from Suc.hyps(1) [OF n(2) _ this] n(1) obtain c'' where
      "collect_functions f ?A (nth_function bus (n + 1), c') = (Ok (map (\<lambda>df. (df, function_info R (mc_cam c) df))
         (filter (present R (mc_cam c)) (map (nth_function bus) [n + 1..<256]))), (nth_function bus 256, c''))"
      using c'(1) by auto
    then show ?thesis using True c'(2) f n(3) by simp
  next
    case False
    have "length (filter (present R (mc_cam c')) (map (nth_function bus) [n + 1..<256])) < fuel"
      using Suc.prems(2) False c'(1) n(3) by simp
    from Suc.hyps(1) [OF n(2) _ this] n(1) obtain c'' where
      "collect_functions fuel ?A (nth_function bus (n + 1), c') = (Ok (map (\<lambda>df. (df, function_info R (mc_cam c) df))
         (filter (present R (mc_cam c)) (map (nth_function bus) [n + 1..<256]))), (nth_function bus 256, c''))"
      using c'(1) by auto
    moreover have "collect_functions fuel ?A (nth_function bus n, c) = collect_functions fuel ?A (nth_function bus (n + 1), c')"
      using False c'(2) f by simp
    ultimately show ?thesis using False n(3) by simp
  qed
qed

text \<open>
  C30. Enumerating a bus whose configuration registers do not change terminates after at most 257 calls of
  the iterator and lists exactly the functions that answer with a valid vendor, in order of device and
  function number, each once, with the identification its registers hold; all 256 functions are probed.
\<close>

theorem enumerate_bus_complete:
  "(\<exists>c'. collect_functions 257 (mmio_cam_access (\<lambda>_. R)) (enumerate_bus bus, c) =
      (Ok (map (\<lambda>df. (df, function_info R (mc_cam c) df)) (filter (present R (mc_cam c)) (map (nth_function bus) [0..<256]))), c'))
   \<and> set (map (nth_function bus) [0..<256]) = {df. DeviceFunction_valid df \<and> df_bus df = bus}
   \<and> distinct (map (nth_function bus) [0..<256])"
proof -
  have "length (filter (present R (mc_cam c)) (map (nth_function bus) [0..<256])) \<le> 256"
    using length_filter_le [of "present R (mc_cam c)" "map (nth_function bus) [0..<256]"] by simp
  moreover have "enumerate_bus bus = nth_function bus 0" by (simp add: enumerate_bus_def nth_function_def)
  ultimately have "\<exists>c'. collect_functions 257 (mmio_cam_access (\<lambda>_. R)) (enumerate_bus bus, c) =
      (Ok (map (\<lambda>df. (df, function_info R (mc_cam c) df)) (filter (present R (mc_cam c)) (map (nth_function bus) [0..<256]))), c')"
    using collect_from [of 0 R c bus 257] by auto
  moreover have inv: "unat (df_device (nth_function bus n)) * 8 + unat (df_function (nth_function bus n)) = n" if "n < 256" for n
    using that by (simp add: nth_function_def unat_of_nat_u8)
  then have "inj_on (nth_function bus) {0..<256}" by (intro inj_onI) (metis atLeastLessThan_iff)
  moreover have "nth_function bus ` {0..<256} = {df. DeviceFunction_valid df \<and> df_bus df = bus}"
  proof -
    have "df \<in> nth_function bus ` {0..<256}" if "DeviceFunction_valid df" "df_bus df = bus" for df
    proof (rule image_eqI)
      have u: "unat (df_device df) < 32" "unat (df_function df) < 8"
        using that(1) by (simp_all add: DeviceFunction_valid_def word_less_nat_alt)
      let ?n = "unat (df_device df) * 8 + unat (df_function df)"
      show "?n \<in> {0..<256}" using u by simp
      have "?n div 8 = unat (df_device df)" "?n mod 8 = unat (df_function df)" using u by simp_all
      then show "df = nth_function bus ?n"
        using that(2) by (intro device_function.equality) (simp_all add: nth_function_def)
    qed
    moreover have "df_bus (nth_function bus n) = bus" for n by (simp add: nth_function_def)
    ultimately show ?thesis using nth_function_valid by auto
  qed
  ultimately show ?thesis by (simp add: distinct_map)
qed

end
