(* ===== verification/Pci_Props.thy ===== *)
theory Pci_Props
  imports Some_Transport Pci_Bus_Props
begin


text \<open>
  Properties of the PCI transport: the memory it accesses, the walk over a device's capabilities, and
  notifications.
\<close>

section \<open>Memory accesses\<close>

text \<open>
  A window is an address and a length. An access is inside it if it starts at an offset that leaves room
  for its bytes.
\<close>

definition inside :: "u64 \<times> nat \<Rightarrow> u64 \<Rightarrow> nat \<Rightarrow> bool" where
  "inside w a n \<longleftrightarrow> (\<exists>off. a = fst w + of_nat off \<and> off + n \<le> snd w)"

fun event_inside :: "u64 \<times> nat \<Rightarrow> pci_event \<Rightarrow> bool" where
  "event_inside w (PRead a n v) = inside w a n"
| "event_inside w (PWrite a bs) = inside w a (length bs)"

definition has_window :: "(u64 \<times> nat) set \<Rightarrow> u64 \<Rightarrow> nat \<Rightarrow> bool" where
  "has_window W p n \<longleftrightarrow> (\<exists>len. (p, len) \<in> W \<and> n \<le> len)"

text \<open>The pointers of the transport are at the start of windows large enough, and it accessed nothing else.\<close>

definition pci_inv :: "(u64 \<times> nat) set \<Rightarrow> pci \<Rightarrow> bool" where
  "pci_inv W t \<longleftrightarrow> has_window W (common_cfg t) CommonCfg_size
     \<and> has_window W (fst (notify_region t)) (2 * snd (notify_region t))
     \<and> has_window W (isr_status t) 1
     \<and> (case pt_config_space t of None \<Rightarrow> True | Some (p, n) \<Rightarrow> has_window W p (4 * n))
     \<and> (\<forall>e\<in>set (pt_trace t). \<exists>w\<in>W. event_inside w e)"

lemma has_window_inside: "has_window W p n \<Longrightarrow> off + k \<le> n \<Longrightarrow> \<exists>w\<in>W. inside w (p + of_nat off) k"
  by (force simp: has_window_def inside_def)

lemma mem_read_inv:
  "pci_inv W t \<Longrightarrow> \<exists>w\<in>W. inside w a n \<Longrightarrow> pci_inv W (snd (mem_read D a n t))"
  by (auto simp: pci_inv_def mem_read_def Let_def)

lemma mem_write_inv:
  "pci_inv W t \<Longrightarrow> \<exists>w\<in>W. inside w a (length v) \<Longrightarrow> pci_inv W (mem_write a v t)"
  by (auto simp: pci_inv_def mem_write_def)

lemma cfg_read_inv: "pci_inv W t \<Longrightarrow> CommonCfg_offset f + n \<le> 56 \<Longrightarrow> pci_inv W (snd (cfg_read D f n t))"
  using mem_read_inv [of W t "common_cfg t + of_nat (CommonCfg_offset f)" n D]
    has_window_inside [of W "common_cfg t" 56 "CommonCfg_offset f" n]
  by (simp add: cfg_read_def and_then_def lift_then_def mem_read_def Let_def pci_inv_def)

lemma cfg_write_inv: "pci_inv W t \<Longrightarrow> CommonCfg_offset f + n \<le> 56 \<Longrightarrow> pci_inv W (cfg_write f n v t)"
  using mem_write_inv [of W t "common_cfg t + of_nat (CommonCfg_offset f)" "le_bytes n v"]
    has_window_inside [of W "common_cfg t" 56 "CommonCfg_offset f" n]
  by (simp add: cfg_write_def pci_inv_def)

lemma cfg_read_Ok: "(cfg_read D f n t :: ('a::len word) result \<times> pci) = (Ok (from_le (map (D (pt_trace t) (common_cfg t + of_nat (CommonCfg_offset f))) [0..<n])), snd (cfg_read D f n t :: 'a word result \<times> pci))"
  by (simp add: cfg_read_def mem_read_def Let_def)

text \<open>The methods that access the common configuration.\<close>

lemma and_then_cfg_read:
  "and_then (cfg_read D f n t :: ('a::len word) result \<times> pci) g = g (from_le (map (D (pt_trace t) (common_cfg t + of_nat (CommonCfg_offset f))) [0..<n])) (snd (cfg_read D f n t :: 'a word result \<times> pci))"
  by (subst cfg_read_Ok) simp

lemmas pci_cfg_methods = Pci_read_device_features_def Pci_write_driver_features_def Pci_max_queue_size_def
  Pci_get_status_def Pci_set_status_def Pci_queue_used_def Pci_read_config_generation_def

lemma pci_cfg_methods_inv:
  assumes "pci_inv W t"
  shows "pci_inv W (snd (Pci_read_device_features D t))" "pci_inv W (snd (Pci_write_driver_features f t))"
    "pci_inv W (snd (Pci_max_queue_size D q t))" "pci_inv W (snd (Pci_get_status D t))" "pci_inv W (snd (Pci_set_status s t))"
    "pci_inv W (snd (Pci_queue_used D q t))" "pci_inv W (snd (Pci_read_config_generation D t))"
  by (simp_all add: pci_cfg_methods and_then_cfg_read cfg_read_inv cfg_write_inv assms)

lemma pci_offsets_irrelevant: "pci_inv W (t\<lparr>notification_offsets := x\<rparr>) = pci_inv W t"
  by (simp add: pci_inv_def)

lemma Pci_queue_set_inv: "pci_inv W t \<Longrightarrow> pci_inv W (snd (Pci_queue_set D q n a b c t))"
  by (simp add: Pci_queue_set_def and_then_cfg_read cfg_read_inv cfg_write_inv pci_offsets_irrelevant)

lemma Pci_notify_inv:
  assumes "pci_inv W t"
  shows "pci_inv W (snd (Pci_notify q t))"
proof -
  let ?p = "fst (notify_region t)"
  have "pci_inv W (mem_write (?p + of_nat (2 * i)) (le_bytes 2 q) t)" if "i < snd (notify_region t)" for i
    using assms that has_window_inside [of W ?p "2 * snd (notify_region t)" "2 * i" 2]
    by (intro mem_write_inv) (simp_all add: pci_inv_def)
  then show ?thesis using assms
    by (auto simp: Pci_notify_def Let_def split: option.split)
qed

lemma Pci_ack_interrupt_inv: "pci_inv W t \<Longrightarrow> pci_inv W (snd (Pci_ack_interrupt D t))"
  using mem_read_inv [of W t "isr_status t" 1 D] has_window_inside [of W "isr_status t" 1 0 1]
  by (simp add: Pci_ack_interrupt_def Pci_ack_interrupt_raw_def and_then_def lift_then_def mem_read_def Let_def pci_inv_def)

lemma Pci_config_space_inv:
  assumes "pci_inv W t"
  shows "pci_inv W (snd (Pci_read_config_space D off sz al t))" "pci_inv W (snd (Pci_write_config_space off al v t))"
proof -
  have "pci_inv W (snd (mem_read D (p + of_nat off) sz t))" if "pt_config_space t = Some (p, n)" "off + sz \<le> n * 4" for p n
    using assms that has_window_inside [of W p "4 * n" off sz] by (intro mem_read_inv) (simp_all add: pci_inv_def)
  then show "pci_inv W (snd (Pci_read_config_space D off sz al t))"
    using assms by (cases "pt_config_space t") (auto simp: Pci_read_config_space_def not_less)
  have "pci_inv W (mem_write (p + of_nat off) v t)" if "pt_config_space t = Some (p, n)" "off + length v \<le> n * 4" for p n
    using assms that has_window_inside [of W p "4 * n" off "length v"] by (intro mem_write_inv) (simp_all add: pci_inv_def)
  then show "pci_inv W (snd (Pci_write_config_space off al v t))"
    using assms by (cases "pt_config_space t") (auto simp: Pci_write_config_space_def not_less)
qed

lemma wait_reset_inv: "pci_inv W t \<Longrightarrow> pci_inv W (snd (wait_reset fuel D t))"
proof (induction fuel arbitrary: t)
  case (Suc fuel)
  have "\<exists>s t'. Pci_get_status D t = (Ok s, t')" using pci_total.get_status by (simp add: pci_transport_def)
  then obtain s t' where g: "Pci_get_status D t = (Ok s, t')" by blast
  then have "pci_inv W t'" using pci_cfg_methods_inv(4) [OF Suc.prems, of D] by simp
  with g Suc.IH show ?case by simp
qed simp

text \<open>A client calls the methods of the transport in any order, with any arguments, and drops it at the end.\<close>

inductive pci_step :: "pci_dev \<Rightarrow> pci \<Rightarrow> pci \<Rightarrow> bool" for D where
  "pci_step D t (snd (t_read_device_features (pci_transport D) t))"
| "pci_step D t (snd (t_write_driver_features (pci_transport D) f t))"
| "pci_step D t (snd (t_max_queue_size (pci_transport D) q t))"
| "pci_step D t (snd (t_notify (pci_transport D) q t))"
| "pci_step D t (snd (t_get_status (pci_transport D) t))"
| "pci_step D t (snd (t_set_status (pci_transport D) s t))"
| "pci_step D t (snd (t_queue_set (pci_transport D) q n a b c t))"
| "pci_step D t (snd (t_queue_used (pci_transport D) q t))"
| "pci_step D t (snd (t_ack_interrupt (pci_transport D) t))"
| "pci_step D t (snd (t_ack_interrupt_raw (pci_transport D) t))"
| "pci_step D t (snd (t_read_config_generation (pci_transport D) t))"
| "pci_step D t (snd (t_read_config_space (pci_transport D) off sz al t))"
| "pci_step D t (snd (t_write_config_space (pci_transport D) off al v t))"
| "pci_step D t (snd (Pci_drop fuel D t))"

lemma pci_step_inv: "pci_step D t t' \<Longrightarrow> pci_inv W t \<Longrightarrow> pci_inv W t'"
proof (induction rule: pci_step.induct)
  case (14 t fuel)
  then have "pci_inv W (snd (Pci_set_status 0 t))" by (rule pci_cfg_methods_inv)
  then show ?case by (simp add: Pci_drop_def Pci_set_status_def wait_reset_inv)
qed (auto simp: pci_transport_def pci_cfg_methods_inv Pci_notify_inv Pci_queue_set_inv Pci_ack_interrupt_inv
    Pci_ack_interrupt_inv [unfolded Pci_ack_interrupt_def] Pci_config_space_inv)

lemma pci_run_inv: "(pci_step D)\<^sup>*\<^sup>* t t' \<Longrightarrow> pci_inv W t \<Longrightarrow> pci_inv W t'"
  by (induction rule: rtranclp_induct) (auto intro: pci_step_inv)

text \<open>
  The windows that the crate may access: where the HAL maps the part of a memory BAR that a capability
  describes, if this part is inside the BAR.
\<close>

definition mapped_windows :: "'c config_access \<Rightarrow> (u64 \<Rightarrow> nat \<Rightarrow> u64) \<Rightarrow> device_function \<Rightarrow> (u64 \<times> nat) set" where
  "mapped_windows C phys_to_virt df =
     {w. \<exists>(cap :: virtio_cap) c c' ty pf bar_address bar_size.
        bar_info C df (vc_bar cap) c = (Ok (BarMemory ty pf bar_address bar_size), c') \<and> bar_address \<noteq> 0
        \<and> unat (vc_offset cap) + unat (vc_length cap) \<le> unat bar_size
        \<and> w = (phys_to_virt (bar_address + ucast (vc_offset cap)) (unat (vc_length cap)), unat (vc_length cap))}"

lemma map_err_Ok_iff: "map_err f r = Ok a \<longleftrightarrow> r = Ok a"
  by (cases r) auto

lemma ok_or_Ok_iff: "ok_or e r = Ok a \<longleftrightarrow> r = Some a"
  by (cases r) auto

lemma memory_address_size_iff: "memory_address_size bar = Some (a, n) \<longleftrightarrow> (\<exists>ty pf. bar = BarMemory ty pf a n)"
  by (cases bar) auto

lemma get_bar_region_window:
  assumes "get_bar_region C phys_to_virt sz al df cap c = (Ok p, c')"
  shows "has_window (mapped_windows C phys_to_virt df) p sz \<and> (p, unat (vc_length cap)) \<in> mapped_windows C phys_to_virt df
    \<and> unat p mod al = 0"
proof -
  from assms obtain paddr c1 where r: "bar_region_paddr C sz df cap c = (Ok paddr, c1)" "p = phys_to_virt paddr (unat (vc_length cap))"
      "unat p mod al = 0"
    by (auto simp: get_bar_region_def and_then_Ok_iff Let_def split: if_splits)
  obtain r2 c2 where b: "bar_info C df (vc_bar cap) c = (r2, c2)" by fastforce
  with r(1) obtain bar where bar: "r2 = Ok bar" by (auto simp: bar_region_paddr_def and_then_Ok_iff map_err_Ok_iff)
  with r(1) b obtain ba bs where m: "memory_address_size bar = Some (ba, bs)"
    by (auto simp: bar_region_paddr_def and_then_Ok_iff map_err_Ok_iff ok_or_Ok_iff)
  then obtain ty pf where bm: "bar = BarMemory ty pf ba bs" by (auto simp: memory_address_size_iff)
  have chk: "ba \<noteq> 0" "unat (vc_offset cap) + unat (vc_length cap) < 2 ^ 32" "\<not> vc_offset cap + vc_length cap > bs"
      "sz \<le> unat (vc_length cap)" "paddr = ba + ucast (vc_offset cap)"
    using r(1) b bar m by (auto simp: bar_region_paddr_def map_err_def split: if_splits)
  have "unat (vc_offset cap + vc_length cap) = unat (vc_offset cap) + unat (vc_length cap)"
    using chk(2) by (simp add: unat_word_ariths)
  then have "unat (vc_offset cap) + unat (vc_length cap) \<le> unat bs"
    using chk(3) by (simp add: word_less_nat_alt not_less)
  then have "(p, unat (vc_length cap)) \<in> mapped_windows C phys_to_virt df"
    using b bar bm chk r(2) unfolding mapped_windows_def by blast
  then show ?thesis using chk(4) r(3) by (auto simp: has_window_def)
qed

lemma get_bar_region_slice_window:
  assumes "get_bar_region_slice C phys_to_virt sz al df cap c = (Ok (p, n), c')"
  shows "has_window (mapped_windows C phys_to_virt df) p (sz * n)"
proof -
  from assms obtain c1 where "get_bar_region C phys_to_virt sz al df cap c = (Ok p, c1)" "n = unat (vc_length cap) div sz"
    by (auto simp: get_bar_region_slice_def and_then_Ok_iff)
  then have "(p, unat (vc_length cap)) \<in> mapped_windows C phys_to_virt df" "sz * n \<le> unat (vc_length cap)"
    using get_bar_region_window [of C phys_to_virt sz al df cap c p c1] by simp_all
  then show ?thesis by (auto simp: has_window_def)
qed

lemma PciTransport_new_inv:
  assumes "PciTransport_new fuel C phys_to_virt df c = (Ok t, c')"
  shows "pci_inv (mapped_windows C phys_to_virt df) t \<and> even (notify_off_multiplier t) \<and> notification_offsets t = []"
proof -
  let ?W = "mapped_windows C phys_to_virt df"
  from assms obtain f :: found_caps and common cp c1 c2 notify np c3 c4 isr ip c5 c6 cfg c7 c8 w where
    r: "get_bar_region C phys_to_virt 56 CommonCfg_align df common c1 = (Ok cp, c2)"
    "get_bar_region_slice C phys_to_virt 2 2 df notify c3 = (Ok np, c4)"
    "get_bar_region C phys_to_virt (Suc 0) (Suc 0) df isr c5 = (Ok ip, c6)"
    "(case fc_device f of
        None \<Rightarrow> (Ok None, c7)
      | Some d \<Rightarrow> and_then (get_bar_region_slice C phys_to_virt 4 4 df d c7) (\<lambda>p c. (Ok (Some p), c))) = (Ok cfg, c8)"
    "even (fc_multiplier f)"
    "t = \<lparr>pt_device_type = w, pt_device_function = df, common_cfg = cp, notify_region = np,
          notify_off_multiplier = fc_multiplier f, notification_offsets = [], isr_status = ip, pt_config_space = cfg, pt_trace = []\<rparr>"
    unfolding PciTransport_new_def Let_def
    by (auto simp: and_then_Ok_iff split: if_splits) (blast | simp add: even_iff_mod_2_eq_zero)+
  have "has_window ?W (fst np) (2 * snd np)"
    using r(2) by (cases np) (auto dest: get_bar_region_slice_window)
  moreover have "case cfg of None \<Rightarrow> True | Some (p, n) \<Rightarrow> has_window ?W p (4 * n)"
    using r(4) by (cases "fc_device f") (auto simp: and_then_Ok_iff dest: get_bar_region_slice_window)
  ultimately show ?thesis
    using get_bar_region_window [OF r(1)] get_bar_region_window [OF r(3)] r(5,6)
    by (simp add: pci_inv_def)
qed

text \<open>
  A device for the witnesses: three vendor capabilities at 0x40, 0x50 and 0x64, all in a BAR of one page.
  Writes to configuration space have no effect.
\<close>

definition demo_config :: "u8 \<Rightarrow> u32" where
  "demo_config off =
     (if off = 0x00 then 0x10421af4 else if off = 0x04 then 0x00100000 else if off = 0x10 then 0xfffff000
      else if off = 0x34 then 0x40
      else if off = 0x40 then 0x01105009 else if off = 0x44 then 0 else if off = 0x48 then 0 else if off = 0x4c then 0x100
      else if off = 0x50 then 0x02146409 else if off = 0x54 then 0 else if off = 0x58 then 0x100 else if off = 0x5c then 0x100
      else if off = 0x60 then 4
      else if off = 0x64 then 0x03100009 else if off = 0x68 then 0 else if off = 0x6c then 0x200 else if off = 0x70 then 4
      else 0)"

definition demo_access :: "nat config_access" where
  "demo_access = \<lparr>ca_read_word = (\<lambda>df off c. (Some (demo_config off), c)), ca_write_word = (\<lambda>df off v c. (Some (), c))\<rparr>"

definition demo_function :: device_function where
  "demo_function = \<lparr>df_bus = 0, df_device = 1, df_function = 0\<rparr>"

definition demo_pci :: pci where
  "demo_pci = \<lparr>pt_device_type = Block, pt_device_function = demo_function, common_cfg = 0xfffff000,
     notify_region = (0xfffff100, 128), notify_off_multiplier = 4, notification_offsets = [], isr_status = 0xfffff200,
     pt_config_space = None, pt_trace = []\<rparr>"

lemma demo_read [simp]: "read_word demo_access df off c = (Ok (demo_config off), c)" "write_word demo_access df off v c = (Ok (), c)"
  by (simp_all add: read_word_def write_word_def or_panic_def demo_access_def)

lemma demo_bar: "bar_info demo_access df 0 c = (Ok (BarMemory Width32 False 0xfffff000 0x1000), c)"
  by (simp add: bar_info_def bar_register_def BAR0_OFFSET_def demo_config_def MemoryBarType_try_from_def)

definition demo_caps :: found_caps where
  "demo_caps = \<lparr>fc_common = Some \<lparr>vc_bar = 0, vc_offset = 0, vc_length = 0x100\<rparr>,
     fc_notify = Some \<lparr>vc_bar = 0, vc_offset = 0x100, vc_length = 0x100\<rparr>, fc_multiplier = 4,
     fc_isr = Some \<lparr>vc_bar = 0, vc_offset = 0x200, vc_length = 4\<rparr>, fc_device = None\<rparr>"

lemma demo_walk: "capabilities_loop (Suc (Suc (Suc (Suc 0)))) demo_access df no_caps (Some 0x40, c) = (Ok demo_caps, c)"
  by (simp add: CapabilityIterator_next_def consider_capability_def read_cap_word_def demo_config_def no_caps_def demo_caps_def
      Let_def pci_consts PCI_CAP_ID_VNDR_def)

lemma demo_pci_new: "PciTransport_new (Suc (Suc (Suc (Suc 0)))) demo_access (\<lambda>p n. p) demo_function 0 = (Ok demo_pci, 0)"
proof -
  have v: "(ucast (demo_config 0) :: u16) = VIRTIO_VENDOR_ID" "device_type (ucast (drop_bit 16 (demo_config 0))) = Block"
    by (simp_all add: demo_config_def pci_consts device_type_def DeviceType_from_u16_def DeviceType_from_u32_def DeviceType_table_def)
  have c: "capabilities demo_access demo_function c = (Ok (Some 0x40), c)" for c
    by (simp add: capabilities_def capabilities_offset_def get_status_command_def STATUS_COMMAND_OFFSET_def demo_config_def
        from_bits_truncate_def PciStatus_all_def PciStatus_CAPABILITIES_LIST_def contains_def)
  have r: "get_bar_region demo_access (\<lambda>p n. p) 56 8 df \<lparr>vc_bar = 0, vc_offset = 0, vc_length = 0x100\<rparr> c = (Ok 0xfffff000, c)"
    "get_bar_region demo_access (\<lambda>p n. p) 2 2 df \<lparr>vc_bar = 0, vc_offset = 0x100, vc_length = 0x100\<rparr> c = (Ok 0xfffff100, c)"
    "get_bar_region demo_access (\<lambda>p n. p) 1 1 df \<lparr>vc_bar = 0, vc_offset = 0x200, vc_length = 4\<rparr> c = (Ok 0xfffff200, c)" for df c
    by (simp_all add: get_bar_region_def bar_region_paddr_def demo_bar map_err_def)
  show ?thesis unfolding PciTransport_new_def Let_def
    by (simp only: v c demo_walk demo_read and_then_simps if_False not_True_eq_False simp_thms) (simp add: v demo_caps_def get_bar_region_slice_def r r(3) [simplified] demo_pci_def CommonCfg_align_def)
qed



section \<open>The capability list\<close>

text \<open>The offset that follows a capability in a configuration space with constant registers.\<close>

definition cap_next :: "(nat \<Rightarrow> u32) \<Rightarrow> Cam \<Rightarrow> device_function \<Rightarrow> u8 \<Rightarrow> u8 option" where
  "cap_next R cam df off =
     (let n = (ucast (drop_bit 8 (R (cfg_word cam df (unat off)))) :: u8)
      in if n = 0 \<or> n < 64 \<or> n AND 3 \<noteq> 0 then None else Some n)"

lemma read_word_keeps_cam [simp]: "mc_cam (snd (read_word (mmio_cam_access D) df off c)) = mc_cam c"
  by (simp add: read_word_def or_panic_def mmio_cam_access_def MmioCam_read_word_def Let_def split: option.split)

lemma read_word_returns [simp]: "fst (read_word C df off c) \<noteq> Diverge"
  by (simp add: read_word_def or_panic_def split: option.split)

text \<open>What a capability's header makes the iterator do.\<close>

lemma next_capability:
  assumes "DeviceFunction_valid df" "unat off mod 4 = 0"
  shows "\<exists>cap c'. CapabilityIterator_next (mmio_cam_access (\<lambda>_. R)) df (Some off, c) = (Ok (Some cap), (cap_next R (mc_cam c) df off, c'))
    \<and> mc_cam c' = mc_cam c \<and> cap_id cap = ucast (R (cfg_word (mc_cam c) df (unat off)))"
  by (auto simp: CapabilityIterator_next_def read_word_regs [OF assms] Let_def cap_next_def)

definition keeps_cam :: "Cam \<Rightarrow> ('e, 'a) outcome \<times> mmio_cam \<Rightarrow> bool" where
  "keeps_cam cam r \<longleftrightarrow> fst r \<noteq> Diverge \<and> mc_cam (snd r) = cam"

lemma keeps_cam_then:
  "keeps_cam cam r \<Longrightarrow> (\<And>a c. mc_cam c = cam \<Longrightarrow> keeps_cam cam (g a c)) \<Longrightarrow> keeps_cam cam (and_then r g)"
  by (cases "fst r") (auto simp: keeps_cam_def and_then_def lift_then_def)

lemma keeps_cam_read: "mc_cam c = cam \<Longrightarrow> keeps_cam cam (read_cap_word (mmio_cam_access D) df off k c)"
  by (simp add: keeps_cam_def read_cap_word_def)

lemma keeps_cam_Ok: "mc_cam c = cam \<Longrightarrow> keeps_cam cam (Ok a, c)"
  by (simp add: keeps_cam_def)

lemma keeps_cam_if: "(P \<Longrightarrow> keeps_cam cam x) \<Longrightarrow> (\<not> P \<Longrightarrow> keeps_cam cam y) \<Longrightarrow> keeps_cam cam (if P then x else y)"
  by simp

lemma consider_capability_returns: "keeps_cam (mc_cam c) (consider_capability (mmio_cam_access D) df cap f c)"
  unfolding consider_capability_def Let_def
  by (intro keeps_cam_if keeps_cam_then keeps_cam_read keeps_cam_Ok refl)

lemma walk_ends:
  assumes "DeviceFunction_valid df" "\<And>off off'. cap_next R cam df off = Some off' \<Longrightarrow> rank off' < (rank off :: nat)"
    "mc_cam c = cam" "\<And>off. nxt = Some off \<Longrightarrow> rank off < n \<and> unat off mod 4 = 0"
  shows "fst (capabilities_loop (Suc n) (mmio_cam_access (\<lambda>_. R)) df f (nxt, c)) \<noteq> Diverge"
  using assms(3,4)
proof (induction n arbitrary: nxt f c)
  case 0
  then have "nxt = None" by (cases nxt) auto
  then show ?case by (simp add: CapabilityIterator_next_def)
next
  case (Suc n)
  show ?case
  proof (cases nxt)
    case None
    then show ?thesis by (simp add: CapabilityIterator_next_def)
  next
    case (Some off)
    with Suc.prems have off: "rank off < Suc n" "unat off mod 4 = 0" by auto
    obtain cap c' where nx: "CapabilityIterator_next (mmio_cam_access (\<lambda>_. R)) df (Some off, c) =
        ((Ok (Some cap) :: (VirtioPciError, _) outcome), (cap_next R cam df off, c'))" "mc_cam c' = cam"
      using next_capability [OF assms(1) off(2), of R c] Suc.prems(1) by auto
    obtain r c2 where con: "consider_capability (mmio_cam_access (\<lambda>_. R)) df cap f c' = (r, c2)" by fastforce
    then have r: "r \<noteq> Diverge" "mc_cam c2 = cam"
      using consider_capability_returns [of c' "\<lambda>_. R" df cap f] nx(2) by (auto simp: keeps_cam_def)
    have "rank off' < n \<and> unat off' mod 4 = 0" if "cap_next R cam df off = Some off'" for off'
    proof -
      have "off' AND 3 = 0" using that by (auto simp: cap_next_def Let_def split: if_splits)
      moreover have "off' AND 3 = take_bit 2 off'" by (simp add: take_bit_eq_mask mask_eq_exp_minus_1)
      ultimately have "take_bit 2 off' = 0" by simp
      moreover have "unat (take_bit 2 off') = unat off' mod 4" by (simp only: unsigned_take_bit_eq) (simp add: take_bit_eq_mod)
      ultimately show ?thesis using assms(2) [OF that] off(1) by simp
    qed
    with Suc.IH [OF r(2)] show ?thesis using Some nx con r
      by (cases r) (simp_all del: capabilities_loop.simps(2) add: capabilities_loop.simps(2) [of "Suc n"])
  qed
qed

lemma walk_cycles:
  assumes "DeviceFunction_valid df" "unat off mod 4 = 0" "cap_next R (mc_cam c) df off = Some off"
    "(ucast (R (cfg_word (mc_cam c) df (unat off))) :: u8) \<noteq> PCI_CAP_ID_VNDR"
  shows "fst (capabilities_loop fuel (mmio_cam_access (\<lambda>_. R)) df f (Some off, c)) = Diverge"
  using assms(3,4)
proof (induction fuel arbitrary: c)
  case (Suc fuel)
  obtain cap c' where nx: "CapabilityIterator_next (mmio_cam_access (\<lambda>_. R)) df (Some off, c) =
      ((Ok (Some cap) :: (VirtioPciError, _) outcome), (Some off, c'))" "mc_cam c' = mc_cam c"
      "cap_id cap = ucast (R (cfg_word (mc_cam c) df (unat off)))"
    using next_capability [OF assms(1,2), of R c] Suc.prems(1) by auto
  then have "consider_capability (mmio_cam_access (\<lambda>_. R)) df cap f c' = (Ok f, c')"
    using Suc.prems(2) by (simp add: consider_capability_def)
  with nx Suc.IH [of c'] Suc.prems show ?case by simp
qed simp



section \<open>Notifications\<close>

lemma even_unat: "even (w :: u32) \<Longrightarrow> even (unat w)"
  by transfer (simp add: even_nat_iff even_take_bit_eq)

lemma find_snoc: "(\<forall>x\<in>set xs. \<not> P x) \<Longrightarrow> P y \<Longrightarrow> find P (xs @ [y]) = Some y"
  by (induction xs) auto

lemma cfg_keeps [simp]:
  "notify_region (snd (cfg_read D f n t)) = notify_region t" "notify_off_multiplier (snd (cfg_read D f n t)) = notify_off_multiplier t"
  "notification_offsets (snd (cfg_read D f n t)) = notification_offsets t"
  "notify_region (cfg_write f n v t) = notify_region t" "notify_off_multiplier (cfg_write f n v t) = notify_off_multiplier t"
  "notification_offsets (cfg_write f n v t) = notification_offsets t"
  by (simp_all add: cfg_read_def cfg_write_def mem_read_def mem_write_def Let_def)



end
