(* ===== verification/Driver_Queue.thy ===== *)
theory Driver_Queue
  imports Driver_Support
begin

text \<open>
  The blocking request as a driver's interface. The drivers for block, network, GPU, sound, console
  and entropy devices send most of their requests with \<^verbatim>\<open>add_notify_wait_pop\<close>. Their methods are written
  over a request function of type \<open>'q req_fun\<close>, which takes the contents of the device-readable and of the
  device-writable buffers and the pair of the queue and the transport. \<open>request E\<close> is that function for the
  virtqueue of the crate; the locale \<open>blocking_queue\<close> has the contract it satisfies.
\<close>

type_synonym 'q req_fun = "bytes list \<Rightarrow> bytes list \<Rightarrow> 'q \<Rightarrow> (u32 \<times> bytes list) result \<times> 'q"

text \<open>\<^verbatim>\<open>if queue.should_notify() { transport.notify(idx); }\<close>\<close>

definition notify_queue :: "'t transport \<Rightarrow> u16 \<Rightarrow> vq \<Rightarrow> 't \<Rightarrow> unit result \<times> 't" where
  "notify_queue T idx q t = (if should_notify q then t_notify T idx t else (Ok (), t))"

text \<open>Adding a request without waiting for it, on a queue stored with its transport.\<close>

definition add_and_notify :: "'t transport \<Rightarrow> hal \<Rightarrow> u16 \<Rightarrow> buf list \<Rightarrow> buf list \<Rightarrow> vq \<times> 't \<Rightarrow> u16 result \<times> (vq \<times> 't)" where
  "add_and_notify T H idx inputs outputs s =
     (case s of (q, t) \<Rightarrow>
      lift_then (VirtQueue_add H inputs outputs q) (\<lambda>q. (q, t)) (\<lambda>token q.
      lift_then (notify_queue T idx q t) (\<lambda>t. (q, t)) (\<lambda>_ t. (Ok token, (q, t)))))"

definition pop_request :: "hal \<Rightarrow> u16 \<Rightarrow> buf list \<Rightarrow> buf list \<Rightarrow> vq \<times> 't \<Rightarrow> (u32 \<times> buf list) result \<times> (vq \<times> 't)" where
  "pop_request H token inputs outputs s =
     (case s of (q, t) \<Rightarrow> case VirtQueue_pop_used H token inputs outputs q of (r, q) \<Rightarrow> (r, (q, t)))"

section \<open>Contract\<close>

definition answered :: "('a result \<Rightarrow> 'q \<Rightarrow> bool) \<Rightarrow> 'a result \<times> 'q \<Rightarrow> bool" where
  "answered P r \<longleftrightarrow> fst r = Diverge \<or> fst r = Err WrongToken \<or> P (fst r) (snd r)"

lemma answered_mono: "answered P r \<Longrightarrow> (\<And>x s. P x s \<Longrightarrow> Q x s) \<Longrightarrow> answered Q r"
  by (auto simp: answered_def)

lemma answered_not_Panic: "answered P r \<Longrightarrow> (\<And>x s. P x s \<Longrightarrow> x \<noteq> Panic) \<Longrightarrow> fst r \<noteq> Panic"
  by (auto simp: answered_def)

text \<open>
  A request that fits the queue waits, fails because the device returned another token, or ends with the
  outputs at their lengths and the queue ready for the next request.
\<close>

locale blocking_queue =
  fixes R :: "'q req_fun" and ready :: "'q \<Rightarrow> bool" and cap :: nat
  assumes request_answered:
    "ready s \<Longrightarrow> msg_ok (inputs @ outputs) \<Longrightarrow> inputs @ outputs \<noteq> [] \<Longrightarrow> length (inputs @ outputs) \<le> cap \<Longrightarrow>
     answered (\<lambda>r s'. \<exists>len os. r = Ok (len, os) \<and> map length os = map length outputs \<and> ready s') (R inputs outputs s)"
begin

text \<open>The rule for a method that sends a request and continues with its answer.\<close>

lemma request_then:
  assumes "ready s" "msg_ok (inputs @ outputs)" "inputs @ outputs \<noteq> []" "length (inputs @ outputs) \<le> cap"
    and f: "\<And>len os s'. map length os = map length outputs \<Longrightarrow> ready s' \<Longrightarrow> answered P (f (len, os) s')"
  shows "answered P (lift_then (R inputs outputs s) put f)"
proof -
  obtain r s' where r: "R inputs outputs s = (r, s')" by fastforce
  with request_answered [OF assms(1-4)] consider "r = Diverge" | "r = Err WrongToken"
    | len os where "r = Ok (len, os)" "map length os = map length outputs" "ready s'"
    by (auto simp: answered_def)
  then show ?thesis
  proof cases
    case 3
    then show ?thesis by (simp add: r f)
  qed (auto simp: r answered_def)
qed

end

text \<open>The virtqueue satisfies it: for every device that keeps to the layout of the shared memory, however it answers.\<close>

definition queue_ready :: "'t drv_env \<Rightarrow> nat \<Rightarrow> vq \<times> 't \<Rightarrow> bool" where
  "queue_ready E n s \<longleftrightarrow> env_ok E \<and> idle (fst s) \<and> SIZE (fst s) = n"

interpretation bq: blocking_queue "request E" "queue_ready E n" n for E :: "'t drv_env" and n
proof
  fix s :: "vq \<times> 't" and inputs outputs :: "bytes list"
  assume a: "queue_ready E n s" "msg_ok (inputs @ outputs)" "inputs @ outputs \<noteq> []" "length (inputs @ outputs) \<le> n"
  obtain q t where s: "s = (q, t)" by fastforce
  obtain r q' t' where r: "request E inputs outputs (q, t) = (r, (q', t'))" by (metis surj_pair)
  have "length inputs + length outputs \<le> SIZE q" "idle q" "env_ok E" using a by (simp_all add: queue_ready_def s)
  from request_cases [OF this(2,3) a(2,3) this(1) r]
  show "answered (\<lambda>r s'. \<exists>len os. r = Ok (len, os) \<and> map length os = map length outputs \<and> queue_ready E n s')
          (request E inputs outputs s)"
    using a(1) by (auto simp: answered_def s r queue_ready_def)
qed

section \<open>A new queue\<close>

lemma VirtQueue_new_ready:
  assumes "VirtQueue_new T H m n idx ind ev s = (Ok q, s')" "SIZE_OK n" "mem_ok n m" "env_ok E"
  shows "queue_ready E n (q, t)"
proof -
  obtain t log t' log' where "s = (t, log)" "s' = (t', log')" by fastforce
  then show ?thesis
    using VirtQueue_new_Ok (1,4) [OF assms(1) [unfolded \<open>s = _\<close> \<open>s' = _\<close>] assms(2,3)] assms(4)
    by (auto simp: queue_ready_def idle_def)
qed

text \<open>
  A queue memory of \<open>n\<close> entries, and a transport and an environment for the drivers' concrete runs. The device
  completes the first descriptor.
\<close>

definition demo_queue_mem :: "nat \<Rightarrow> shared" where
  "demo_queue_mem n = \<lparr>sm_desc = replicate n zero_desc,
     sm_avail = \<lparr>a_flags = 0, a_idx = 0, a_ring = replicate n 0, a_used_event = 0\<rparr>,
     sm_used = \<lparr>u_flags = 0, u_idx = 0, u_ring = replicate n \<lparr>ue_id = 0, ue_len = 0\<rparr>, u_avail_event = 0\<rparr>\<rparr>"

definition demo_bus :: "nat transport" where
  "demo_bus = demo_transport\<lparr>t_max_queue_size := \<lambda>i t. (Ok 64, t), t_read_config_space := \<lambda>p n a t. (Ok (replicate n 1), t)\<rparr>"

definition demo_drv :: "nat drv_env" where
  "demo_drv = \<lparr>de_T = demo_bus, de_H = demo_hal, de_wait = (\<lambda>q. [demo_dev]), de_ptr = (\<lambda>log k. 0x5000 + 0x1000 * of_nat k)\<rparr>"

lemma demo_queue_mem_ok: "mem_ok n (demo_queue_mem n)"
  by (simp add: mem_ok_def demo_queue_mem_def)

lemma env_ok_demo_drv: "env_ok demo_drv"
  by (auto simp: env_ok_def demo_drv_def demo_bus_def demo_transport_def demo_dev_def mem_ok_def)

lemma driver_SIZE_OK: "n \<in> {2, 8, 16, 32} \<Longrightarrow> SIZE_OK n"
  using is_power_of_two_exp [of 1] is_power_of_two_exp [of 3] is_power_of_two_exp [of 4] is_power_of_two_exp [of 5]
  by (auto simp: SIZE_OK_def)

lemma demo_queue_new:
  assumes "n \<in> {2, 8, 16, 32}"
  obtains q where "VirtQueue_new demo_bus demo_hal (demo_queue_mem n) n idx ind ev (t, log)
      = (Ok q, (t, log @ [DmaAlloc 2 Both 0x1000 0x8000]))"
proof -
  have a: "align_up 42 = 4096" "align_up 22 = 4096" "align_up 150 = 4096" "align_up 70 = 4096" "align_up 294 = 4096"
    "align_up 134 = 4096" "align_up 582 = 4096" "align_up 262 = 4096" by (simp_all add: align_up_eq PAGE_SIZE_def)
  have p: "is_power_of_two n" using driver_SIZE_OK [OF assms] by (simp add: SIZE_OK_def)
  have "\<exists>q. VirtQueue_new demo_bus demo_hal (demo_queue_mem n) n idx ind ev (t, log)
      = (Ok q, (t, log @ [DmaAlloc 2 Both 0x1000 0x8000]))"
    using assms p
    by (auto simp: VirtQueue_new_def demo_bus_def demo_transport_def demo_hal_def allocate_legacy_def queue_part_sizes_eq
        Dma_new_def Let_def Dma_vaddr_def PAGE_SIZE_def a)
  then show thesis using that by blast
qed

lemma demo_queue_ready:
  assumes "n \<in> {2, 8, 16, 32}"
  obtains q where "queue_ready demo_drv n (q, 0)"
proof -
  obtain q where "VirtQueue_new demo_bus demo_hal (demo_queue_mem n) n 0 False False (0, [])
      = (Ok q, (0, [DmaAlloc 2 Both 0x1000 0x8000]))" using demo_queue_new [OF assms, of 0 False False 0 "[]"] by auto
  from VirtQueue_new_ready [OF this driver_SIZE_OK [OF assms] demo_queue_mem_ok env_ok_demo_drv] show thesis by (rule that)
qed

lemma demo_init:
  "begin_init dbg demo_bus all_bits supported t = (Ok 0, t)" "finish_init demo_bus t = (Ok (), t)"
  "contains (0 :: u64) RING_INDIRECT_DESC = False" "contains (0 :: u64) RING_EVENT_IDX = False"
  by (simp_all add: begin_init_def finish_init_def demo_bus_def demo_transport_def try_set_status_def from_bits_truncate_def
      contains_def status_defs Let_def VERSION_1_def RING_INDIRECT_DESC_def RING_EVENT_IDX_def)

lemma demo_notify: "\<exists>t'. t_notify demo_bus i t = (Ok (), t')"
  by (simp add: demo_bus_def demo_transport_def)

end
