(* ===== verification/Blk.thy ===== *)
theory Blk
  imports Driver_Queue
begin


text \<open>
  The driver for block devices (src/src/device/blk.rs). The fields \<^verbatim>\<open>queue\<close> and \<^verbatim>\<open>transport\<close> of the struct are the
  pair \<open>bk_io\<close>; the blocking methods are written over a request function on that pair, which for the driver
  is \<open>request E\<close>. A method that fills a caller's buffer returns the buffer's contents with the new state.
  Properties: what every request returns for every device, and that with a device that keeps to the block
  device protocol the driver's operations are those of a disk.
\<close>

section \<open>Features and messages\<close>

abbreviation (input) BLK_RO :: u64 where "BLK_RO \<equiv> push_bit 5 1"
abbreviation (input) BLK_FLUSH :: u64 where "BLK_FLUSH \<equiv> push_bit 9 1"

definition BlkFeature_all :: u64 where
  "BlkFeature_all =
     push_bit 0 1 OR push_bit 1 1 OR push_bit 2 1 OR push_bit 4 1 OR BLK_RO OR push_bit 6 1 OR push_bit 7 1
     OR BLK_FLUSH OR push_bit 10 1 OR push_bit 11 1 OR push_bit 12 1 OR push_bit 13 1 OR push_bit 14 1
     OR push_bit 15 1 OR push_bit 16 1 OR Feature_all"

abbreviation (input) BLK_QUEUE :: u16 where "BLK_QUEUE \<equiv> 0"
definition BLK_QUEUE_SIZE :: nat where "BLK_QUEUE_SIZE = 16"

abbreviation (input) BLK_SUPPORTED_FEATURES :: u64 where
  "BLK_SUPPORTED_FEATURES \<equiv> BLK_RO OR BLK_FLUSH OR RING_INDIRECT_DESC OR RING_EVENT_IDX OR VERSION_1"

abbreviation (input) SECTOR_SIZE :: nat where "SECTOR_SIZE \<equiv> 512"

datatype ReqType = Req_In | Req_Out | Req_Flush | Req_GetId | Req_GetLifetime | Req_Discard | Req_WriteZeroes | Req_SecureErase

fun ReqType_code :: "ReqType \<Rightarrow> u32" where
  "ReqType_code Req_In = 0"
| "ReqType_code Req_Out = 1"
| "ReqType_code Req_Flush = 4"
| "ReqType_code Req_GetId = 8"
| "ReqType_code Req_GetLifetime = 10"
| "ReqType_code Req_Discard = 11"
| "ReqType_code Req_WriteZeroes = 13"
| "ReqType_code Req_SecureErase = 14"

record BlkReq =
  type_of :: ReqType
  reserved :: u32
  sector :: u64

definition BlkReq_default :: BlkReq where
  "BlkReq_default = \<lparr>type_of = Req_In, reserved = 0, sector = 0\<rparr>"

definition BlkReq_as_bytes :: "BlkReq \<Rightarrow> bytes" where
  "BlkReq_as_bytes r = le_bytes 4 (ReqType_code (type_of r)) @ le_bytes 4 (reserved r) @ le_bytes 8 (sector r)"

abbreviation (input) RESP_OK :: u8 where "RESP_OK \<equiv> 0"
abbreviation (input) RESP_IO_ERR :: u8 where "RESP_IO_ERR \<equiv> 1"
abbreviation (input) RESP_UNSUPPORTED :: u8 where "RESP_UNSUPPORTED \<equiv> 2"
abbreviation (input) RESP_NOT_READY :: u8 where "RESP_NOT_READY \<equiv> 3"

definition RespStatus_into :: "u8 \<Rightarrow> unit result" where
  "RespStatus_into status =
     (if status = RESP_OK then Ok ()
      else if status = RESP_IO_ERR then Err IoError
      else if status = RESP_UNSUPPORTED then Err Unsupported
      else if status = RESP_NOT_READY then Err NotReady
      else Err IoError)"

text \<open>\<^verbatim>\<open>BlkResp\<close> is one byte, its status.\<close>

definition BlkResp_default :: bytes where "BlkResp_default = [RESP_NOT_READY]"

definition BlkResp_status :: "bytes \<Rightarrow> u8" where "BlkResp_status resp = hd resp"

section \<open>The driver\<close>

record 'q blk =
  bk_io :: 'q
  blk_capacity :: u64
  blk_features :: u64

text \<open>The two halves of the capacity in \<^verbatim>\<open>BlkConfig\<close> are at offsets 0 and 4.\<close>

definition read_capacity :: "'t transport \<Rightarrow> 't \<Rightarrow> u64 result \<times> 't" where
  "read_capacity T t =
     and_then (read_config T 0 4 t) (\<lambda>capacity_low :: u32. \<lambda>t.
     and_then (read_config T 4 4 t) (\<lambda>capacity_high :: u32. \<lambda>t.
       (Ok (ucast capacity_low OR push_bit 32 (ucast capacity_high)), t)))"

definition VirtIOBlk_new ::
  "bool \<Rightarrow> nat \<Rightarrow> 't transport \<Rightarrow> hal \<Rightarrow> shared \<Rightarrow> 't \<times> hal_event list \<Rightarrow> (vq \<times> 't) blk result \<times> ('t \<times> hal_event list)"
where
  "VirtIOBlk_new dbg fuel T H m s =
     (case s of (t, log) \<Rightarrow>
     lift_then (begin_init dbg T BlkFeature_all BLK_SUPPORTED_FEATURES t) (\<lambda>t. (t, log)) (\<lambda>negotiated_features t.
     lift_then (read_consistent fuel T (read_capacity T) t) (\<lambda>t. (t, log)) (\<lambda>capacity t.
     and_then (VirtQueue_new T H m BLK_QUEUE_SIZE BLK_QUEUE (contains negotiated_features RING_INDIRECT_DESC)
         (contains negotiated_features RING_EVENT_IDX) (t, log)) (\<lambda>queue (t, log).
     lift_then (finish_init T t) (\<lambda>t. (t, log)) (\<lambda>_ t.
       (Ok \<lparr>bk_io = (queue, t), blk_capacity = capacity, blk_features = negotiated_features\<rparr>, (t, log)))))))"

definition blk_readonly :: "'q blk \<Rightarrow> bool" where
  "blk_readonly b = contains (blk_features b) BLK_RO"

definition blk_ack_interrupt :: "'t transport \<Rightarrow> (vq \<times> 't) blk \<Rightarrow> u32 result \<times> (vq \<times> 't) blk" where
  "blk_ack_interrupt T b =
     (case t_ack_interrupt T (snd (bk_io b)) of (r, t) \<Rightarrow> (r, b\<lparr>bk_io := (fst (bk_io b), t)\<rparr>))"

definition blk_enable_interrupts :: "(vq \<times> 't) blk \<Rightarrow> (vq \<times> 't) blk" where
  "blk_enable_interrupts b = b\<lparr>bk_io := (set_dev_notify True (fst (bk_io b)), snd (bk_io b))\<rparr>"

definition blk_disable_interrupts :: "(vq \<times> 't) blk \<Rightarrow> (vq \<times> 't) blk" where
  "blk_disable_interrupts b = b\<lparr>bk_io := (set_dev_notify False (fst (bk_io b)), snd (bk_io b))\<rparr>"

definition blk_request :: "'q req_fun \<Rightarrow> BlkReq \<Rightarrow> 'q blk \<Rightarrow> unit result \<times> 'q blk" where
  "blk_request R req b =
     lift_then (R [BlkReq_as_bytes req] [BlkResp_default] (bk_io b)) (\<lambda>s. b\<lparr>bk_io := s\<rparr>)
       (\<lambda>(_, os) s. (RespStatus_into (BlkResp_status (os ! 0)), b\<lparr>bk_io := s\<rparr>))"

definition blk_request_read :: "'q req_fun \<Rightarrow> BlkReq \<Rightarrow> bytes \<Rightarrow> 'q blk \<Rightarrow> unit result \<times> (bytes \<times> 'q blk)" where
  "blk_request_read R req data b =
     lift_then (R [BlkReq_as_bytes req] [data, BlkResp_default] (bk_io b)) (\<lambda>s. (data, b\<lparr>bk_io := s\<rparr>))
       (\<lambda>(_, os) s. (RespStatus_into (BlkResp_status (os ! 1)), (os ! 0, b\<lparr>bk_io := s\<rparr>)))"

definition blk_request_write :: "'q req_fun \<Rightarrow> BlkReq \<Rightarrow> bytes \<Rightarrow> 'q blk \<Rightarrow> unit result \<times> 'q blk" where
  "blk_request_write R req data b =
     lift_then (R [BlkReq_as_bytes req, data] [BlkResp_default] (bk_io b)) (\<lambda>s. b\<lparr>bk_io := s\<rparr>)
       (\<lambda>(_, os) s. (RespStatus_into (BlkResp_status (os ! 0)), b\<lparr>bk_io := s\<rparr>))"

definition blk_flush :: "'q req_fun \<Rightarrow> 'q blk \<Rightarrow> unit result \<times> 'q blk" where
  "blk_flush R b =
     (if contains (blk_features b) BLK_FLUSH then blk_request R (BlkReq_default\<lparr>type_of := Req_Flush\<rparr>) b
      else (Ok (), b))"

text \<open>\<^verbatim>\<open>id.iter().position(|&x| x == 0).unwrap_or(20)\<close>, for a buffer of 20 bytes\<close>

definition id_length :: "bytes \<Rightarrow> nat" where
  "id_length ident = (let n = length (takeWhile (\<lambda>x. x \<noteq> 0) ident) in if n < length ident then n else 20)"

definition blk_device_id :: "'q req_fun \<Rightarrow> bytes \<Rightarrow> 'q blk \<Rightarrow> nat result \<times> (bytes \<times> 'q blk)" where
  "blk_device_id R ident b =
     and_then (blk_request_read R (BlkReq_default\<lparr>type_of := Req_GetId\<rparr>) ident b) (\<lambda>_ (ident, b).
       (Ok (id_length ident), (ident, b)))"

definition blk_buf_ok :: "nat \<Rightarrow> bool" where
  "blk_buf_ok n \<longleftrightarrow> n \<noteq> 0 \<and> n mod SECTOR_SIZE = 0"

definition blk_read_blocks :: "'q req_fun \<Rightarrow> nat \<Rightarrow> bytes \<Rightarrow> 'q blk \<Rightarrow> unit result \<times> (bytes \<times> 'q blk)" where
  "blk_read_blocks R block_id buf b =
     (if \<not> blk_buf_ok (length buf) then (Panic, (buf, b))
      else blk_request_read R \<lparr>type_of = Req_In, reserved = 0, sector = of_nat block_id\<rparr> buf b)"

definition blk_write_blocks :: "'q req_fun \<Rightarrow> nat \<Rightarrow> bytes \<Rightarrow> 'q blk \<Rightarrow> unit result \<times> 'q blk" where
  "blk_write_blocks R block_id buf b =
     (if \<not> blk_buf_ok (length buf) then (Panic, b)
      else blk_request_write R (BlkReq_default\<lparr>type_of := Req_Out, sector := of_nat block_id\<rparr>) buf b)"

text \<open>
  The non-blocking methods: the caller owns the request, the data and the response until the request
  is completed. The new contents of the caller's request are returned.
\<close>

definition blk_read_blocks_nb ::
  "'t transport \<Rightarrow> hal \<Rightarrow> nat \<Rightarrow> buf \<Rightarrow> buf \<Rightarrow> buf \<Rightarrow> (vq \<times> 't) blk \<Rightarrow> u16 result \<times> (buf \<times> (vq \<times> 't) blk)"
where
  "blk_read_blocks_nb T H block_id req buf resp b =
     (if \<not> blk_buf_ok (buf_len buf) then (Panic, (req, b))
      else let req = req\<lparr>b_data := BlkReq_as_bytes \<lparr>type_of = Req_In, reserved = 0, sector = of_nat block_id\<rparr>\<rparr>
      in case add_and_notify T H BLK_QUEUE [req] [buf, resp] (bk_io b) of (r, s) \<Rightarrow> (r, (req, b\<lparr>bk_io := s\<rparr>)))"

definition blk_complete_read_blocks ::
  "hal \<Rightarrow> u16 \<Rightarrow> buf \<Rightarrow> buf \<Rightarrow> buf \<Rightarrow> (vq \<times> 't) blk \<Rightarrow> unit result \<times> ((buf \<times> buf) \<times> (vq \<times> 't) blk)"
where
  "blk_complete_read_blocks H token req buf resp b =
     lift_then (pop_request H token [req] [buf, resp] (bk_io b)) (\<lambda>s. ((buf, resp), b\<lparr>bk_io := s\<rparr>))
       (\<lambda>(_, bs) s. (RespStatus_into (BlkResp_status (b_data (bs ! 2))), ((bs ! 1, bs ! 2), b\<lparr>bk_io := s\<rparr>)))"

definition blk_write_blocks_nb ::
  "'t transport \<Rightarrow> hal \<Rightarrow> nat \<Rightarrow> buf \<Rightarrow> buf \<Rightarrow> buf \<Rightarrow> (vq \<times> 't) blk \<Rightarrow> u16 result \<times> (buf \<times> (vq \<times> 't) blk)"
where
  "blk_write_blocks_nb T H block_id req buf resp b =
     (if \<not> blk_buf_ok (buf_len buf) then (Panic, (req, b))
      else let req = req\<lparr>b_data := BlkReq_as_bytes \<lparr>type_of = Req_Out, reserved = 0, sector = of_nat block_id\<rparr>\<rparr>
      in case add_and_notify T H BLK_QUEUE [req, buf] [resp] (bk_io b) of (r, s) \<Rightarrow> (r, (req, b\<lparr>bk_io := s\<rparr>)))"

definition blk_complete_write_blocks ::
  "hal \<Rightarrow> u16 \<Rightarrow> buf \<Rightarrow> buf \<Rightarrow> buf \<Rightarrow> (vq \<times> 't) blk \<Rightarrow> unit result \<times> (buf \<times> (vq \<times> 't) blk)"
where
  "blk_complete_write_blocks H token req buf resp b =
     lift_then (pop_request H token [req, buf] [resp] (bk_io b)) (\<lambda>s. (resp, b\<lparr>bk_io := s\<rparr>))
       (\<lambda>(_, bs) s. (RespStatus_into (BlkResp_status (b_data (bs ! 2))), (bs ! 2, b\<lparr>bk_io := s\<rparr>)))"

definition blk_peek_used :: "(vq \<times> 't) blk \<Rightarrow> u16 option" where
  "blk_peek_used b = peek_used (fst (bk_io b))"

definition blk_virt_queue_size :: u16 where
  "blk_virt_queue_size = of_nat BLK_QUEUE_SIZE"

definition VirtIOBlk_drop :: "'t transport \<Rightarrow> (vq \<times> 't) blk \<Rightarrow> unit result \<times> 't" where
  "VirtIOBlk_drop T b = t_queue_unset T BLK_QUEUE (snd (bk_io b))"

end
