(* ===== verification/Blk_Props.thy ===== *)
theory Blk_Props
  imports Blk
begin


text \<open>
  Properties of the block driver: the outcome of every request for every device, and the refinement of a disk.
\<close>

lemma length_BlkReq [simp]: "length (BlkReq_as_bytes r) = 16"
  by (simp add: BlkReq_as_bytes_def)

lemma BlkReq_fields [simp]:
  "from_le (take 4 (BlkReq_as_bytes r)) = ReqType_code (type_of r)"
  "from_le (drop 8 (BlkReq_as_bytes r)) = sector r"
  by (simp_all add: BlkReq_as_bytes_def)

lemma length_BlkResp [simp]: "length BlkResp_default = 1"
  by (simp add: BlkResp_default_def)

lemma msg_ne [simp]: "BlkReq_as_bytes r \<noteq> []" "BlkResp_default \<noteq> []"
  by (simp_all add: BlkResp_default_def flip: length_0_conv)

section \<open>Outcomes\<close>

text \<open>
  The outcome of a request that the device has answered: the meaning of some status byte, with a driver
  that is ready for the next request and has the same configuration.
\<close>

definition blk_answer :: "'t drv_env \<Rightarrow> (vq \<times> 't) blk \<Rightarrow> unit result \<Rightarrow> (vq \<times> 't) blk \<Rightarrow> bool" where
  "blk_answer E b r b' \<longleftrightarrow> (\<exists>status. r = RespStatus_into status) \<and> queue_ready E BLK_QUEUE_SIZE (bk_io b')
     \<and> blk_capacity b' = blk_capacity b \<and> blk_features b' = blk_features b"

lemma blk_request_answered:
  "queue_ready E BLK_QUEUE_SIZE (bk_io b) \<Longrightarrow> answered (blk_answer E b) (blk_request (request E) req b)"
  unfolding blk_request_def
  by (rule bq.request_then [where n = BLK_QUEUE_SIZE])
    (auto simp: msg_ok_def BLK_QUEUE_SIZE_def answered_def blk_answer_def)

lemma blk_request_write_answered:
  "queue_ready E BLK_QUEUE_SIZE (bk_io b) \<Longrightarrow> 0 < length data \<Longrightarrow> length data < 2 ^ 32 \<Longrightarrow>
   answered (blk_answer E b) (blk_request_write (request E) req data b)"
  unfolding blk_request_write_def
  by (rule bq.request_then [where n = BLK_QUEUE_SIZE])
    (auto simp: msg_ok_def BLK_QUEUE_SIZE_def answered_def blk_answer_def)

lemma blk_request_read_answered:
  "queue_ready E BLK_QUEUE_SIZE (bk_io b) \<Longrightarrow> 0 < length data \<Longrightarrow> length data < 2 ^ 32 \<Longrightarrow>
   answered (\<lambda>r (data', b'). length data' = length data \<and> blk_answer E b r b')
     (blk_request_read (request E) req data b)"
  unfolding blk_request_read_def
  by (rule bq.request_then [where n = BLK_QUEUE_SIZE])
    (auto simp: msg_ok_def BLK_QUEUE_SIZE_def answered_def blk_answer_def map_eq_Cons_conv)



text \<open>The constructor establishes readiness.\<close>

lemma VirtIOBlk_new_ready:
  assumes "VirtIOBlk_new dbg fuel T H m s = (Ok b, s')" "mem_ok BLK_QUEUE_SIZE m" "env_ok E"
  shows "queue_ready E BLK_QUEUE_SIZE (bk_io b)"
proof -
  have sz: "SIZE_OK BLK_QUEUE_SIZE" using driver_SIZE_OK by (simp add: BLK_QUEUE_SIZE_def)
  from assms(1) obtain q t ind ev s1 s2 where
    "VirtQueue_new T H m BLK_QUEUE_SIZE BLK_QUEUE ind ev s1 = (Ok q, s2)" "bk_io b = (q, t)"
    by (cases s) (auto simp: VirtIOBlk_new_def lift_then_Ok_iff and_then_Ok_iff)
  with VirtQueue_new_ready [OF _ sz assms(2,3)] show ?thesis by metis
qed

section \<open>The disk\<close>

datatype blk_op = Read nat bytes | Write nat bytes | Flush | DeviceId bytes

text \<open>One operation of the driver; a successful one returns the data it has read.\<close>

fun blk_exec :: "'q req_fun \<Rightarrow> blk_op \<Rightarrow> 'q blk \<Rightarrow> bytes result \<times> 'q blk" where
  "blk_exec R (Read n buf) b = (case blk_read_blocks R n buf b of (r, (buf', b')) \<Rightarrow> (bind_ok r (\<lambda>_. Ok buf'), b'))"
| "blk_exec R (Write n buf) b = (case blk_write_blocks R n buf b of (r, b') \<Rightarrow> (bind_ok r (\<lambda>_. Ok []), b'))"
| "blk_exec R Flush b = (case blk_flush R b of (r, b') \<Rightarrow> (bind_ok r (\<lambda>_. Ok []), b'))"
| "blk_exec R (DeviceId buf) b =
     (case blk_device_id R buf b of (r, (buf', b')) \<Rightarrow> (bind_ok r (\<lambda>n. Ok (take n buf')), b'))"

fun blk_run :: "'q req_fun \<Rightarrow> blk_op list \<Rightarrow> 'q blk \<Rightarrow> bytes result list \<times> 'q blk" where
  "blk_run R [] b = ([], b)"
| "blk_run R (op # ops) b =
     (case blk_exec R op b of (r, b) \<Rightarrow> case blk_run R ops b of (rs, b) \<Rightarrow> (r # rs, b))"

definition blk_op_ok :: "blk_op \<Rightarrow> bool" where
  "blk_op_ok op = (case op of
      Read n buf \<Rightarrow> n < 2 ^ 64 \<and> blk_buf_ok (length buf)
    | Write n buf \<Rightarrow> n < 2 ^ 64 \<and> blk_buf_ok (length buf)
    | Flush \<Rightarrow> True
    | DeviceId buf \<Rightarrow> length buf = 20)"

text \<open>The specification: an array of bytes that is read and overwritten in whole sectors, with an identifier.\<close>

fun disk_exec :: "bytes \<Rightarrow> blk_op \<Rightarrow> bytes \<Rightarrow> bytes result \<times> bytes" where
  "disk_exec ident (Read n buf) c =
     (if n * 512 + length buf \<le> length c then (Ok (take (length buf) (drop (n * 512) c)), c) else (Err IoError, c))"
| "disk_exec ident (Write n buf) c =
     (if n * 512 + length buf \<le> length c
      then (Ok [], take (n * 512) c @ buf @ drop (n * 512 + length buf) c) else (Err IoError, c))"
| "disk_exec ident Flush c = (Ok [], c)"
| "disk_exec ident (DeviceId buf) c = (Ok (takeWhile (\<lambda>x. x \<noteq> 0) ident), c)"

fun disk_run :: "bytes \<Rightarrow> blk_op list \<Rightarrow> bytes \<Rightarrow> bytes result list \<times> bytes" where
  "disk_run ident [] c = ([], c)"
| "disk_run ident (op # ops) c =
     (case disk_exec ident op c of (r, c) \<Rightarrow> case disk_run ident ops c of (rs, c) \<Rightarrow> (r # rs, c))"

text \<open>
  A device that serves a disk, as the protocol for block devices documents it: the header of a request has the
  type in its first four bytes and the sector in its last eight; the device answers every read,
  write, flush and identifier request with a status byte, 0 for success, and 1 for a read or write that
  is not within the disk. \<open>contents\<close> gives the bytes of the disk.
\<close>

definition block_device :: "'q req_fun \<Rightarrow> ('q \<Rightarrow> bytes) \<Rightarrow> bytes \<Rightarrow> bool" where
  "block_device R contents ident \<longleftrightarrow>
     (\<forall>s hdr data st. length hdr = 16 \<and> from_le (take 4 hdr) = (0 :: u32) \<longrightarrow>
       (\<exists>len d status s'. R [hdr] [data, [st]] s = (Ok (len, [d, [status]]), s') \<and> contents s' = contents s \<and>
         (let pos = unat (from_le (drop 8 hdr) :: u64) * 512 in
          if pos + length data \<le> length (contents s)
          then status = 0 \<and> d = take (length data) (drop pos (contents s)) else status = 1))) \<and>
     (\<forall>s hdr data st. length hdr = 16 \<and> from_le (take 4 hdr) = (1 :: u32) \<longrightarrow>
       (\<exists>len status s'. R [hdr, data] [[st]] s = (Ok (len, [[status]]), s') \<and>
         (let pos = unat (from_le (drop 8 hdr) :: u64) * 512 in
          if pos + length data \<le> length (contents s)
          then status = 0 \<and> contents s' = take pos (contents s) @ data @ drop (pos + length data) (contents s)
          else status = 1 \<and> contents s' = contents s))) \<and>
     (\<forall>s hdr st. length hdr = 16 \<and> from_le (take 4 hdr) = (4 :: u32) \<longrightarrow>
       (\<exists>len s'. R [hdr] [[st]] s = (Ok (len, [[0]]), s') \<and> contents s' = contents s)) \<and>
     (\<forall>s hdr data st. length hdr = 16 \<and> from_le (take 4 hdr) = (8 :: u32) \<and> length data = 20 \<longrightarrow>
       (\<exists>len s'. R [hdr] [data, [st]] s = (Ok (len, [ident, [0]]), s') \<and> contents s' = contents s))"

lemma block_device_read:
  assumes "block_device R contents ident" "type_of r = Req_In"
  obtains len d status s' where
    "R [BlkReq_as_bytes r] [data, [st]] s = (Ok (len, [d, [status]]), s')" "contents s' = contents s"
    "unat (sector r) * 512 + length data \<le> length (contents s) \<Longrightarrow>
       status = 0 \<and> d = take (length data) (drop (unat (sector r) * 512) (contents s))"
    "\<not> unat (sector r) * 512 + length data \<le> length (contents s) \<Longrightarrow> status = 1"
  using assms(1) [unfolded block_device_def, THEN conjunct1, rule_format, of "BlkReq_as_bytes r" data st s] assms(2)
  by (auto simp: Let_def split: if_splits)

lemma block_device_write:
  assumes "block_device R contents ident" "type_of r = Req_Out"
  obtains len status s' where
    "R [BlkReq_as_bytes r, data] [[st]] s = (Ok (len, [[status]]), s')"
    "unat (sector r) * 512 + length data \<le> length (contents s) \<Longrightarrow>
       status = 0 \<and> contents s' = take (unat (sector r) * 512) (contents s) @ data @ drop (unat (sector r) * 512 + length data) (contents s)"
    "\<not> unat (sector r) * 512 + length data \<le> length (contents s) \<Longrightarrow> status = 1 \<and> contents s' = contents s"
  using assms(1) [unfolded block_device_def, THEN conjunct2, THEN conjunct1, rule_format, of "BlkReq_as_bytes r" data st s] assms(2)
  by (auto simp: Let_def split: if_splits)

lemma block_device_flush:
  assumes "block_device R contents ident" "type_of r = Req_Flush"
  obtains len s' where "R [BlkReq_as_bytes r] [[st]] s = (Ok (len, [[0]]), s')" "contents s' = contents s"
  using assms(1) [unfolded block_device_def, THEN conjunct2, THEN conjunct2, THEN conjunct1, rule_format, of "BlkReq_as_bytes r" st s]
    assms(2) by auto

lemma block_device_id:
  assumes "block_device R contents ident" "type_of r = Req_GetId" "length data = 20"
  obtains len s' where "R [BlkReq_as_bytes r] [data, [st]] s = (Ok (len, [ident, [0]]), s')" "contents s' = contents s"
  using assms(1) [unfolded block_device_def, THEN conjunct2, THEN conjunct2, THEN conjunct2, rule_format, of "BlkReq_as_bytes r" data st s]
    assms(2,3) by auto

lemma RespStatus_into_simps [simp]:
  "RespStatus_into 0 = Ok ()" "RespStatus_into 1 = Err IoError"
  by (simp_all add: RespStatus_into_def)

lemma id_length_take: "length ident = 20 \<Longrightarrow> take (id_length ident) ident = takeWhile (\<lambda>x. x \<noteq> 0) ident"
proof -
  assume l: "length ident = 20"
  let ?w = "takeWhile (\<lambda>x. x \<noteq> 0) ident"
  have "take (length ?w) ident = ?w" by (metis takeWhile_eq_take)
  moreover have "length ?w \<le> 20" using l length_takeWhile_le [of "\<lambda>x. x \<noteq> 0" ident] by simp
  ultimately show ?thesis using l by (cases "length ?w = 20") (simp_all add: id_length_def Let_def)
qed

lemma blk_exec_refines:
  assumes dev: "block_device R contents ident" and id: "length ident = 20" and op: "blk_op_ok op"
    and run: "blk_exec R op b = (r, b')"
  shows "disk_exec ident op (contents (bk_io b)) = (r, contents (bk_io b'))"
proof (cases op)
  case (Read n buf)
  then have n: "unat (of_nat n :: u64) = n" "blk_buf_ok (length buf)"
    using op by (simp_all add: blk_op_ok_def unat_of_nat take_bit_nat_eq_self)
  show ?thesis
    by (rule block_device_read [OF dev, of "\<lparr>type_of = Req_In, reserved = 0, sector = of_nat n\<rparr>" buf RESP_NOT_READY "bk_io b"])
      (use Read run n in \<open>auto simp: blk_read_blocks_def blk_request_read_def BlkResp_default_def BlkResp_status_def split: if_splits\<close>)
next
  case (Write n buf)
  then have n: "unat (of_nat n :: u64) = n" "blk_buf_ok (length buf)"
    using op by (simp_all add: blk_op_ok_def unat_of_nat take_bit_nat_eq_self)
  show ?thesis
    by (rule block_device_write [OF dev, of "BlkReq_default\<lparr>type_of := Req_Out, sector := of_nat n\<rparr>" buf RESP_NOT_READY "bk_io b"])
      (use Write run n in \<open>auto simp: blk_write_blocks_def blk_request_write_def BlkResp_default_def BlkResp_status_def split: if_splits\<close>)
next
  case Flush
  show ?thesis
    by (rule block_device_flush [OF dev, of "BlkReq_default\<lparr>type_of := Req_Flush\<rparr>" RESP_NOT_READY "bk_io b"])
      (use Flush run in \<open>auto simp: blk_flush_def blk_request_def BlkResp_default_def BlkResp_status_def split: if_splits\<close>)
next
  case (DeviceId buf)
  show ?thesis
    by (rule block_device_id [OF dev, of "BlkReq_default\<lparr>type_of := Req_GetId\<rparr>" buf RESP_NOT_READY "bk_io b"])
      (use DeviceId op run id in \<open>auto simp: blk_op_ok_def blk_device_id_def blk_request_read_def BlkResp_default_def BlkResp_status_def id_length_take\<close>)
qed


text \<open>A device that serves a disk, whose state is the contents of the disk.\<close>

definition demo_disk :: "bytes \<Rightarrow> bytes req_fun" where
  "demo_disk ident inputs outputs c =
     (let ty = (from_le (take 4 (inputs ! 0)) :: u32); pos = unat (from_le (drop 8 (inputs ! 0)) :: u64) * 512 in
      if ty = 0 then
        (if pos + length (outputs ! 0) \<le> length c then (Ok (0, [take (length (outputs ! 0)) (drop pos c), [0]]), c)
         else (Ok (0, [outputs ! 0, [1]]), c))
      else if ty = 1 then
        (if pos + length (inputs ! 1) \<le> length c
         then (Ok (0, [[0]]), take pos c @ inputs ! 1 @ drop (pos + length (inputs ! 1)) c) else (Ok (0, [[1]]), c))
      else if ty = 4 then (Ok (0, [[0]]), c)
      else (Ok (0, [ident, [0]]), c))"

lemma block_device_demo: "block_device (demo_disk ident) (\<lambda>c. c) ident"
  unfolding block_device_def demo_disk_def Let_def by (intro conjI allI impI) auto


end
