(* ===== verification/Receive_Pool.thy ===== *)
theory Receive_Pool
  imports Owning_Queue_Props Driver_Queue
begin

text \<open>
  A receive queue whose requests are single device-writable buffers. The console, network and input drivers
  keep one or more such buffers in flight and find a completed buffer by its token. \<open>pool_inv B q fl\<close>: the
  buffer in flight under token \<open>i\<close> is \<open>B i\<close>, and \<open>fl\<close> is the list of free descriptors, the next one first.
\<close>

definition pool_table :: "(nat \<Rightarrow> buf option) \<Rightarrow> inflight list \<Rightarrow> bool" where
  "pool_table B cs \<longleftrightarrow> (\<forall>c\<in>set cs. \<exists>i b. idxs c = [i] \<and> B (unat i) = Some b \<and> req_match [] [b] c)"

definition pool_inv :: "(nat \<Rightarrow> buf option) \<Rightarrow> vq \<Rightarrow> u16 list \<Rightarrow> bool" where
  "pool_inv B q fl \<longleftrightarrow> (\<exists>cs. vq_inv q fl cs \<and> pool_table B cs)"

lemma pool_free:
  assumes "pool_inv B q fl"
  shows "distinct fl" "i \<in> set fl \<Longrightarrow> unat i < SIZE q" "unat j < SIZE q \<Longrightarrow> j \<notin> set fl \<Longrightarrow> B (unat j) \<noteq> None"
proof -
  from assms obtain cs where cs: "vq_inv q fl cs" "pool_table B cs" by (auto simp: pool_inv_def)
  then show "distinct fl" "i \<in> set fl \<Longrightarrow> unat i < SIZE q" by (auto simp: vq_inv_def)
  assume "unat j < SIZE q" "j \<notin> set fl"
  with cs(1) have "j \<in> set (owned cs)" unfolding vq_inv_def by auto
  then show "B (unat j) \<noteq> None" using cs(2) by (fastforce simp: owned_def pool_table_def)
qed

lemma pool_device: "pool_inv B q fl \<Longrightarrow> vq_device q q' \<Longrightarrow> pool_inv B q' fl"
proof -
  assume a: "pool_inv B q fl" "vq_device q q'"
  then obtain cs where cs: "vq_inv q fl cs" "pool_table B cs" by (auto simp: pool_inv_def)
  moreover have "vq_inv q' fl cs" by (rule vq_inv_frame [OF cs(1)]) (use a(2) in \<open>auto simp: vq_device_def\<close>)
  ultimately show ?thesis by (auto simp: pool_inv_def)
qed

lemma pool_new:
  assumes "VirtQueue_new T H m n idx ind ev s = (Ok q, s')" "SIZE_OK n" "mem_ok n m"
  shows "pool_inv (\<lambda>_. None) q (fresh_free n)" "SIZE q = n" "queue_idx q = idx"
proof -
  obtain t log t' log' where "s = (t, log)" "s' = (t', log')" by fastforce
  note * = VirtQueue_new_Ok (1,4,7) [OF assms(1) [unfolded this] assms(2,3)]
  show "pool_inv (\<lambda>_. None) q (fresh_free n)" unfolding pool_inv_def pool_table_def
    using * (1) by (intro exI [of _ "[]"]) simp
  show "SIZE q = n" "queue_idx q = idx" using * by simp_all
qed

text \<open>Adding a buffer uses the first free descriptor, and fails when there is none.\<close>

lemma pool_add:
  assumes "pool_inv B q (i # fl)" "0 < buf_len b" "buf_len b < 2 ^ 32"
  obtains q' where "VirtQueue_add H [] [b] q = (Ok i, q')" "pool_inv (B(unat i \<mapsto> b)) q' fl" "SIZE q' = SIZE q"
    "queue_idx q' = queue_idx q"
proof -
  from assms(1) obtain cs where cs: "vq_inv q (i # fl) cs" "pool_table B cs" by (auto simp: pool_inv_def)
  from add_single [OF cs(1) assms(2,3), of H] obtain q' c where a:
    "VirtQueue_add H [] [b] q = (Ok i, q')" "idxs c = [i]" "vq_inv q' fl (c # cs)" "req_match [] [b] c"
    "SIZE q' = SIZE q" "queue_idx q' = queue_idx q" by blast
  have "pool_table (B(unat i \<mapsto> b)) (c # cs)" unfolding pool_table_def
  proof
    fix c' assume c': "c' \<in> set (c # cs)"
    show "\<exists>j b'. idxs c' = [j] \<and> (B(unat i \<mapsto> b)) (unat j) = Some b' \<and> req_match [] [b'] c'"
    proof (cases "c' = c")
      case False
      with c' cs(2) obtain j b' where j: "idxs c' = [j]" "B (unat j) = Some b'" "req_match [] [b'] c'"
        by (auto simp: pool_table_def)
      moreover have "j \<noteq> i" using cs(1) c' False j(1) by (auto simp: vq_inv_def owned_def)
      then have "unat j \<noteq> unat i" by (simp add: word_unat_eq_iff)
      ultimately show ?thesis by auto
    qed (use a in auto)
  qed
  with a(1,3,5,6) show thesis by (intro that [of q']) (auto simp: pool_inv_def)
qed

lemma pool_full: "pool_inv B q [] \<Longrightarrow> VirtQueue_add H [] [b] q = (Err QueueFull, q)"
proof -
  assume "pool_inv B q []"
  then obtain cs where inv: "vq_inv q [] cs" by (auto simp: pool_inv_def)
  from vq_inv_length [OF inv] have "unat (num_used q) = SIZE q" by simp
  then show ?thesis by (simp add: VirtQueue_add_def)
qed

text \<open>Popping the completed buffer makes its descriptor the first free one. Its table entry may be anything then.\<close>

lemma pool_pop:
  assumes "pool_inv B q fl" "peek_used q = Some tok" "unat tok < SIZE q" "tok \<notin> set fl"
  obtains b b' q' where "B (unat tok) = Some b"
    "VirtQueue_pop_used H tok [] [b] q = (Ok (ue_len (used_slot q), [b']), q')"
    "buf_len b' = buf_len b" "b_ptr b' = b_ptr b" "pool_inv (B(unat tok := x)) q' (tok # fl)" "SIZE q' = SIZE q"
    "queue_idx q' = queue_idx q"
proof -
  from assms(1) obtain cs where cs: "vq_inv q fl cs" "pool_table B cs" by (auto simp: pool_inv_def)
  have "tok \<in> set (owned cs)" using cs(1) assms(3,4) unfolding vq_inv_def by auto
  then obtain c where c0: "c \<in> set cs" "tok \<in> set (idxs c)" by (auto simp: owned_def)
  with cs(2) obtain b where c: "idxs c = [tok]" "B (unat tok) = Some b" "req_match [] [b] c"
    by (fastforce simp: pool_table_def)
  from c0(1) obtain cs1 cs2 where sp: "cs = cs1 @ c # cs2" by (metis split_list)
  have tc: "token_of c = tok" by (simp add: token_of_def c(1))
  have u: "can_pop q" "ucast (ue_id (used_slot q)) = token_of c" using assms(2) tc by (auto simp: peek_used_def split: if_splits)
  from pop_used_ok [OF cs(1) [unfolded sp] c(3) u, of H] tc c(1) obtain q' b' where p:
    "VirtQueue_pop_used H tok [] [b] q = (Ok (ue_len (used_slot q), [b']), q')"
    "buf_len b' = buf_len b" "b_ptr b' = b_ptr b" "vq_inv q' (tok # fl) (cs1 @ cs2)" "SIZE q' = SIZE q" "queue_idx q' = queue_idx q"
    by (auto simp: map_eq_Cons_conv)
  have "pool_table (B(unat tok := x)) (cs1 @ cs2)" unfolding pool_table_def
  proof
    fix c' assume c': "c' \<in> set (cs1 @ cs2)"
    then have "c' \<in> set cs" using sp by auto
    with cs(2) obtain j b'' where j: "idxs c' = [j]" "B (unat j) = Some b''" "req_match [] [b''] c'"
      unfolding pool_table_def by blast
    moreover have "j \<noteq> tok" using p(4) c' j(1) by (auto simp: vq_inv_def owned_def)
    then have "unat j \<noteq> unat tok" by (simp add: word_unat_eq_iff)
    ultimately show "\<exists>j b'. idxs c' = [j] \<and> (B(unat tok := x)) (unat j) = Some b' \<and> req_match [] [b'] c'" by auto
  qed
  with p c(2) show thesis by (intro that [of b b' q']) (auto simp: pool_inv_def)
qed

lemma pool_table_cong: "pool_inv B q fl \<Longrightarrow> (\<And>i b. B i = Some b \<Longrightarrow> C i = Some b) \<Longrightarrow> pool_inv C q fl"
  unfolding pool_inv_def pool_table_def by metis

text \<open>The table of an array whose buffers are all in flight.\<close>

definition buf_table :: "buf list \<Rightarrow> nat \<Rightarrow> buf option" where
  "buf_table bufs i = (if i < length bufs then Some (bufs ! i) else None)"

lemma buf_table_update: "i < length bufs \<Longrightarrow> (buf_table bufs)(i \<mapsto> b) = buf_table (bufs[i := b])"
  by (auto simp: buf_table_def fun_eq_iff)

text \<open>A device that completes the buffer with token \<open>tok\<close>, for the concrete runs.\<close>

definition complete :: "u16 \<Rightarrow> u32 \<Rightarrow> vq \<Rightarrow> vq" where
  "complete tok len q = q\<lparr>mem := (demo_queue_mem (SIZE q))\<lparr>sm_used := \<lparr>u_flags = 0, u_idx = last_used_idx q + 1,
      u_ring = replicate (SIZE q) \<lparr>ue_id = ucast tok, ue_len = len\<rparr>, u_avail_event = 0\<rparr>\<rparr>\<rparr>"

lemma complete_props:
  assumes "SIZE_OK (SIZE q)"
  shows "vq_device q (complete tok len q)" "peek_used (complete tok len q) = Some tok"
    "ue_len (used_slot (complete tok len q)) = len" "SIZE (complete tok len q) = SIZE q"
proof -
  have us: "used_slot (complete tok len q) = \<lparr>ue_id = ucast tok, ue_len = len\<rparr>"
    using ring_slot_less [OF assms] by (simp add: used_slot_def complete_def)
  then show "ue_len (used_slot (complete tok len q)) = len" by simp
  have "ucast (ucast tok :: u32) = tok" by transfer simp
  then show "peek_used (complete tok len q) = Some tok"
    by (simp add: peek_used_def us) (simp add: can_pop_def complete_def)
  show "vq_device q (complete tok len q)"
    unfolding vq_device_def complete_def by (intro exI conjI) (auto simp: mem_ok_def demo_queue_mem_def)
qed (simp add: complete_def)

lemma pool_SIZE_OK: "pool_inv B q fl \<Longrightarrow> SIZE_OK (SIZE q)"
  by (auto simp: pool_inv_def vq_inv_def)

end
