(* ===== verification/Console.thy ===== *)
theory Console
  imports Receive_Pool
begin


text \<open>
  The driver for console devices (src/src/device/console.rs), its \<^verbatim>\<open>embedded-io\<close> traits
  (src/src/device/console/embedded_io.rs) and the error kinds of that interface (src/src/embedded_io.rs). The loop
  that waits for input takes the device's actions on the receive queue. Property: what \<^verbatim>\<open>recv\<close> returns is the
  stream of bytes the device wrote.
\<close>

abbreviation (input) CON_QUEUE_RECEIVEQ :: u16 where "CON_QUEUE_RECEIVEQ \<equiv> 0"
abbreviation (input) CON_QUEUE_TRANSMITQ :: u16 where "CON_QUEUE_TRANSMITQ \<equiv> 1"
definition CON_QUEUE_SIZE :: nat where "CON_QUEUE_SIZE = 2"

abbreviation (input) CON_SIZE :: u64 where "CON_SIZE \<equiv> push_bit 0 1"
abbreviation (input) CON_EMERG_WRITE :: u64 where "CON_EMERG_WRITE \<equiv> push_bit 2 1"

definition CON_Feature_all :: u64 where
  "CON_Feature_all = CON_SIZE OR push_bit 1 1 OR CON_EMERG_WRITE OR Feature_all"

abbreviation (input) CON_SUPPORTED_FEATURES :: u64 where
  "CON_SUPPORTED_FEATURES \<equiv> RING_EVENT_IDX OR RING_INDIRECT_DESC OR CON_SIZE OR CON_EMERG_WRITE OR VERSION_1"

record 't console =
  co_transport :: 't
  co_features :: u64
  receiveq :: vq
  transmitq :: vq
  queue_buf_rx :: buf
  cursor :: nat
  pending_len :: nat
  receive_token :: "u16 option"

record con_size =
  columns :: u16
  rows :: u16

definition read_size :: "'t transport \<Rightarrow> 't \<Rightarrow> con_size option result \<times> 't" where
  "read_size T t =
     and_then (read_config T 0 2 t) (\<lambda>cols t.
     and_then (read_config T 2 2 t) (\<lambda>rws t.
       (Ok (Some \<lparr>columns = cols, rows = rws\<rparr>), t)))"

definition con_size_of :: "nat \<Rightarrow> 't transport \<Rightarrow> 't console \<Rightarrow> con_size option result \<times> 't console" where
  "con_size_of fuel T c =
     (if contains (co_features c) CON_SIZE
      then case read_consistent fuel T (read_size T) (co_transport c) of (r, t) \<Rightarrow> (r, c\<lparr>co_transport := t\<rparr>)
      else (Ok None, c))"

definition poll_retrieve :: "'t transport \<Rightarrow> hal \<Rightarrow> 't console \<Rightarrow> unit result \<times> 't console" where
  "poll_retrieve T H c =
     (if receive_token c = None \<and> cursor c = pending_len c
      then lift_then (VirtQueue_add H [] [queue_buf_rx c] (receiveq c)) (\<lambda>q. c\<lparr>receiveq := q\<rparr>) (\<lambda>token q.
           let c = c\<lparr>receiveq := q, receive_token := Some token\<rparr>
           in lift_then (notify_queue T CON_QUEUE_RECEIVEQ q (co_transport c)) (\<lambda>t. c\<lparr>co_transport := t\<rparr>)
                (\<lambda>_ t. (Ok (), c\<lparr>co_transport := t\<rparr>)))
      else (Ok (), c))"

definition VirtIOConsole_new ::
  "bool \<Rightarrow> 't transport \<Rightarrow> hal \<Rightarrow> shared \<Rightarrow> shared \<Rightarrow> 't \<times> hal_event list \<Rightarrow> 't console result \<times> ('t \<times> hal_event list)"
where
  "VirtIOConsole_new dbg T H mr mt s =
     (case s of (t, log) \<Rightarrow>
     lift_then (begin_init dbg T CON_Feature_all CON_SUPPORTED_FEATURES t) (\<lambda>t. (t, log)) (\<lambda>negotiated t.
     let ind = contains negotiated RING_INDIRECT_DESC; ev = contains negotiated RING_EVENT_IDX in
     and_then (VirtQueue_new T H mr CON_QUEUE_SIZE CON_QUEUE_RECEIVEQ ind ev (t, log)) (\<lambda>rq s.
     and_then (VirtQueue_new T H mt CON_QUEUE_SIZE CON_QUEUE_TRANSMITQ ind ev s) (\<lambda>tq (t, log).
     let rx = \<lparr>b_ptr = hal_box_ptr H log PAGE_SIZE, b_data = replicate PAGE_SIZE 0\<rparr> in
     lift_then (finish_init T t) (\<lambda>t. (t, log)) (\<lambda>_ t.
     lift_then
       (poll_retrieve T H \<lparr>co_transport = t, co_features = negotiated, receiveq = rq, transmitq = tq, queue_buf_rx = rx,
          cursor = 0, pending_len = 0, receive_token = None\<rparr>)
       (\<lambda>c. (co_transport c, log)) (\<lambda>_ c. (Ok c, (co_transport c, log))))))))"

definition finish_receive :: "hal \<Rightarrow> 't console \<Rightarrow> bool result \<times> 't console" where
  "finish_receive H c =
     (case receive_token c of
        None \<Rightarrow> (Ok False, c)
      | Some token \<Rightarrow>
          if receive_token c = peek_used (receiveq c)
          then lift_then (VirtQueue_pop_used H token [] [queue_buf_rx c] (receiveq c)) (\<lambda>q. c\<lparr>receiveq := q\<rparr>) (\<lambda>(len, bs) q.
               let c = c\<lparr>receiveq := q, queue_buf_rx := hd bs\<rparr>
               in if len = 0 then (Panic, c)
                  else (Ok True, c\<lparr>cursor := 0, pending_len := unat len, receive_token := None\<rparr>))
          else (Ok False, c))"

definition con_ack_interrupt :: "'t transport \<Rightarrow> hal \<Rightarrow> 't console \<Rightarrow> bool result \<times> 't console" where
  "con_ack_interrupt T H c =
     lift_then (t_ack_interrupt T (co_transport c)) (\<lambda>t. c\<lparr>co_transport := t\<rparr>) (\<lambda>status t.
       let c = c\<lparr>co_transport := t\<rparr>
       in if \<not> contains status QUEUE_INTERRUPT then (Ok False, c) else finish_receive H c)"

definition con_recv :: "'t transport \<Rightarrow> hal \<Rightarrow> bool \<Rightarrow> 't console \<Rightarrow> u8 option result \<times> 't console" where
  "con_recv T H pop c =
     and_then (finish_receive H c) (\<lambda>_ c.
       if cursor c = pending_len c then (Ok None, c)
       else if \<not> cursor c < buf_len (queue_buf_rx c) then (Panic, c)
       else let ch = b_data (queue_buf_rx c) ! cursor c
       in if pop then and_then (poll_retrieve T H (c\<lparr>cursor := cursor c + 1\<rparr>)) (\<lambda>_ c. (Ok (Some ch), c))
          else (Ok (Some ch), c))"

definition con_send_bytes :: "(vq \<times> 't) req_fun \<Rightarrow> bytes \<Rightarrow> 't console \<Rightarrow> unit result \<times> 't console" where
  "con_send_bytes R buffer c =
     lift_then (R [buffer] [] (transmitq c, co_transport c)) (\<lambda>(q, t). c\<lparr>transmitq := q, co_transport := t\<rparr>)
       (\<lambda>_ (q, t). (Ok (), c\<lparr>transmitq := q, co_transport := t\<rparr>))"

definition con_send :: "(vq \<times> 't) req_fun \<Rightarrow> u8 \<Rightarrow> 't console \<Rightarrow> unit result \<times> 't console" where
  "con_send R chr c =
     lift_then (R [[chr]] [] (transmitq c, co_transport c)) (\<lambda>(q, t). c\<lparr>transmitq := q, co_transport := t\<rparr>)
       (\<lambda>_ (q, t). (Ok (), c\<lparr>transmitq := q, co_transport := t\<rparr>))"

fun wait_receive_loop :: "hal \<Rightarrow> (shared \<Rightarrow> shared) list \<Rightarrow> 't console \<Rightarrow> unit result \<times> 't console" where
  "wait_receive_loop H [] c = (if cursor c = pending_len c then (Diverge, c) else (Ok (), c))"
| "wait_receive_loop H (d # ds) c =
     (if cursor c = pending_len c
      then and_then (finish_receive H (c\<lparr>receiveq := (receiveq c)\<lparr>mem := d (mem (receiveq c))\<rparr>\<rparr>)) (\<lambda>_ c. wait_receive_loop H ds c)
      else (Ok (), c))"

definition wait_for_receive :: "'t drv_env \<Rightarrow> 't console \<Rightarrow> unit result \<times> 't console" where
  "wait_for_receive E c =
     and_then (poll_retrieve (de_T E) (de_H E) c) (\<lambda>_ c. wait_receive_loop (de_H E) (de_wait E (receiveq c)) c)"

text \<open>The offset of \<^verbatim>\<open>emerg_wr\<close> in \<^verbatim>\<open>Config\<close> is 8.\<close>

definition emergency_write :: "'t transport \<Rightarrow> u8 \<Rightarrow> 't console \<Rightarrow> unit result \<times> 't console" where
  "emergency_write T chr c =
     (if contains (co_features c) CON_EMERG_WRITE
      then case write_config T 8 4 (ucast chr :: u32) (co_transport c) of (r, t) \<Rightarrow> (r, c\<lparr>co_transport := t\<rparr>)
      else (Err Unsupported, c))"

text \<open>\<^verbatim>\<open>fmt::Write\<close>; the error type is \<^verbatim>\<open>fmt::Error\<close>, without information.\<close>

definition con_write_str :: "(vq \<times> 't) req_fun \<Rightarrow> bytes \<Rightarrow> 't console \<Rightarrow> (unit, unit) outcome \<times> 't console" where
  "con_write_str R s c = (case con_send_bytes R s c of (r, c) \<Rightarrow> (map_err (\<lambda>_. ()) r, c))"

definition VirtIOConsole_drop :: "'t transport \<Rightarrow> 't console \<Rightarrow> unit result \<times> 't" where
  "VirtIOConsole_drop T c =
     and_then (t_queue_unset T CON_QUEUE_RECEIVEQ (co_transport c)) (\<lambda>_ t. t_queue_unset T CON_QUEUE_TRANSMITQ t)"

section \<open>The traits of \<open>embedded-io\<close>\<close>

definition eio_write :: "(vq \<times> 't) req_fun \<Rightarrow> bytes \<Rightarrow> 't console \<Rightarrow> nat result \<times> 't console" where
  "eio_write R buf c =
     (if buf = [] then (Ok 0, c) else and_then (con_send_bytes R buf c) (\<lambda>_ c. (Ok (length buf), c)) )"

definition eio_flush :: "'t console \<Rightarrow> unit result \<times> 't console" where
  "eio_flush c = (Ok (), c)"

definition eio_read_ready :: "hal \<Rightarrow> 't console \<Rightarrow> bool result \<times> 't console" where
  "eio_read_ready H c = and_then (finish_receive H c) (\<lambda>_ c. (Ok (cursor c \<noteq> pending_len c), c))"

text \<open>\<^verbatim>\<open>read\<close> returns the length, and the contents of the caller's buffer afterwards.\<close>

definition eio_read :: "'t drv_env \<Rightarrow> bytes \<Rightarrow> 't console \<Rightarrow> nat result \<times> (bytes \<times> 't console)" where
  "eio_read E buf c =
     (if buf = [] then (Ok 0, (buf, c))
      else lift_then (wait_for_receive E c) (\<lambda>c. (buf, c)) (\<lambda>_ c.
        if pending_len c < cursor c then (Panic, (buf, c))
        else let read_length = min (length buf) (pending_len c - cursor c)
        in if buf_len (queue_buf_rx c) < cursor c + read_length then (Panic, (buf, c))
           else (Ok read_length,
             (take read_length (drop (cursor c) (b_data (queue_buf_rx c))) @ drop read_length buf, c))))"

definition eio_fill_buf :: "'t drv_env \<Rightarrow> 't console \<Rightarrow> bytes result \<times> 't console" where
  "eio_fill_buf E c =
     and_then (wait_for_receive E c) (\<lambda>_ c.
       if pending_len c < cursor c \<or> buf_len (queue_buf_rx c) < pending_len c then (Panic, c)
       else (Ok (drop (cursor c) (take (pending_len c) (b_data (queue_buf_rx c)))), c))"

definition eio_consume :: "nat \<Rightarrow> 't console \<Rightarrow> unit result \<times> 't console" where
  "eio_consume amt c = (if \<not> cursor c + amt \<le> pending_len c then (Panic, c) else (Ok (), c\<lparr>cursor := cursor c + amt\<rparr>))"

datatype ErrorKind = Kind_InvalidInput | Kind_OutOfMemory | Kind_Unsupported | Kind_AddrInUse | Kind_NotConnected
  | Kind_ConnectionAborted | Kind_WriteZero | Kind_Other

fun socket_error_kind :: "SocketError \<Rightarrow> ErrorKind" where
  "socket_error_kind ConnectionExists = Kind_AddrInUse"
| "socket_error_kind NotConnected = Kind_NotConnected"
| "socket_error_kind PeerSocketShutdown = Kind_ConnectionAborted"
| "socket_error_kind BufferTooShort = Kind_InvalidInput"
| "socket_error_kind (OutputBufferTooShort _) = Kind_InvalidInput"
| "socket_error_kind (BufferTooLong _ _) = Kind_InvalidInput"
| "socket_error_kind InsufficientBufferSpaceInPeer = Kind_WriteZero"
| "socket_error_kind (UnknownOperation _) = Kind_Other"
| "socket_error_kind InvalidOperation = Kind_Other"
| "socket_error_kind InvalidNumber = Kind_Other"
| "socket_error_kind UnexpectedDataInPacket = Kind_Other"
| "socket_error_kind RecycledWrongBuffer = Kind_Other"

fun error_kind :: "Error \<Rightarrow> ErrorKind" where
  "error_kind InvalidDescriptor = Kind_InvalidInput"
| "error_kind InvalidParam = Kind_InvalidInput"
| "error_kind DmaError = Kind_OutOfMemory"
| "error_kind Unsupported = Kind_Unsupported"
| "error_kind (SocketDeviceError e) = socket_error_kind e"
| "error_kind QueueFull = Kind_Other"
| "error_kind NotReady = Kind_Other"
| "error_kind WrongToken = Kind_Other"
| "error_kind AlreadyUsed = Kind_Other"
| "error_kind IoError = Kind_Other"
| "error_kind ConfigSpaceTooSmall = Kind_Other"
| "error_kind ConfigSpaceMissing = Kind_Other"

end
