(* ===== verification/Console_Props.thy ===== *)
theory Console_Props
  imports Console
begin

text \<open>Properties of the console driver: the invariant of its receive buffer and the stream that \<^verbatim>\<open>recv\<close> returns.\<close>

definition con_pending :: "'t console \<Rightarrow> bytes" where
  "con_pending c = drop (cursor c) (take (pending_len c) (b_data (queue_buf_rx c)))"

text \<open>
  The invariant: the receive buffer is in flight, and then nothing is left to read, or it is not, and then
  its contents from the cursor to the pending length are to be read.
\<close>

definition con_inv :: "'t console \<Rightarrow> bool" where
  "con_inv c \<longleftrightarrow> buf_len (queue_buf_rx c) = PAGE_SIZE \<and> cursor c \<le> pending_len c \<and> pending_len c \<le> PAGE_SIZE \<and>
     (case receive_token c of
        None \<Rightarrow> \<exists>i fl. pool_inv (\<lambda>_. None) (receiveq c) (i # fl)
      | Some tok \<Rightarrow> cursor c = pending_len c \<and> unat tok < SIZE (receiveq c) \<and>
          (\<exists>fl. tok \<notin> set fl \<and> pool_inv ((\<lambda>_. None)(unat tok \<mapsto> queue_buf_rx c)) (receiveq c) fl))"

lemma con_inv_device: "con_inv c \<Longrightarrow> vq_device (receiveq c) q \<Longrightarrow> con_inv (c\<lparr>receiveq := q\<rparr>)"
  by (auto simp: con_inv_def vq_device_def split: option.splits intro: pool_device) (metis pool_device vq_device_def)+

lemma poll_retrieve_ok:
  assumes inv: "con_inv c" and ntf: "\<And>t. \<exists>t'. t_notify T CON_QUEUE_RECEIVEQ t = (Ok (), t')"
  shows "\<exists>c'. poll_retrieve T H c = (Ok (), c') \<and> con_inv c' \<and> queue_buf_rx c' = queue_buf_rx c \<and> cursor c' = cursor c
    \<and> pending_len c' = pending_len c \<and> (cursor c = pending_len c \<longrightarrow> receive_token c' \<noteq> None)"
proof (cases "receive_token c = None \<and> cursor c = pending_len c")
  case True
  with inv obtain i fl where p: "pool_inv (\<lambda>_. None) (receiveq c) (i # fl)" by (auto simp: con_inv_def)
  have l: "0 < buf_len (queue_buf_rx c)" "buf_len (queue_buf_rx c) < 2 ^ 32" using inv by (simp_all add: con_inv_def PAGE_SIZE_def)
  obtain q where q: "VirtQueue_add H [] [queue_buf_rx c] (receiveq c) = (Ok i, q)"
    "pool_inv ((\<lambda>_. None)(unat i \<mapsto> queue_buf_rx c)) q fl" "SIZE q = SIZE (receiveq c)"
    by (rule pool_add [OF p l])
  obtain t' where t': "t_notify T CON_QUEUE_RECEIVEQ (co_transport c) = (Ok (), t')" using ntf by metis
  define c' where "c' = c\<lparr>receiveq := q, receive_token := Some i, co_transport := if should_notify q then t' else co_transport c\<rparr>"
  have "poll_retrieve T H c = (Ok (), c')" using True q(1) t' by (simp add: poll_retrieve_def notify_queue_def c'_def Let_def)
  moreover have "con_inv c'"
    using inv q(2,3) True pool_free(1,2) [OF p] by (auto simp: con_inv_def c'_def)
  ultimately show ?thesis by (simp add: c'_def)
qed (use inv in \<open>auto simp: poll_retrieve_def\<close>)

text \<open>The receive request has been completed: the device has used the buffer in flight.\<close>

definition con_completed :: "'t console \<Rightarrow> bool" where
  "con_completed c \<longleftrightarrow> receive_token c \<noteq> None \<and> receive_token c = peek_used (receiveq c)"

lemma finish_receive_ok:
  assumes inv: "con_inv c"
    and len: "con_completed c \<Longrightarrow> 0 < ue_len (used_slot (receiveq c)) \<and> unat (ue_len (used_slot (receiveq c))) \<le> PAGE_SIZE"
  shows "\<exists>c'. finish_receive H c = (Ok (con_completed c), c') \<and> con_inv c' \<and>
    (if con_completed c
     then con_pending c' = take (unat (ue_len (used_slot (receiveq c)))) (b_data (queue_buf_rx c')) \<and> con_pending c' \<noteq> []
     else c' = c)"
proof (cases "con_completed c")
  case True
  then obtain tok where tok: "receive_token c = Some tok" "peek_used (receiveq c) = Some tok" unfolding con_completed_def by (metis not_None_eq)
  with inv obtain fl where p: "unat tok < SIZE (receiveq c)" "tok \<notin> set fl" "pool_inv ((\<lambda>_. None)(unat tok \<mapsto> queue_buf_rx c)) (receiveq c) fl"
    by (auto simp: con_inv_def)
  obtain b b' q where q: "((\<lambda>_. None)(unat tok \<mapsto> queue_buf_rx c)) (unat tok) = Some b"
    "VirtQueue_pop_used H tok [] [b] (receiveq c) = (Ok (ue_len (used_slot (receiveq c)), [b']), q)"
    "buf_len b' = buf_len b" "pool_inv ((\<lambda>_. None)(unat tok \<mapsto> queue_buf_rx c, unat tok := None)) q (tok # fl)"
    by (rule pool_pop [OF p(3) tok(2) p(1,2)])
  let ?n = "unat (ue_len (used_slot (receiveq c)))"
  have b: "b = queue_buf_rx c" "buf_len b' = PAGE_SIZE" using q(1,3) inv by (auto simp: con_inv_def)
  have n: "ue_len (used_slot (receiveq c)) \<noteq> 0" "?n \<le> PAGE_SIZE" "?n \<noteq> 0" using len [OF True] by (auto simp: unat_eq_0)
  define c' where "c' = c\<lparr>receiveq := q, queue_buf_rx := b', cursor := 0, pending_len := ?n, receive_token := None\<rparr>"
  have "finish_receive H c = (Ok True, c')"
    using tok q(2) b(1) n(1) by (simp add: finish_receive_def c'_def Let_def)
  moreover have "((\<lambda>_. None)(unat tok \<mapsto> queue_buf_rx c, unat tok := None)) = (\<lambda>_. None)" by (simp add: fun_eq_iff)
  with q(4) have "pool_inv (\<lambda>_. None) q (tok # fl)" by simp
  then have "con_inv c'" using b(2) n(2) by (auto simp: con_inv_def c'_def)
  moreover have "con_pending c' = take ?n (b_data b')" "take ?n (b_data b') \<noteq> []"
    using n b(2) by (auto simp: con_pending_def c'_def buf_len_def PAGE_SIZE_def)
  ultimately show ?thesis using True by (simp add: c'_def)
next
  case False
  then have "finish_receive H c = (Ok False, c)" by (auto simp: finish_receive_def con_completed_def split: option.split)
  with False inv show ?thesis by simp
qed

lemma pending_Cons:
  assumes "con_inv c" "cursor c \<noteq> pending_len c"
  shows "cursor c < buf_len (queue_buf_rx c)"
    "con_pending c = b_data (queue_buf_rx c) ! cursor c # drop (Suc (cursor c)) (take (pending_len c) (b_data (queue_buf_rx c)))"
proof -
  have l: "cursor c < length (take (pending_len c) (b_data (queue_buf_rx c)))" "length (b_data (queue_buf_rx c)) = PAGE_SIZE"
    using assms by (auto simp: con_inv_def buf_len_def)
  then show "cursor c < buf_len (queue_buf_rx c)" by (simp add: buf_len_def)
  show "con_pending c = b_data (queue_buf_rx c) ! cursor c # drop (Suc (cursor c)) (take (pending_len c) (b_data (queue_buf_rx c)))"
    using Cons_nth_drop_Suc [OF l(1)] l(1) by (simp add: con_pending_def)
qed

lemma pending_Nil: "con_inv c \<Longrightarrow> con_pending c = [] \<longleftrightarrow> cursor c = pending_len c"
  by (auto simp: con_inv_def con_pending_def buf_len_def)

lemma pending_completed: "con_inv c \<Longrightarrow> con_completed c \<Longrightarrow> con_pending c = []"
  by (simp add: pending_Nil) (auto simp: con_inv_def con_completed_def split: option.splits)

text \<open>
  C36. The stream of received bytes. \<^verbatim>\<open>recv\<close> does not wait and, if the lengths the device reports are those of a
  non-empty part of the buffer, does not panic. The bytes available are those left over from the last buffer, or
  else, if the device has completed the receive request, the bytes it wrote. \<^verbatim>\<open>recv\<close> returns the first of them, or
  \<^verbatim>\<open>None\<close> if there is none; with \<^verbatim>\<open>pop\<close> it is removed, otherwise it remains. When the last byte is removed, a new
  receive request is made, so the buffer is never in flight while bytes in it are still to be read.
\<close>

theorem console_recv_stream:
  assumes inv: "con_inv c0" "vq_device (receiveq c0) q" and c: "c = c0\<lparr>receiveq := q\<rparr>"
    and ntf: "\<And>t. \<exists>t'. t_notify T CON_QUEUE_RECEIVEQ t = (Ok (), t')"
    and len: "con_completed c \<Longrightarrow> 0 < ue_len (used_slot q) \<and> unat (ue_len (used_slot q)) \<le> PAGE_SIZE"
  shows "\<exists>avail c'. con_recv T H pop c = (Ok (case avail of [] \<Rightarrow> None | ch # _ \<Rightarrow> Some ch), c') \<and> con_inv c'
    \<and> avail = (if con_completed c then take (unat (ue_len (used_slot q))) (b_data (queue_buf_rx c')) else con_pending c)
    \<and> (con_completed c \<longrightarrow> con_pending c = [] \<and> avail \<noteq> [])
    \<and> con_pending c' = (if pop then tl avail else avail)
    \<and> (pop \<and> avail \<noteq> [] \<and> tl avail = [] \<longrightarrow> receive_token c' \<noteq> None)"
proof -
  have ci: "con_inv c" unfolding c by (rule con_inv_device [OF inv])
  have q: "receiveq c = q" by (simp add: c)
  obtain c1 where f: "finish_receive H c = (Ok (con_completed c), c1)" "con_inv c1"
    "if con_completed c then con_pending c1 = take (unat (ue_len (used_slot q))) (b_data (queue_buf_rx c1)) \<and> con_pending c1 \<noteq> [] else c1 = c"
    using finish_receive_ok [OF ci, of H] len unfolding q by blast
  define avail where "avail = con_pending c1"
  have av: "avail = (if con_completed c then take (unat (ue_len (used_slot q))) (b_data (queue_buf_rx c1)) else con_pending c)"
    "con_completed c \<longrightarrow> con_pending c = [] \<and> avail \<noteq> []"
    using f(3) pending_completed [OF ci] by (auto simp: avail_def split: if_splits)
  show ?thesis
  proof (cases "cursor c1 = pending_len c1")
    case True
    then have "avail = []" by (simp add: avail_def pending_Nil [OF f(2)])
    moreover have "con_recv T H pop c = (Ok None, c1)" using f(1) True by (simp add: con_recv_def)
    ultimately show ?thesis using av f(2) by (intro exI [of _ avail] exI [of _ c1]) (simp add: avail_def)
  next
    case False
    note p = pending_Cons [OF f(2) False]
    define c2 where "c2 = c1\<lparr>cursor := cursor c1 + 1\<rparr>"
    have "con_inv c2" using f(2) False by (auto simp: con_inv_def c2_def split: option.splits)
    from poll_retrieve_ok [OF this ntf, of H] obtain c3 where c3: "poll_retrieve T H c2 = (Ok (), c3)" "con_inv c3"
      "queue_buf_rx c3 = queue_buf_rx c2" "cursor c3 = cursor c2" "pending_len c3 = pending_len c2"
      "cursor c2 = pending_len c2 \<Longrightarrow> receive_token c3 \<noteq> None" by blast
    define c' where "c' = (if pop then c3 else c1)"
    have p3: "con_pending c3 = tl avail" using c3(3-5) p(2) by (simp add: con_pending_def c2_def avail_def drop_Suc tl_drop)
    have ne: "avail \<noteq> []" using p(2) by (simp add: avail_def)
    have "con_recv T H pop c = (Ok (Some (hd avail)), c')"
      using f(1) False p c3(1) by (simp add: con_recv_def Let_def c'_def avail_def c2_def)
    then have 1: "con_recv T H pop c = (Ok (case avail of [] \<Rightarrow> None | ch # _ \<Rightarrow> Some ch), c')" using ne by (cases avail) simp_all
    have 2: "avail = (if con_completed c then take (unat (ue_len (used_slot q))) (b_data (queue_buf_rx c')) else con_pending c)"
      using av(1) c3(3) by (simp add: c'_def c2_def)
    have 3: "con_pending c' = (if pop then tl avail else avail)" using p3 by (simp add: c'_def avail_def)
    have 4: "pop \<and> avail \<noteq> [] \<and> tl avail = [] \<longrightarrow> receive_token c' \<noteq> None"
      using p3 pending_Nil [OF c3(2)] c3(4-6) by (simp add: c'_def)
    have 5: "con_inv c'" using f(2) c3(2) by (simp add: c'_def)
    show ?thesis by (intro exI [of _ avail] exI [of _ c'] conjI) (rule 1 5 2 av(2) 3 4)+
  qed
qed

text \<open>The constructor establishes the invariant, and leaves a receive request in flight.\<close>

lemma VirtIOConsole_new_inv:
  assumes new: "VirtIOConsole_new dbg T H mr mt s = (Ok c, s')" and m: "mem_ok CON_QUEUE_SIZE mr"
    and ntf: "\<And>t. \<exists>t'. t_notify T CON_QUEUE_RECEIVEQ t = (Ok (), t')"
  shows "con_inv c" "receive_token c \<noteq> None"
proof -
  have sz: "SIZE_OK CON_QUEUE_SIZE" using driver_SIZE_OK by (simp add: CON_QUEUE_SIZE_def)
  from new obtain rq ind ev s1 s2 t feats tq rx where q: "VirtQueue_new T H mr CON_QUEUE_SIZE CON_QUEUE_RECEIVEQ ind ev s1 = (Ok rq, s2)"
    and rx: "buf_len rx = PAGE_SIZE"
    and c: "poll_retrieve T H \<lparr>co_transport = t, co_features = feats, receiveq = rq, transmitq = tq, queue_buf_rx = rx,
          cursor = 0, pending_len = 0, receive_token = None\<rparr> = (Ok (), c)"
    by (cases s) (force simp: VirtIOConsole_new_def lift_then_Ok_iff and_then_Ok_iff Let_def buf_len_def)
  have "fresh_free CON_QUEUE_SIZE = [0, 1]" by (simp add: fresh_free_def CON_QUEUE_SIZE_def upt_rec)
  with pool_new(1) [OF q sz m] have "pool_inv (\<lambda>_. None) rq [0, 1]" by simp
  then have "con_inv \<lparr>co_transport = t, co_features = feats, receiveq = rq, transmitq = tq, queue_buf_rx = rx,
          cursor = 0, pending_len = 0, receive_token = None\<rparr>" using rx by (auto simp: con_inv_def)
  from poll_retrieve_ok [OF this ntf, of H] c show "con_inv c" "receive_token c \<noteq> None" by auto
qed

lemma demo_console:
  obtains c s' where "VirtIOConsole_new True demo_bus demo_hal (demo_queue_mem CON_QUEUE_SIZE) (demo_queue_mem CON_QUEUE_SIZE) (0, []) = (Ok c, s')"
    "con_inv c" "receive_token c \<noteq> None"
proof -
  have n: "CON_QUEUE_SIZE \<in> {2, 8, 16, 32}" by (simp add: CON_QUEUE_SIZE_def)
  let ?D = "DmaAlloc 2 Both 0x1000 0x8000" and ?m = "demo_queue_mem CON_QUEUE_SIZE"
  obtain rq where rq: "VirtQueue_new demo_bus demo_hal ?m CON_QUEUE_SIZE CON_QUEUE_RECEIVEQ False False (0, []) = (Ok rq, (0, [?D]))"
    using demo_queue_new [OF n, of CON_QUEUE_RECEIVEQ False False 0 "[]"] by auto
  obtain tq where tq: "VirtQueue_new demo_bus demo_hal ?m CON_QUEUE_SIZE CON_QUEUE_TRANSMITQ False False (0, [?D]) = (Ok tq, (0, [?D, ?D]))"
    using demo_queue_new [OF n, of CON_QUEUE_TRANSMITQ False False 0 "[?D]"] by auto
  note p = pool_new [OF rq driver_SIZE_OK [OF n] demo_queue_mem_ok]
  define rx where "rx = \<lparr>b_ptr = hal_box_ptr demo_hal [?D, ?D] PAGE_SIZE, b_data = replicate PAGE_SIZE 0\<rparr>"
  define c0 :: "nat console" where "c0 = \<lparr>co_transport = 0, co_features = 0, receiveq = rq, transmitq = tq, queue_buf_rx = rx,
     cursor = 0, pending_len = 0, receive_token = None\<rparr>"
  have "fresh_free CON_QUEUE_SIZE = [0, 1]" by (simp add: fresh_free_def CON_QUEUE_SIZE_def upt_rec)
  with p(1) have "con_inv c0" by (auto simp: con_inv_def c0_def rx_def buf_len_def)
  from poll_retrieve_ok [OF this demo_notify, of demo_hal] obtain c where "poll_retrieve demo_bus demo_hal c0 = (Ok (), c)" by blast
  then have new: "VirtIOConsole_new True demo_bus demo_hal ?m ?m (0, []) = (Ok c, (co_transport c, [?D, ?D]))"
    by (simp add: VirtIOConsole_new_def demo_init rq tq Let_def c0_def rx_def)
  from that [OF new VirtIOConsole_new_inv [OF new demo_queue_mem_ok demo_notify]] show thesis .
qed

theorem console_recv_stream_witness:
  "\<exists>c tok ch c'. con_inv c \<and> receive_token c = Some tok \<and> con_inv c' \<and>
     con_recv demo_bus demo_hal True (c\<lparr>receiveq := complete tok 2 (receiveq c)\<rparr>) = (Ok (Some ch), c') \<and> length (con_pending c') = 1"
proof -
  obtain c s' where new: "VirtIOConsole_new True demo_bus demo_hal (demo_queue_mem CON_QUEUE_SIZE) (demo_queue_mem CON_QUEUE_SIZE) (0, []) = (Ok c, s')"
    and inv: "con_inv c" and "receive_token c \<noteq> None" by (rule demo_console)
  then obtain tok where tok: "receive_token c = Some tok" by blast
  have "SIZE_OK (SIZE (receiveq c))" using inv tok by (auto simp: con_inv_def dest: pool_SIZE_OK)
  note p = complete_props [OF this, of tok 2]
  let ?c = "c\<lparr>receiveq := complete tok 2 (receiveq c)\<rparr>"
  have dn: "con_completed ?c" using p(2) tok by (simp add: con_completed_def)
  have len: "0 < ue_len (used_slot (complete tok 2 (receiveq c))) \<and> unat (ue_len (used_slot (complete tok 2 (receiveq c)))) \<le> PAGE_SIZE"
    using p(3) by (simp add: PAGE_SIZE_def)
  from console_recv_stream [OF inv p(1) refl demo_notify len, of demo_hal True] dn p(3) obtain avail c' where
    r: "con_recv demo_bus demo_hal True ?c = (Ok (case avail of [] \<Rightarrow> None | ch # _ \<Rightarrow> Some ch), c')" "con_inv c'"
    "avail = take 2 (b_data (queue_buf_rx c'))" "con_pending c' = tl avail" by auto
  have "length avail = 2" using r(2,3) by (simp add: con_inv_def buf_len_def PAGE_SIZE_def)
  then obtain ch x where "avail = [ch, x]" by (metis (no_types) One_nat_def Suc_1 length_0_conv length_Suc_conv)
  then show ?thesis using inv tok r by (intro exI [of _ c] exI [of _ tok] exI [of _ ch] exI [of _ c']) simp
qed

section \<open>Reading through \<open>embedded-io\<close>\<close>

text \<open>
  \<^verbatim>\<open>Read::read\<close> leaves the cursor where it is: after a read that returned bytes, the same read returns
  the same bytes again, without any new input.
\<close>

lemma eio_read_repeats:
  assumes "eio_read E buf c = (Ok n, (buf', c'))" "buf \<noteq> []"
  shows "eio_read E buf c' = (Ok n, (buf', c'))" "0 < n \<or> pending_len c' < cursor c'"
proof -
  from assms obtain u where w: "wait_for_receive E c = (Ok u, c')" and e: "\<not> pending_len c' < cursor c'"
    "n = min (length buf) (pending_len c' - cursor c')" "\<not> buf_len (queue_buf_rx c') < cursor c' + n"
    "buf' = take n (drop (cursor c') (b_data (queue_buf_rx c'))) @ drop n buf"
    by (auto simp: eio_read_def lift_then_Ok_iff Let_def split: if_splits)
  have stop: "cursor c2 \<noteq> pending_len c2" if "wait_receive_loop H ds c1 = (Ok u', c2)" for H ds u' and c1 c2 :: "'a console"
    using that by (induction ds arbitrary: c1) (auto simp: and_then_Ok_iff split: if_splits)
  have ne: "cursor c' \<noteq> pending_len c'" using w stop by (auto simp: wait_for_receive_def and_then_Ok_iff)
  then have "wait_for_receive E c' = (Ok (), c')"
    by (cases "de_wait E (receiveq c')") (simp_all add: wait_for_receive_def poll_retrieve_def)
  then show "eio_read E buf c' = (Ok n, (buf', c'))" using e assms(2) by (simp add: eio_read_def Let_def)
  show "0 < n \<or> pending_len c' < cursor c'" using e ne assms(2) by (auto simp: min_def)
qed

end
