(* ===== verification/Net.thy ===== *)
theory Net
  imports Receive_Pool
begin


text \<open>
  The drivers for network devices (src/src/device/net): the raw driver on the caller's buffers (dev_raw.rs), the
  driver that owns its receive buffers (dev.rs), and the packet buffers (net_buf.rs). The const generic
  \<^verbatim>\<open>QUEUE_SIZE\<close> is a parameter of the constructors.
\<close>

section \<open>Constants and headers\<close>

definition NET_MIN_BUFFER_LEN :: nat where "NET_MIN_BUFFER_LEN = 1526"

abbreviation (input) NET_MAC :: u64 where "NET_MAC \<equiv> push_bit 5 1"
abbreviation (input) NET_MRG_RXBUF :: u64 where "NET_MRG_RXBUF \<equiv> push_bit 15 1"
abbreviation (input) NET_STATUS :: u64 where "NET_STATUS \<equiv> push_bit 16 1"

text \<open>The bits 0 to 3, 5 to 23, 28, 29 and 32.\<close>

definition NET_Feature_all :: u64 where
  "NET_Feature_all =
     push_bit 0 1 OR push_bit 1 1 OR push_bit 2 1 OR push_bit 3 1 OR NET_MAC OR push_bit 6 1 OR push_bit 7 1 OR push_bit 8 1
     OR push_bit 9 1 OR push_bit 10 1 OR push_bit 11 1 OR push_bit 12 1 OR push_bit 13 1 OR push_bit 14 1 OR NET_MRG_RXBUF
     OR NET_STATUS OR push_bit 17 1 OR push_bit 18 1 OR push_bit 19 1 OR push_bit 20 1 OR push_bit 21 1 OR push_bit 22 1
     OR push_bit 23 1 OR RING_INDIRECT_DESC OR RING_EVENT_IDX OR VERSION_1"

abbreviation (input) NET_QUEUE_RECEIVE :: u16 where "NET_QUEUE_RECEIVE \<equiv> 0"
abbreviation (input) NET_QUEUE_TRANSMIT :: u16 where "NET_QUEUE_TRANSMIT \<equiv> 1"

abbreviation (input) NET_SUPPORTED_FEATURES :: u64 where
  "NET_SUPPORTED_FEATURES \<equiv> NET_MAC OR NET_STATUS OR RING_EVENT_IDX OR RING_INDIRECT_DESC OR VERSION_1"

record VirtioNetHdrLegacy =
  nh_flags :: u8
  nh_gso_type :: u8
  nh_hdr_len :: u16
  nh_gso_size :: u16
  nh_csum_start :: u16
  nh_csum_offset :: u16

record VirtioNetHdr = VirtioNetHdrLegacy +
  nh_num_buffers :: u16

abbreviation (input) VirtioNetHdrLegacy_default :: VirtioNetHdrLegacy where
  "VirtioNetHdrLegacy_default \<equiv>      \<lparr>nh_flags = 0, nh_gso_type = 0, nh_hdr_len = 0, nh_gso_size = 0, nh_csum_start = 0, nh_csum_offset = 0\<rparr>"

definition VirtioNetHdr_from_legacy :: "VirtioNetHdrLegacy \<Rightarrow> VirtioNetHdr" where
  "VirtioNetHdr_from_legacy h = VirtioNetHdrLegacy.extend h \<lparr>nh_num_buffers = 0\<rparr>"

abbreviation (input) VirtioNetHdr_default :: VirtioNetHdr where
  "VirtioNetHdr_default \<equiv> VirtioNetHdrLegacy.extend VirtioNetHdrLegacy_default \<lparr>nh_num_buffers = 0\<rparr>"

definition legacy_hdr_as_bytes :: "'a VirtioNetHdrLegacy_scheme \<Rightarrow> bytes" where
  "legacy_hdr_as_bytes h =
     [nh_flags h, nh_gso_type h] @ le_bytes 2 (nh_hdr_len h) @ le_bytes 2 (nh_gso_size h) @ le_bytes 2 (nh_csum_start h)
     @ le_bytes 2 (nh_csum_offset h)"

definition net_hdr_as_bytes :: "VirtioNetHdr \<Rightarrow> bytes" where
  "net_hdr_as_bytes h = legacy_hdr_as_bytes h @ le_bytes 2 (nh_num_buffers h)"

definition legacy_hdr_of_bytes :: "bytes \<Rightarrow> VirtioNetHdrLegacy" where
  "legacy_hdr_of_bytes bs =
     \<lparr>nh_flags = bs ! 0, nh_gso_type = bs ! 1, nh_hdr_len = from_le (take 2 (drop 2 bs)), nh_gso_size = from_le (take 2 (drop 4 bs)),
      nh_csum_start = from_le (take 2 (drop 6 bs)), nh_csum_offset = from_le (take 2 (drop 8 bs))\<rparr>"

definition net_hdr_of_bytes :: "bytes \<Rightarrow> VirtioNetHdr" where
  "net_hdr_of_bytes bs = VirtioNetHdrLegacy.extend (legacy_hdr_of_bytes bs) \<lparr>nh_num_buffers = from_le (take 2 (drop 10 bs))\<rparr>"

text \<open>The size of the header and its default contents, depending on \<^verbatim>\<open>legacy_header\<close>.\<close>

definition net_hdr_size :: "bool \<Rightarrow> nat" where
  "net_hdr_size legacy = (if legacy then 10 else 12)"

definition net_default_header :: "bool \<Rightarrow> bytes" where
  "net_default_header legacy =
     (if legacy then legacy_hdr_as_bytes VirtioNetHdrLegacy_default else net_hdr_as_bytes VirtioNetHdr_default)"

section \<open>The raw driver\<close>

record 't net_raw =
  nr_transport :: 't
  nr_mac :: bytes
  recv_queue :: vq
  send_queue :: vq
  legacy_header :: bool

definition VirtIONetRaw_new ::
  "bool \<Rightarrow> nat \<Rightarrow> 't transport \<Rightarrow> hal \<Rightarrow> nat \<Rightarrow> shared \<Rightarrow> shared \<Rightarrow> 't \<times> hal_event list
     \<Rightarrow> 't net_raw result \<times> ('t \<times> hal_event list)"
where
  "VirtIONetRaw_new dbg fuel T H n ms mr s =
     (case s of (t, log) \<Rightarrow>
     lift_then (begin_init dbg T NET_Feature_all NET_SUPPORTED_FEATURES t) (\<lambda>t. (t, log)) (\<lambda>negotiated t.
     lift_then (read_consistent fuel T (t_read_config_space T 0 6 1) t) (\<lambda>t. (t, log)) (\<lambda>mac t.
     lift_then (read_config T 6 2 t) (\<lambda>t. (t, log)) (\<lambda>status :: u16. \<lambda>t.
     let ind = contains negotiated RING_INDIRECT_DESC; ev = contains negotiated RING_EVENT_IDX in
     and_then (VirtQueue_new T H ms n NET_QUEUE_TRANSMIT ind ev (t, log)) (\<lambda>sq s.
     and_then (VirtQueue_new T H mr n NET_QUEUE_RECEIVE ind ev s) (\<lambda>rq (t, log).
     lift_then (finish_init T t) (\<lambda>t. (t, log)) (\<lambda>_ t.
       (Ok \<lparr>nr_transport = t, nr_mac = mac, recv_queue = rq, send_queue = sq,
            legacy_header = (\<not> contains negotiated VERSION_1 \<and> \<not> contains negotiated NET_MRG_RXBUF)\<rparr>, (t, log)))))))))"

definition net_ack_interrupt :: "'t transport \<Rightarrow> 't net_raw \<Rightarrow> u32 result \<times> 't net_raw" where
  "net_ack_interrupt T n = (case t_ack_interrupt T (nr_transport n) of (r, t) \<Rightarrow> (r, n\<lparr>nr_transport := t\<rparr>))"

definition net_disable_interrupts :: "'t net_raw \<Rightarrow> 't net_raw" where
  "net_disable_interrupts n =
     n\<lparr>send_queue := set_dev_notify False (send_queue n), recv_queue := set_dev_notify False (recv_queue n)\<rparr>"

definition net_enable_interrupts :: "'t net_raw \<Rightarrow> 't net_raw" where
  "net_enable_interrupts n =
     n\<lparr>send_queue := set_dev_notify True (send_queue n), recv_queue := set_dev_notify True (recv_queue n)\<rparr>"

definition net_can_send :: "'t net_raw \<Rightarrow> bool" where
  "net_can_send n \<longleftrightarrow> available_desc (send_queue n) \<ge> 2"

definition check_rx_buf_len :: "nat \<Rightarrow> unit result" where
  "check_rx_buf_len l = (if l < NET_MIN_BUFFER_LEN then Err InvalidParam else Ok ())"

definition check_tx_buf_len :: "'t net_raw \<Rightarrow> nat \<Rightarrow> unit result" where
  "check_tx_buf_len n l = (if l < net_hdr_size (legacy_header n) then Err InvalidParam else Ok ())"

text \<open>Returns the size of the header, and the buffer with the header filled in.\<close>

definition fill_buffer_header :: "'t net_raw \<Rightarrow> bytes \<Rightarrow> nat result \<times> bytes" where
  "fill_buffer_header n buffer =
     (let sz = net_hdr_size (legacy_header n)
      in if length buffer < sz then (Err InvalidParam, buffer)
         else (Ok sz, net_default_header (legacy_header n) @ drop sz buffer))"

definition transmit_begin :: "'t transport \<Rightarrow> hal \<Rightarrow> buf \<Rightarrow> 't net_raw \<Rightarrow> u16 result \<times> 't net_raw" where
  "transmit_begin T H tx_buf n =
     and_then (check_tx_buf_len n (buf_len tx_buf), n) (\<lambda>_ n.
       case add_and_notify T H NET_QUEUE_TRANSMIT [tx_buf] [] (send_queue n, nr_transport n) of
         (r, (q, t)) \<Rightarrow> (r, n\<lparr>send_queue := q, nr_transport := t\<rparr>))"

definition poll_transmit :: "'t net_raw \<Rightarrow> u16 option" where
  "poll_transmit n = peek_used (send_queue n)"

definition transmit_complete :: "hal \<Rightarrow> u16 \<Rightarrow> buf \<Rightarrow> 't net_raw \<Rightarrow> nat result \<times> 't net_raw" where
  "transmit_complete H token tx_buf n =
     lift_then (VirtQueue_pop_used H token [tx_buf] [] (send_queue n)) (\<lambda>q. n\<lparr>send_queue := q\<rparr>)
       (\<lambda>(len, _) q. (Ok (unat len), n\<lparr>send_queue := q\<rparr>))"

definition receive_begin :: "'t transport \<Rightarrow> hal \<Rightarrow> buf \<Rightarrow> 't net_raw \<Rightarrow> u16 result \<times> 't net_raw" where
  "receive_begin T H rx_buf n =
     and_then (check_rx_buf_len (buf_len rx_buf), n) (\<lambda>_ n.
       case add_and_notify T H NET_QUEUE_RECEIVE [] [rx_buf] (recv_queue n, nr_transport n) of
         (r, (q, t)) \<Rightarrow> (r, n\<lparr>recv_queue := q, nr_transport := t\<rparr>))"

definition poll_receive :: "'t net_raw \<Rightarrow> u16 option" where
  "poll_receive n = peek_used (recv_queue n)"

text \<open>Returns the lengths of the header and of the packet, and the buffer as the device left it.\<close>

definition receive_complete :: "hal \<Rightarrow> u16 \<Rightarrow> buf \<Rightarrow> 't net_raw \<Rightarrow> (nat \<times> nat) result \<times> (buf \<times> 't net_raw)" where
  "receive_complete H token rx_buf n =
     lift_then (VirtQueue_pop_used H token [] [rx_buf] (recv_queue n)) (\<lambda>q. (rx_buf, n\<lparr>recv_queue := q\<rparr>)) (\<lambda>(len, bs) q.
       let hdr_size = net_hdr_size (legacy_header n)
       in (if unat len < hdr_size then Err IoError else Ok (hdr_size, unat len - hdr_size), (hd bs, n\<lparr>recv_queue := q\<rparr>)))"

definition net_send :: "(vq \<times> 't) req_fun \<Rightarrow> bytes \<Rightarrow> 't net_raw \<Rightarrow> unit result \<times> 't net_raw" where
  "net_send R tx_buf n =
     (let header = net_default_header (legacy_header n)
      in lift_then (R (if tx_buf = [] then [header] else [header, tx_buf]) [] (send_queue n, nr_transport n))
           (\<lambda>(q, t). n\<lparr>send_queue := q, nr_transport := t\<rparr>) (\<lambda>_ (q, t). (Ok (), n\<lparr>send_queue := q, nr_transport := t\<rparr>)))"

text \<open>The loop that waits for \<^verbatim>\<open>poll_receive\<close>; the device acts before every test.\<close>

fun wait_poll_receive :: "(shared \<Rightarrow> shared) list \<Rightarrow> 't net_raw \<Rightarrow> unit result \<times> 't net_raw" where
  "wait_poll_receive [] n = (if poll_receive n = None then (Diverge, n) else (Ok (), n))"
| "wait_poll_receive (d # ds) n =
     (if poll_receive n = None then wait_poll_receive ds (n\<lparr>recv_queue := (recv_queue n)\<lparr>mem := d (mem (recv_queue n))\<rparr>\<rparr>)
      else (Ok (), n))"

definition receive_wait :: "'t drv_env \<Rightarrow> buf \<Rightarrow> 't net_raw \<Rightarrow> (nat \<times> nat) result \<times> (buf \<times> 't net_raw)" where
  "receive_wait E rx_buf n =
     lift_then (receive_begin (de_T E) (de_H E) rx_buf n) (\<lambda>n. (rx_buf, n)) (\<lambda>token n.
     lift_then (wait_poll_receive (de_wait E (recv_queue n)) n) (\<lambda>n. (rx_buf, n)) (\<lambda>_ n.
       receive_complete (de_H E) token rx_buf n))"

definition VirtIONetRaw_drop :: "'t transport \<Rightarrow> 't net_raw \<Rightarrow> unit result \<times> 't" where
  "VirtIONetRaw_drop T n =
     and_then (t_queue_unset T NET_QUEUE_RECEIVE (nr_transport n)) (\<lambda>_ t. t_queue_unset T NET_QUEUE_TRANSMIT t)"

section \<open>Packet buffers\<close>

type_synonym TxBuffer = bytes

record RxBuffer =
  rx_buf :: buf
  rx_packet_len :: nat
  rx_idx :: u16
  rx_legacy :: bool

text \<open>\<^verbatim>\<open>buf\<close> is a vector of machine words, so its length in bytes is rounded down to a multiple of eight.\<close>

definition RxBuffer_new :: "u64 \<Rightarrow> nat \<Rightarrow> nat \<Rightarrow> bool \<Rightarrow> RxBuffer result" where
  "RxBuffer_new ptr idx blen legacy =
     (if \<not> idx < 2 ^ 16 then Panic
      else Ok \<lparr>rx_buf = \<lparr>b_ptr = ptr, b_data = replicate (8 * (blen div 8)) 0\<rparr>, rx_packet_len = 0, rx_idx = of_nat idx,
               rx_legacy = legacy\<rparr>)"

definition RxBuffer_as_bytes :: "RxBuffer \<Rightarrow> bytes" where
  "RxBuffer_as_bytes b = b_data (rx_buf b)"

definition RxBuffer_header :: "RxBuffer \<Rightarrow> VirtioNetHdr result" where
  "RxBuffer_header b =
     (if length (RxBuffer_as_bytes b) < net_hdr_size (rx_legacy b) then Panic
      else if rx_legacy b then Ok (VirtioNetHdr_from_legacy (legacy_hdr_of_bytes (RxBuffer_as_bytes b)))
      else Ok (net_hdr_of_bytes (RxBuffer_as_bytes b)))"

definition RxBuffer_packet :: "RxBuffer \<Rightarrow> bytes result" where
  "RxBuffer_packet b =
     (let hdr_size = net_hdr_size (rx_legacy b)
      in if length (RxBuffer_as_bytes b) < hdr_size + rx_packet_len b then Panic
         else Ok (take (rx_packet_len b) (drop hdr_size (RxBuffer_as_bytes b))))"

section \<open>The driver with receive buffers\<close>

record 't net =
  net_inner :: "'t net_raw"
  rx_buffers :: "RxBuffer option list"

fun VirtIONet_new_loop ::
  "'t transport \<Rightarrow> hal \<Rightarrow> nat \<Rightarrow> nat \<Rightarrow> nat \<Rightarrow> RxBuffer option list \<times> 't net_raw \<Rightarrow> unit result \<times> (RxBuffer option list \<times> 't net_raw)"
where
  "VirtIONet_new_loop T H blen 0 i s = (Ok (), s)"
| "VirtIONet_new_loop T H blen (Suc k) i (bufs, n) =
     and_then (RxBuffer_new (hal_box_ptr H (hal_log (recv_queue n)) (8 * (blen div 8))) i blen (legacy_header n), (bufs, n))
       (\<lambda>rb (bufs, n).
     lift_then (receive_begin T H (rx_buf rb) n) (\<lambda>n. (bufs, n)) (\<lambda>token n.
       if token \<noteq> of_nat i then (Panic, (bufs, n))
       else VirtIONet_new_loop T H blen k (i + 1) (bufs[i := Some rb], n)))"

definition VirtIONet_new ::
  "bool \<Rightarrow> nat \<Rightarrow> 't transport \<Rightarrow> hal \<Rightarrow> nat \<Rightarrow> shared \<Rightarrow> shared \<Rightarrow> nat \<Rightarrow> 't \<times> hal_event list
     \<Rightarrow> 't net result \<times> ('t \<times> hal_event list)"
where
  "VirtIONet_new dbg fuel T H n ms mr blen s =
     and_then (VirtIONetRaw_new dbg fuel T H n ms mr s) (\<lambda>inner (t, log).
     lift_then (VirtIONet_new_loop T H blen n 0 (replicate n None, inner)) (\<lambda>(_, inner). (nr_transport inner, log))
       (\<lambda>_ (bufs, inner). (Ok \<lparr>net_inner = inner, rx_buffers = bufs\<rparr>, (nr_transport inner, log))))"

definition net_can_recv :: "'t net \<Rightarrow> bool" where
  "net_can_recv n \<longleftrightarrow> poll_receive (net_inner n) \<noteq> None"

text \<open>\<^verbatim>\<open>take\<close> empties the slot before the token is compared and the request is completed.\<close>

definition net_receive :: "hal \<Rightarrow> 't net \<Rightarrow> RxBuffer result \<times> 't net" where
  "net_receive H n =
     (case poll_receive (net_inner n) of
        None \<Rightarrow> (Err NotReady, n)
      | Some token \<Rightarrow>
          if \<not> unat token < length (rx_buffers n) then (Panic, n)
          else case rx_buffers n ! unat token of
            None \<Rightarrow> (Err WrongToken, n)
          | Some rb \<Rightarrow>
              let n = n\<lparr>rx_buffers := (rx_buffers n)[unat token := None]\<rparr>
              in if token \<noteq> rx_idx rb then (Err WrongToken, n)
                 else lift_then (receive_complete H token (rx_buf rb) (net_inner n)) (\<lambda>(_, inner). n\<lparr>net_inner := inner\<rparr>)
                        (\<lambda>(_, pkt_len) (b, inner). (Ok (rb\<lparr>rx_buf := b, rx_packet_len := pkt_len\<rparr>), n\<lparr>net_inner := inner\<rparr>)))"

definition recycle_rx_buffer :: "'t transport \<Rightarrow> hal \<Rightarrow> RxBuffer \<Rightarrow> 't net \<Rightarrow> unit result \<times> 't net" where
  "recycle_rx_buffer T H rb n =
     lift_then (receive_begin T H (rx_buf rb) (net_inner n)) (\<lambda>inner. n\<lparr>net_inner := inner\<rparr>) (\<lambda>new_token inner.
       let n = n\<lparr>net_inner := inner\<rparr>
       in if \<not> unat new_token < length (rx_buffers n) then (Panic, n)
          else if rx_buffers n ! unat new_token \<noteq> None then (Err WrongToken, n)
          else (Ok (), n\<lparr>rx_buffers := (rx_buffers n)[unat new_token := Some (rb\<lparr>rx_idx := new_token\<rparr>)]\<rparr>))"

definition new_tx_buffer :: "nat \<Rightarrow> TxBuffer" where
  "new_tx_buffer blen = replicate blen 0"

definition net_send_buffer :: "(vq \<times> 't) req_fun \<Rightarrow> TxBuffer \<Rightarrow> 't net \<Rightarrow> unit result \<times> 't net" where
  "net_send_buffer R tx_buf n = (case net_send R tx_buf (net_inner n) of (r, inner) \<Rightarrow> (r, n\<lparr>net_inner := inner\<rparr>))"

end
