(* ===== verification/Net_Props.thy ===== *)
theory Net_Props
  imports Net
begin

text \<open>Properties of the network driver: which receive buffer is in flight under which token.\<close>

definition rx_table :: "RxBuffer option list \<Rightarrow> nat \<Rightarrow> buf option" where
  "rx_table bufs i = (if i < length bufs then map_option rx_buf (bufs ! i) else None)"

lemma rx_table_update: "i < length bufs \<Longrightarrow> (rx_table bufs)(i := map_option rx_buf x) = rx_table (bufs[i := x])"
  by (auto simp: rx_table_def fun_eq_iff)

text \<open>
  The invariant: there is one slot for every descriptor of the receive queue; a slot holds the buffer that is in
  flight under its index, and the empty slots are those of the free descriptors.
\<close>

definition rx_size_ok :: "buf \<Rightarrow> bool" where
  "rx_size_ok b \<longleftrightarrow> NET_MIN_BUFFER_LEN \<le> buf_len b \<and> buf_len b < 2 ^ 32"

definition slots_ok :: "RxBuffer option list \<Rightarrow> vq \<Rightarrow> u16 list \<Rightarrow> bool" where
  "slots_ok bufs q fl \<longleftrightarrow> length bufs = SIZE q \<and> pool_inv (rx_table bufs) q fl \<and>
     (\<forall>tok. unat tok < SIZE q \<longrightarrow> (bufs ! unat tok = None \<longleftrightarrow> tok \<in> set fl)) \<and>
     (\<forall>tok rb. unat tok < SIZE q \<and> bufs ! unat tok = Some rb \<longrightarrow> rx_idx rb = tok \<and> rx_size_ok (rx_buf rb))"

definition net_inv :: "'t net \<Rightarrow> bool" where
  "net_inv n \<longleftrightarrow> (\<exists>fl. slots_ok (rx_buffers n) (recv_queue (net_inner n)) fl)"

lemma unat_neq: "unat (a :: 'a::len word) = unat b \<longleftrightarrow> a = b"
  by (simp add: word_unat_eq_iff)

lemma slots_fill:
  assumes s: "slots_ok bufs q (tok # fl)" and q': "pool_inv ((rx_table bufs)(unat tok \<mapsto> rx_buf rb)) q' fl" "SIZE q' = SIZE q"
    and sz: "rx_size_ok (rx_buf rb)"
  shows "slots_ok (bufs[unat tok := Some (rb\<lparr>rx_idx := tok\<rparr>)]) q' fl"
proof -
  from s have p: "pool_inv (rx_table bufs) q (tok # fl)" and l: "length bufs = SIZE q" by (simp_all add: slots_ok_def)
  from pool_free(1,2) [OF p] have t: "unat tok < length bufs" "tok \<notin> set fl" using l by auto
  have "pool_inv (rx_table (bufs[unat tok := Some (rb\<lparr>rx_idx := tok\<rparr>)])) q' fl"
    using q'(1) rx_table_update [OF t(1), of "Some (rb\<lparr>rx_idx := tok\<rparr>)"] by simp
  then show ?thesis using s t q'(2) sz by (auto simp: slots_ok_def nth_list_update unat_neq split: if_splits)
qed

lemma slots_empty:
  assumes s: "slots_ok bufs q fl" and tok: "unat tok < SIZE q"
    and q': "pool_inv ((rx_table bufs)(unat tok := None)) q' (tok # fl)" "SIZE q' = SIZE q"
  shows "slots_ok (bufs[unat tok := None]) q' (tok # fl)"
proof -
  have l: "unat tok < length bufs" using s tok by (simp add: slots_ok_def)
  have "pool_inv (rx_table (bufs[unat tok := None])) q' (tok # fl)" using q'(1) rx_table_update [OF l, of None] by simp
  then show ?thesis using s l q'(2) by (auto simp: slots_ok_def nth_list_update unat_neq split: if_splits)
qed

lemma slots_full:
  assumes "slots_ok bufs q []"
  shows "None \<notin> set bufs"
proof
  assume "None \<in> set bufs"
  then obtain i where i: "i < length bufs" "bufs ! i = None" by (metis in_set_conv_nth)
  have sz: "length bufs = SIZE q" "SIZE_OK (SIZE q)" using assms by (auto simp: slots_ok_def dest: pool_SIZE_OK)
  then have "unat (of_nat i :: u16) = i" using i(1) by (simp add: SIZE_OK_def unat_of_nat take_bit_nat_eq_self)
  then show False using assms i sz unfolding slots_ok_def by (metis empty_iff list.set(1))
qed

lemma receive_begin_ok:
  assumes p: "pool_inv B (recv_queue n) (i # fl)" and b: "rx_size_ok b"
    and ntf: "\<And>t. \<exists>t'. t_notify T NET_QUEUE_RECEIVE t = (Ok (), t')"
  shows "\<exists>n'. receive_begin T H b n = (Ok i, n') \<and> pool_inv (B(unat i \<mapsto> b)) (recv_queue n') fl
    \<and> SIZE (recv_queue n') = SIZE (recv_queue n) \<and> legacy_header n' = legacy_header n"
proof -
  have b0: "0 < buf_len b" "buf_len b < 2 ^ 32" using b by (simp_all add: NET_MIN_BUFFER_LEN_def rx_size_ok_def)
  obtain q' where q': "VirtQueue_add H [] [b] (recv_queue n) = (Ok i, q')" "pool_inv (B(unat i \<mapsto> b)) q' fl"
    "SIZE q' = SIZE (recv_queue n)" by (rule pool_add [OF p b0])
  obtain t' where "t_notify T NET_QUEUE_RECEIVE (nr_transport n) = (Ok (), t')" using ntf by metis
  with q' b show ?thesis
    by (cases "should_notify q'") (simp_all add: rx_size_ok_def receive_begin_def check_rx_buf_len_def add_and_notify_def notify_queue_def)
qed

lemma receive_begin_full:
  "pool_inv B (recv_queue n) [] \<Longrightarrow> rx_size_ok b \<Longrightarrow> receive_begin T H b n = (Err QueueFull, n)"
  by (simp add: rx_size_ok_def receive_begin_def check_rx_buf_len_def add_and_notify_def pool_full)

section \<open>Construction\<close>

lemma net_new_loop_ok:
  assumes "slots_ok bufs (recv_queue n) (map of_nat [i..<m])" "i + k = m" "m \<le> 65536" "m = SIZE (recv_queue n)"
    and bl: "NET_MIN_BUFFER_LEN \<le> 8 * (blen div 8)" "8 * (blen div 8) < 2 ^ 32"
    and ntf: "\<And>t. \<exists>t'. t_notify T NET_QUEUE_RECEIVE t = (Ok (), t')"
  shows "\<exists>bufs' n'. VirtIONet_new_loop T H blen k i (bufs, n) = (Ok (), (bufs', n')) \<and> slots_ok bufs' (recv_queue n') []
    \<and> SIZE (recv_queue n') = SIZE (recv_queue n)"
  using assms(1-4)
proof (induction k arbitrary: i bufs n)
  case (Suc k)
  have i: "i < m" "i < 65536" using Suc.prems by simp_all
  have fl: "map of_nat [i..<m] = (of_nat i :: u16) # map of_nat [i + 1..<m]" using i by (simp add: upt_conv_Cons)
  define rb where "rb = \<lparr>rx_buf = \<lparr>b_ptr = hal_box_ptr H (hal_log (recv_queue n)) (8 * (blen div 8)), b_data = replicate (8 * (blen div 8)) 0\<rparr>,
    rx_packet_len = 0, rx_idx = of_nat i, rx_legacy = legacy_header n\<rparr>"
  have p: "pool_inv (rx_table bufs) (recv_queue n) (of_nat i # map of_nat [i + 1..<m])"
    using Suc.prems(1) fl by (simp add: slots_ok_def)
  have rb_ok: "rx_size_ok (rx_buf rb)" using bl by (simp add: rb_def buf_len_def rx_size_ok_def)
  from receive_begin_ok [OF p rb_ok ntf, of H] obtain n' where n': "receive_begin T H (rx_buf rb) n = (Ok (of_nat i), n')"
    "pool_inv ((rx_table bufs)(unat (of_nat i :: u16) \<mapsto> rx_buf rb)) (recv_queue n') (map of_nat [i + 1..<m])"
    "SIZE (recv_queue n') = SIZE (recv_queue n)" by blast
  have ui: "unat (of_nat i :: u16) = i" using i(2) by (simp add: unat_of_nat take_bit_nat_eq_self)
  have "slots_ok (bufs[i := Some rb]) (recv_queue n') (map of_nat [i + 1..<m])"
    using slots_fill [OF Suc.prems(1) [unfolded fl] n'(2,3) rb_ok] by (simp add: ui) (simp add: rb_def)
  from Suc.IH [OF this] Suc.prems n'(3) obtain bufs' n'' where
    "VirtIONet_new_loop T H blen k (i + 1) (bufs[i := Some rb], n') = (Ok (), (bufs', n''))" "slots_ok bufs' (recv_queue n'') []"
    "SIZE (recv_queue n'') = SIZE (recv_queue n')" by auto
  moreover have "RxBuffer_new (hal_box_ptr H (hal_log (recv_queue n)) (8 * (blen div 8))) i blen (legacy_header n) = Ok rb"
    using i(2) by (simp add: RxBuffer_new_def rb_def)
  ultimately show ?case using n'(1,3) by simp
qed auto

lemma raw_recv_queue:
  assumes "VirtIONetRaw_new dbg fuel T H m ms mr s = (Ok inner, s')"
  shows "\<exists>ind ev s1 s2. VirtQueue_new T H mr m NET_QUEUE_RECEIVE ind ev s1 = (Ok (recv_queue inner), s2)"
  using assms by (cases s) (auto simp: VirtIONetRaw_new_def lift_then_Ok_iff and_then_Ok_iff Let_def, blast)

lemma VirtIONet_new_inv:
  assumes raw: "VirtIONetRaw_new dbg fuel T H m ms mr s = (Ok inner, (t, log))" and sz: "SIZE_OK m" "mem_ok m mr"
    and bl: "NET_MIN_BUFFER_LEN \<le> 8 * (blen div 8)" "8 * (blen div 8) < 2 ^ 32"
    and ntf: "\<And>t. \<exists>t'. t_notify T NET_QUEUE_RECEIVE t = (Ok (), t')"
  shows "\<exists>n s'. VirtIONet_new dbg fuel T H m ms mr blen s = (Ok n, s') \<and> net_inv n \<and> length (rx_buffers n) = m \<and> None \<notin> set (rx_buffers n)"
proof -
  from raw obtain ind ev s1 s2 where new: "VirtQueue_new T H mr m NET_QUEUE_RECEIVE ind ev s1 = (Ok (recv_queue inner), s2)"
    using raw_recv_queue by blast
  note p = pool_new [OF new sz]
  have m: "m \<le> 65535" using sz(1) by (simp add: SIZE_OK_def)
  have "rx_table (replicate m None) = (\<lambda>_. None)" by (auto simp: rx_table_def fun_eq_iff)
  then have "slots_ok (replicate m None) (recv_queue inner) (map of_nat [0..<m])"
    using p set_fresh_free(2) [OF m] by (auto simp: slots_ok_def fresh_free_def)
  moreover have "0 + m = m" "m \<le> 65536" "m = SIZE (recv_queue inner)" using m p(2) by simp_all
  ultimately obtain bufs' n' where
    l: "VirtIONet_new_loop T H blen m 0 (replicate m None, inner) = (Ok (), (bufs', n'))" "slots_ok bufs' (recv_queue n') []"
      "SIZE (recv_queue n') = SIZE (recv_queue inner)" using net_new_loop_ok [OF _ _ _ _ bl ntf, of "replicate m None" inner 0 m m H] by blast
  then have "length bufs' = m" using p(2) by (simp add: slots_ok_def)
  moreover have "None \<notin> set bufs'" by (rule slots_full [OF l(2)])
  ultimately show ?thesis using raw l by (auto simp: VirtIONet_new_def net_inv_def)
qed

section \<open>Receiving\<close>

lemma net_receive_slot:
  assumes s: "slots_ok (rx_buffers n) (recv_queue (net_inner n)) fl" and pk: "poll_receive (net_inner n) = Some tok"
    and tok: "unat tok < SIZE (recv_queue (net_inner n))" and rb: "rx_buffers n ! unat tok = Some rb"
  shows "\<exists>b n'. net_receive H n =
      (let len = unat (ue_len (used_slot (recv_queue (net_inner n)))); hdr = net_hdr_size (legacy_header (net_inner n))
       in if len < hdr then Err IoError else Ok (rb\<lparr>rx_buf := b, rx_packet_len := len - hdr\<rparr>), n')
    \<and> slots_ok (rx_buffers n') (recv_queue (net_inner n')) (tok # fl) \<and> rx_buffers n' = (rx_buffers n)[unat tok := None]
    \<and> b_ptr b = b_ptr (rx_buf rb) \<and> buf_len b = buf_len (rx_buf rb)"
proof -
  let ?q = "recv_queue (net_inner n)"
  have l: "length (rx_buffers n) = SIZE ?q" "pool_inv (rx_table (rx_buffers n)) ?q fl" "tok \<notin> set fl" "rx_idx rb = tok"
    using s rb tok unfolding slots_ok_def by auto
  obtain b0 b q' where p: "rx_table (rx_buffers n) (unat tok) = Some b0"
    "VirtQueue_pop_used H tok [] [b0] ?q = (Ok (ue_len (used_slot ?q), [b]), q')"
    "buf_len b = buf_len b0" "b_ptr b = b_ptr b0" "pool_inv ((rx_table (rx_buffers n))(unat tok := None)) q' (tok # fl)" "SIZE q' = SIZE ?q"
    by (rule pool_pop [OF l(2) pk [unfolded poll_receive_def] tok l(3)])
  have b0: "b0 = rx_buf rb" using p(1) rb tok l(1) by (simp add: rx_table_def)
  define n' where "n' = n\<lparr>rx_buffers := (rx_buffers n)[unat tok := None], net_inner := (net_inner n)\<lparr>recv_queue := q'\<rparr>\<rparr>"
  have "slots_ok (rx_buffers n') (recv_queue (net_inner n')) (tok # fl)"
    using slots_empty [OF s tok p(5,6)] by (simp add: n'_def)
  moreover have "net_receive H n =
      (let len = unat (ue_len (used_slot ?q)); hdr = net_hdr_size (legacy_header (net_inner n))
       in if len < hdr then Err IoError else Ok (rb\<lparr>rx_buf := b, rx_packet_len := len - hdr\<rparr>), n')"
    using pk tok rb l(1,4) p(2) b0 by (simp add: net_receive_def receive_complete_def Let_def n'_def)
  ultimately show ?thesis using p(3,4) b0
    by (intro exI [of _ b] exI [of _ n']) (simp add: n'_def)
qed

lemma net_inv_device:
  "net_inv n \<Longrightarrow> vq_device (recv_queue (net_inner n)) q \<Longrightarrow> net_inv (n\<lparr>net_inner := (net_inner n)\<lparr>recv_queue := q\<rparr>\<rparr>)"
  using pool_device [of _ "recv_queue (net_inner n)" _ q] by (fastforce simp: net_inv_def slots_ok_def vq_device_def)

lemma net_recycle_ok:
  assumes inv: "net_inv n" and b: "rx_size_ok (rx_buf rb)"
    and ntf: "\<And>t. \<exists>t'. t_notify T NET_QUEUE_RECEIVE t = (Ok (), t')"
  shows "if None \<in> set (rx_buffers n)
    then \<exists>tok n'. recycle_rx_buffer T H rb n = (Ok (), n') \<and> net_inv n' \<and> unat tok < length (rx_buffers n) \<and> rx_buffers n ! unat tok = None
      \<and> rx_buffers n' = (rx_buffers n)[unat tok := Some (rb\<lparr>rx_idx := tok\<rparr>)]
    else recycle_rx_buffer T H rb n = (Err QueueFull, n)"
proof -
  from inv obtain fl where s: "slots_ok (rx_buffers n) (recv_queue (net_inner n)) fl" by (auto simp: net_inv_def)
  then have p: "pool_inv (rx_table (rx_buffers n)) (recv_queue (net_inner n)) fl" and l: "length (rx_buffers n) = SIZE (recv_queue (net_inner n))"
    by (simp_all add: slots_ok_def)
  show ?thesis
  proof (cases fl)
    case Nil
    have "None \<notin> set (rx_buffers n)" using s Nil slots_full by blast
    moreover have "recycle_rx_buffer T H rb n = (Err QueueFull, n)"
      using receive_begin_full [OF p [unfolded Nil] b, of T H] by (simp add: recycle_rx_buffer_def)
    ultimately show ?thesis by simp
  next
    case (Cons tok fl')
    from receive_begin_ok [OF p [unfolded Cons] b ntf, of H] obtain inner where r:
      "receive_begin T H (rx_buf rb) (net_inner n) = (Ok tok, inner)"
      "pool_inv ((rx_table (rx_buffers n))(unat tok \<mapsto> rx_buf rb)) (recv_queue inner) fl'" "SIZE (recv_queue inner) = SIZE (recv_queue (net_inner n))"
      by blast
    have tok: "unat tok < length (rx_buffers n)" "rx_buffers n ! unat tok = None"
      using pool_free(2) [OF p, of tok] s l Cons unfolding slots_ok_def by auto
    define n' where "n' = n\<lparr>net_inner := inner, rx_buffers := (rx_buffers n)[unat tok := Some (rb\<lparr>rx_idx := tok\<rparr>)]\<rparr>"
    have "net_inv n'" using slots_fill [OF s [unfolded Cons] r(2,3) b] by (auto simp: net_inv_def n'_def)
    moreover have "recycle_rx_buffer T H rb n = (Ok (), n')" using r(1) tok by (simp add: recycle_rx_buffer_def Let_def n'_def)
    moreover have "None \<in> set (rx_buffers n)" using tok by (metis nth_mem)
    ultimately show ?thesis using tok by (auto simp: n'_def)
  qed
qed

lemma net_receive_cases:
  assumes inv: "net_inv n" and q: "recv_queue (net_inner n) = q"
  shows "case peek_used q of
          None \<Rightarrow> net_receive H n = (Err NotReady, n)
        | Some tok \<Rightarrow>
            if \<not> unat tok < length (rx_buffers n) then fst (net_receive H n) = Panic
            else (case rx_buffers n ! unat tok of
                None \<Rightarrow> net_receive H n = (Err WrongToken, n)
              | Some rb \<Rightarrow> \<exists>b n'. net_receive H n = (if unat (ue_len (used_slot q)) < net_hdr_size (legacy_header (net_inner n)) then Err IoError
                      else Ok (rb\<lparr>rx_buf := b, rx_packet_len := unat (ue_len (used_slot q)) - net_hdr_size (legacy_header (net_inner n))\<rparr>), n')
                    \<and> net_inv n' \<and> rx_buffers n' = (rx_buffers n)[unat tok := None] \<and> rx_size_ok b
                    \<and> b_ptr b = b_ptr (rx_buf rb) \<and> buf_len b = buf_len (rx_buf rb))"
proof (cases "peek_used q")
  case None
  then show ?thesis using q by (simp add: net_receive_def poll_receive_def)
next
  case (Some tok)
  then have pk: "poll_receive (net_inner n) = Some tok" using q by (simp add: poll_receive_def)
  from inv obtain fl where s: "slots_ok (rx_buffers n) (recv_queue (net_inner n)) fl" by (auto simp: net_inv_def)
  then have l: "length (rx_buffers n) = SIZE (recv_queue (net_inner n))" by (simp add: slots_ok_def)
  show ?thesis
  proof (cases "unat tok < length (rx_buffers n)")
    case True
    show ?thesis
    proof (cases "rx_buffers n ! unat tok")
      case None
      then show ?thesis using pk True Some by (simp add: net_receive_def)
    next
      case (Some rb)
      have "unat tok < SIZE (recv_queue (net_inner n))" using True l by simp
      from net_receive_slot [OF s pk this Some, of H, unfolded q Let_def] obtain b n' where r:
        "net_receive H n = (if unat (ue_len (used_slot q)) < net_hdr_size (legacy_header (net_inner n)) then Err IoError
           else Ok (rb\<lparr>rx_buf := b, rx_packet_len := unat (ue_len (used_slot q)) - net_hdr_size (legacy_header (net_inner n))\<rparr>), n')"
        "slots_ok (rx_buffers n') (recv_queue (net_inner n')) (tok # fl)" "rx_buffers n' = (rx_buffers n)[unat tok := None]"
        "b_ptr b = b_ptr (rx_buf rb)" "buf_len b = buf_len (rx_buf rb)" by blast
      have "net_inv n'" using r(2) unfolding net_inv_def by blast
      moreover have "rx_size_ok b" using s Some True l r(5) by (auto simp: slots_ok_def rx_size_ok_def)
      ultimately have "\<exists>b n'. net_receive H n = (if unat (ue_len (used_slot q)) < net_hdr_size (legacy_header (net_inner n)) then Err IoError
           else Ok (rb\<lparr>rx_buf := b, rx_packet_len := unat (ue_len (used_slot q)) - net_hdr_size (legacy_header (net_inner n))\<rparr>), n')
          \<and> net_inv n' \<and> rx_buffers n' = (rx_buffers n)[unat tok := None] \<and> rx_size_ok b
          \<and> b_ptr b = b_ptr (rx_buf rb) \<and> buf_len b = buf_len (rx_buf rb)" using r(1,3-5) by blast
      then show ?thesis using Some True \<open>peek_used q = Some tok\<close> by (simp only: option.case simp_thms if_True not_True_eq_False if_False)
    qed
  qed (use pk Some in \<open>simp add: net_receive_def\<close>)
qed

text \<open>
  C37. The receive buffers of \<^verbatim>\<open>VirtIONet\<close>. The constructor leaves every buffer in flight under the token that is its
  index, if a buffer holds at least 1526 bytes after rounding down to whole words. From then on, whatever a
  device that keeps to the layout writes to the shared memory: \<^verbatim>\<open>receive\<close> fails with \<^verbatim>\<open>NotReady\<close> if no buffer
  was used, panics on a token out of range and fails with \<^verbatim>\<open>WrongToken\<close>, changing nothing, if no buffer is
  in flight under the token; otherwise its slot becomes empty, and it returns the same buffer with the length of the
  packet, or fails with \<^verbatim>\<open>IoError\<close> if the device reports less than a header. \<^verbatim>\<open>recycle_rx_buffer\<close> puts a buffer into an empty slot
  and in flight under that index, or fails with \<^verbatim>\<open>QueueFull\<close> if there is none. The invariant is kept by all of them.
\<close>

theorem net_receive_buffers:
  assumes ntf: "\<And>t. \<exists>t'. t_notify T NET_QUEUE_RECEIVE t = (Ok (), t')"
  shows "(VirtIONetRaw_new dbg fuel T H m ms mr s = (Ok inner, (t, log)) \<and> SIZE_OK m \<and> mem_ok m mr \<and>
      NET_MIN_BUFFER_LEN \<le> 8 * (blen div 8) \<and> 8 * (blen div 8) < 2 ^ 32 \<longrightarrow>
      (\<exists>n s'. VirtIONet_new dbg fuel T H m ms mr blen s = (Ok n, s') \<and> net_inv n \<and> length (rx_buffers n) = m \<and> None \<notin> set (rx_buffers n))) \<and>
    (net_inv n0 \<and> vq_device (recv_queue (net_inner n0)) q \<longrightarrow>
      (let n = n0\<lparr>net_inner := (net_inner n0)\<lparr>recv_queue := q\<rparr>\<rparr>; len = unat (ue_len (used_slot q));
           hdr = net_hdr_size (legacy_header (net_inner n0)) in
       (case peek_used q of
          None \<Rightarrow> net_receive H n = (Err NotReady, n)
        | Some tok \<Rightarrow>
            if \<not> unat tok < length (rx_buffers n0) then fst (net_receive H n) = Panic
            else (case rx_buffers n0 ! unat tok of
                None \<Rightarrow> net_receive H n = (Err WrongToken, n)
              | Some rb \<Rightarrow> \<exists>b n'. net_receive H n = (if len < hdr then Err IoError else Ok (rb\<lparr>rx_buf := b, rx_packet_len := len - hdr\<rparr>), n')
                    \<and> net_inv n' \<and> rx_buffers n' = (rx_buffers n0)[unat tok := None] \<and> rx_size_ok b
                    \<and> b_ptr b = b_ptr (rx_buf rb) \<and> buf_len b = buf_len (rx_buf rb))) \<and>
       (rx_size_ok (rx_buf rb) \<longrightarrow>
          (if None \<in> set (rx_buffers n0)
           then \<exists>tok n'. recycle_rx_buffer T H rb n = (Ok (), n') \<and> net_inv n' \<and> unat tok < length (rx_buffers n0)
              \<and> rx_buffers n0 ! unat tok = None \<and> rx_buffers n' = (rx_buffers n0)[unat tok := Some (rb\<lparr>rx_idx := tok\<rparr>)]
           else recycle_rx_buffer T H rb n = (Err QueueFull, n)))))"
proof -
  show ?thesis
  proof (intro conjI impI, goal_cases)
    case 1
    then show ?case using VirtIONet_new_inv [OF _ _ _ _ _ ntf] by blast
  next
    case 2
    let ?n = "n0\<lparr>net_inner := (net_inner n0)\<lparr>recv_queue := q\<rparr>\<rparr>"
    have n: "net_inv ?n" using 2 net_inv_device by blast
    have q: "recv_queue (net_inner ?n) = q" and e: "rx_buffers ?n = rx_buffers n0" "legacy_header (net_inner ?n) = legacy_header (net_inner n0)"
      by simp_all
    show ?case unfolding Let_def
      by (intro conjI impI, rule net_receive_cases [OF n q, unfolded e]) (rule net_recycle_ok [OF n _ ntf, unfolded e])
  qed
qed

lemma demo_net_raw:
  obtains inner log where "VirtIONetRaw_new True 1 demo_bus demo_hal 2 (demo_queue_mem 2) (demo_queue_mem 2) (0, []) = (Ok inner, (0, log))"
proof -
  have n: "2 \<in> {2, 8, 16, 32 :: nat}" by simp
  let ?D = "DmaAlloc 2 Both 0x1000 0x8000"
  obtain sq where sq: "VirtQueue_new demo_bus demo_hal (demo_queue_mem 2) 2 NET_QUEUE_TRANSMIT False False (0, []) = (Ok sq, (0, [?D]))"
    using demo_queue_new [OF n, of NET_QUEUE_TRANSMIT False False 0 "[]"] by auto
  obtain rq where rq: "VirtQueue_new demo_bus demo_hal (demo_queue_mem 2) 2 NET_QUEUE_RECEIVE False False (0, [?D]) = (Ok rq, (0, [?D, ?D]))"
    using demo_queue_new [OF n, of NET_QUEUE_RECEIVE False False 0 "[?D]"] by auto
  have c: "read_consistent 1 demo_bus (t_read_config_space demo_bus 0 6 1) 0 = (Ok (replicate 6 1), 0)"
    "read_config demo_bus 6 2 0 = ((Ok (from_le (replicate 2 1)), 0) :: u16 result \<times> nat)"
    by (simp_all add: demo_bus_def demo_transport_def read_config_def)
  show thesis by (rule that) (simp add: VirtIONetRaw_new_def demo_init c sq rq Let_def del: read_consistent.simps One_nat_def)
qed

theorem net_receive_buffers_witness:
  "\<exists>n rb n' n''. net_inv n \<and> net_receive demo_hal (n\<lparr>net_inner := (net_inner n)\<lparr>recv_queue := complete 1 100 (recv_queue (net_inner n))\<rparr>\<rparr>) = (Ok rb, n')
     \<and> net_inv n' \<and> recycle_rx_buffer demo_bus demo_hal rb n' = (Ok (), n'') \<and> net_inv n''"
proof -
  obtain inner log where raw: "VirtIONetRaw_new True 1 demo_bus demo_hal 2 (demo_queue_mem 2) (demo_queue_mem 2) (0, []) = (Ok inner, (0, log))"
    by (rule demo_net_raw)
  note T = net_receive_buffers [of demo_bus, OF demo_notify]
  have "SIZE_OK 2" "mem_ok 2 (demo_queue_mem 2)" "NET_MIN_BUFFER_LEN \<le> 8 * (1600 div 8)" "8 * (1600 div 8) < (2 ^ 32 :: nat)"
    using driver_SIZE_OK demo_queue_mem_ok by (simp_all add: NET_MIN_BUFFER_LEN_def)
  with raw T [THEN conjunct1, of True 1 demo_hal 2 "demo_queue_mem 2" "demo_queue_mem 2" "(0, [])" inner 0 log 1600] obtain n :: "nat net" where
    n: "net_inv n" "length (rx_buffers n) = 2" "None \<notin> set (rx_buffers n)" by blast
  let ?q = "complete 1 100 (recv_queue (net_inner n))"
  let ?n = "n\<lparr>net_inner := (net_inner n)\<lparr>recv_queue := ?q\<rparr>\<rparr>"
  have "SIZE_OK (SIZE (recv_queue (net_inner n)))" using n(1) by (auto simp: net_inv_def slots_ok_def dest: pool_SIZE_OK)
  note c = complete_props [OF this, of 1 100]
  obtain rb where rb: "rx_buffers n ! 1 = Some rb" using n(2,3) by (metis nth_mem not_None_eq one_less_numeral_iff semiring_norm(76))
  have hdr: "\<not> 100 < net_hdr_size x" for x by (simp add: net_hdr_size_def)
  have "net_inv n \<and> vq_device (recv_queue (net_inner n)) ?q" using n(1) c(1) by simp
  from net_receive_buffers [where T = demo_bus and H = demo_hal and ?n0.0 = n and q = ?q, OF demo_notify, THEN conjunct2, THEN mp, OF this,
      unfolded Let_def, THEN conjunct1] c(2,3) rb n(2) hdr obtain b n' where
    r: "net_receive demo_hal ?n = (Ok (rb\<lparr>rx_buf := b, rx_packet_len := 100 - net_hdr_size (legacy_header (net_inner n))\<rparr>), n')"
    "net_inv n'" "rx_buffers n' = (rx_buffers n)[1 := None]" "rx_size_ok b" by auto
  define rb' where "rb' = rb\<lparr>rx_buf := b, rx_packet_len := 100 - net_hdr_size (legacy_header (net_inner n))\<rparr>"
  have dev: "vq_device (recv_queue (net_inner n')) (recv_queue (net_inner n'))"
    unfolding vq_device_def using r(2)
    by (intro exI [of _ "mem (recv_queue (net_inner n'))"]) (auto simp: net_inv_def slots_ok_def pool_inv_def vq_inv_def)
  have e: "None \<in> set (rx_buffers n')" "rx_size_ok (rx_buf rb')" using r(3,4) n(2) by (simp_all add: rb'_def set_update_memI)
  have "net_inv n' \<and> vq_device (recv_queue (net_inner n')) (recv_queue (net_inner n'))" using r(2) dev by simp
  from net_receive_buffers [where T = demo_bus and H = demo_hal and ?n0.0 = n' and q = "recv_queue (net_inner n')" and rb = rb', OF demo_notify,
      THEN conjunct2, THEN mp, OF this, unfolded Let_def, THEN conjunct2] e
  obtain n'' where
    "recycle_rx_buffer demo_bus demo_hal rb' n' = (Ok (), n'')" "net_inv n''" by auto
  with r n(1) show ?thesis unfolding rb'_def by blast
qed

end
