(* ===== verification/Input.thy ===== *)
theory Input
  imports Receive_Pool
begin


text \<open>
  The driver for input devices (src/src/device/input.rs). The events of \<^verbatim>\<open>event_buf\<close> are buffers of eight bytes at
  consecutive addresses. \<^verbatim>\<open>String::from_utf8\<close> is validation of the bytes; a \<^verbatim>\<open>String\<close> is its bytes. Property: a pending
  event is the one the device wrote, and all 32 buffers stay in flight.
\<close>

abbreviation (input) INPUT_QUEUE_EVENT :: u16 where "INPUT_QUEUE_EVENT \<equiv> 0"
abbreviation (input) INPUT_QUEUE_STATUS :: u16 where "INPUT_QUEUE_STATUS \<equiv> 1"
definition INPUT_QUEUE_SIZE :: nat where "INPUT_QUEUE_SIZE = 32"

abbreviation (input) INPUT_SUPPORTED_FEATURES :: u64 where
  "INPUT_SUPPORTED_FEATURES \<equiv> RING_EVENT_IDX OR RING_INDIRECT_DESC OR VERSION_1"

abbreviation (input) CONFIG_DATA_MAX_LENGTH :: nat where "CONFIG_DATA_MAX_LENGTH \<equiv> 128"

datatype InputConfigSelect = IdName | IdSerial | IdDevids | PropBits | EvBits | AbsInfoSel

fun InputConfigSelect_code :: "InputConfigSelect \<Rightarrow> u8" where
  "InputConfigSelect_code IdName = 0x01"
| "InputConfigSelect_code IdSerial = 0x02"
| "InputConfigSelect_code IdDevids = 0x03"
| "InputConfigSelect_code PropBits = 0x10"
| "InputConfigSelect_code EvBits = 0x11"
| "InputConfigSelect_code AbsInfoSel = 0x12"

record AbsInfo =
  ai_min :: u32
  ai_max :: u32
  ai_fuzz :: u32
  ai_flat :: u32
  ai_res :: u32

definition AbsInfo_of_bytes :: "bytes \<Rightarrow> AbsInfo" where
  "AbsInfo_of_bytes bs =
     \<lparr>ai_min = from_le (take 4 bs), ai_max = from_le (take 4 (drop 4 bs)), ai_fuzz = from_le (take 4 (drop 8 bs)),
      ai_flat = from_le (take 4 (drop 12 bs)), ai_res = from_le (take 4 (drop 16 bs))\<rparr>"

record DevIDs =
  bustype :: u16
  id_vendor :: u16
  id_product :: u16
  id_version :: u16

definition DevIDs_of_bytes :: "bytes \<Rightarrow> DevIDs" where
  "DevIDs_of_bytes bs =
     \<lparr>bustype = from_le (take 2 bs), id_vendor = from_le (take 2 (drop 2 bs)),
      id_product = from_le (take 2 (drop 4 bs)), id_version = from_le (take 2 (drop 6 bs))\<rparr>"

record InputEvent =
  event_type :: u16
  event_code :: u16
  event_value :: u32

definition InputEvent_of_bytes :: "bytes \<Rightarrow> InputEvent" where
  "InputEvent_of_bytes bs =
     \<lparr>event_type = from_le (take 2 bs), event_code = from_le (take 2 (drop 2 bs)), event_value = from_le (take 4 (drop 4 bs))\<rparr>"

section \<open>The driver\<close>

record 't inputdev =
  in_transport :: 't
  event_queue :: vq
  status_queue :: vq
  event_buf :: "buf list"

text \<open>\<^verbatim>\<open>Box::new([InputEvent::default(); QUEUE_SIZE])\<close>\<close>

definition new_event_buf :: "hal \<Rightarrow> hal_event list \<Rightarrow> buf list" where
  "new_event_buf H log =
     map (\<lambda>i. \<lparr>b_ptr = hal_box_ptr H log (8 * INPUT_QUEUE_SIZE) + of_nat (8 * i), b_data = replicate 8 0\<rparr>) [0..<INPUT_QUEUE_SIZE]"

fun add_events :: "hal \<Rightarrow> nat \<Rightarrow> buf list \<Rightarrow> vq \<Rightarrow> unit result \<times> vq" where
  "add_events H i [] q = (Ok (), q)"
| "add_events H i (event # events) q =
     and_then (VirtQueue_add H [] [event] q) (\<lambda>token q.
       if token \<noteq> of_nat i then (Panic, q) else add_events H (i + 1) events q)"

definition VirtIOInput_new ::
  "bool \<Rightarrow> 't transport \<Rightarrow> hal \<Rightarrow> shared \<Rightarrow> shared \<Rightarrow> 't \<times> hal_event list \<Rightarrow> 't inputdev result \<times> ('t \<times> hal_event list)"
where
  "VirtIOInput_new dbg T H me ms s =
     (case s of (t, log) \<Rightarrow>
     let events = new_event_buf H log in
     lift_then (begin_init dbg T Feature_all INPUT_SUPPORTED_FEATURES t) (\<lambda>t. (t, log)) (\<lambda>negotiated t.
     let ind = contains negotiated RING_INDIRECT_DESC; ev = contains negotiated RING_EVENT_IDX in
     and_then (VirtQueue_new T H me INPUT_QUEUE_SIZE INPUT_QUEUE_EVENT ind ev (t, log)) (\<lambda>eq s.
     and_then (VirtQueue_new T H ms INPUT_QUEUE_SIZE INPUT_QUEUE_STATUS ind ev s) (\<lambda>sq (t, log).
     lift_then (add_events H 0 events eq) (\<lambda>q. (t, log)) (\<lambda>_ eq.
     lift_then (notify_queue T INPUT_QUEUE_EVENT eq t) (\<lambda>t. (t, log)) (\<lambda>_ t.
     lift_then (finish_init T t) (\<lambda>t. (t, log)) (\<lambda>_ t.
       (Ok \<lparr>in_transport = t, event_queue = eq, status_queue = sq, event_buf = events\<rparr>, (t, log)))))))))"

definition input_ack_interrupt :: "'t transport \<Rightarrow> 't inputdev \<Rightarrow> u32 result \<times> 't inputdev" where
  "input_ack_interrupt T v = (case t_ack_interrupt T (in_transport v) of (r, t) \<Rightarrow> (r, v\<lparr>in_transport := t\<rparr>))"

text \<open>A failed \<^verbatim>\<open>pop_used\<close> or \<^verbatim>\<open>add\<close> makes it return \<^verbatim>\<open>None\<close>.\<close>

definition pop_pending_event :: "'t transport \<Rightarrow> hal \<Rightarrow> 't inputdev \<Rightarrow> InputEvent option result \<times> 't inputdev" where
  "pop_pending_event T H v =
     (case peek_used (event_queue v) of
        None \<Rightarrow> (Ok None, v)
      | Some token \<Rightarrow>
          if \<not> unat token < length (event_buf v) then (Panic, v)
          else case VirtQueue_pop_used H token [] [event_buf v ! unat token] (event_queue v) of
            (Ok (_, bs), q) \<Rightarrow>
              let event = hd bs;
                  v = v\<lparr>event_queue := q, event_buf := (event_buf v)[unat token := event]\<rparr>;
                  event_saved = InputEvent_of_bytes (b_data event)
              in (case VirtQueue_add H [] [event] q of
                    (Ok new_token, q) \<Rightarrow>
                      let v = v\<lparr>event_queue := q\<rparr>
                      in if new_token \<noteq> token then (Panic, v)
                         else lift_then (notify_queue T INPUT_QUEUE_EVENT q (in_transport v)) (\<lambda>t. v\<lparr>in_transport := t\<rparr>)
                                (\<lambda>_ t. (Ok (Some event_saved), v\<lparr>in_transport := t\<rparr>))
                  | (Err _, q) \<Rightarrow> (Ok None, v\<lparr>event_queue := q\<rparr>)
                  | (Panic, q) \<Rightarrow> (Panic, v\<lparr>event_queue := q\<rparr>)
                  | (Diverge, q) \<Rightarrow> (Diverge, v\<lparr>event_queue := q\<rparr>))
          | (Err _, q) \<Rightarrow> (Ok None, v\<lparr>event_queue := q\<rparr>)
          | (Panic, q) \<Rightarrow> (Panic, v\<lparr>event_queue := q\<rparr>)
          | (Diverge, q) \<Rightarrow> (Diverge, v\<lparr>event_queue := q\<rparr>))"

section \<open>Configuration queries\<close>

text \<open>The offsets in \<^verbatim>\<open>Config\<close> are 0 for \<^verbatim>\<open>select\<close>, 1 for \<^verbatim>\<open>subsel\<close>, 2 for \<^verbatim>\<open>size\<close> and 8 for \<^verbatim>\<open>data\<close>.\<close>

fun read_config_data :: "'t transport \<Rightarrow> nat \<Rightarrow> nat \<Rightarrow> bytes \<times> 't \<Rightarrow> unit result \<times> (bytes \<times> 't)" where
  "read_config_data T i 0 s = (Ok (), s)"
| "read_config_data T i (Suc n) (out, t) =
     lift_then (read_config T (8 + i) 1 t) (\<lambda>t. (out, t)) (\<lambda>b t. read_config_data T (i + 1) n (out[i := b], t))"

definition select_config :: "'t transport \<Rightarrow> InputConfigSelect \<Rightarrow> u8 \<Rightarrow> 't \<Rightarrow> u8 result \<times> 't" where
  "select_config T select subsel t =
     and_then (write_config T 0 1 (InputConfigSelect_code select) t) (\<lambda>_ t.
     and_then (write_config T 1 1 subsel t) (\<lambda>_ t.
       read_config T 2 1 t))"

definition query_config_select ::
  "'t transport \<Rightarrow> InputConfigSelect \<Rightarrow> u8 \<Rightarrow> bytes \<Rightarrow> 't inputdev \<Rightarrow> u8 result \<times> (bytes \<times> 't inputdev)"
where
  "query_config_select T select subsel out v =
     lift_then (select_config T select subsel (in_transport v)) (\<lambda>t. (out, v\<lparr>in_transport := t\<rparr>)) (\<lambda>size t.
     lift_then (read_config_data T 0 (min (unat size) (length out)) (out, t)) (\<lambda>(out, t). (out, v\<lparr>in_transport := t\<rparr>))
       (\<lambda>_ (out, t). (Ok size, (out, v\<lparr>in_transport := t\<rparr>))))"

definition query_config_select_alloc :: "'t transport \<Rightarrow> InputConfigSelect \<Rightarrow> u8 \<Rightarrow> 't inputdev \<Rightarrow> bytes result \<times> 't inputdev" where
  "query_config_select_alloc T select subsel v =
     lift_then (select_config T select subsel (in_transport v)) (\<lambda>t. v\<lparr>in_transport := t\<rparr>) (\<lambda>size t.
       if unat size > CONFIG_DATA_MAX_LENGTH then (Err IoError, v\<lparr>in_transport := t\<rparr>)
       else lift_then (read_config_data T 0 (unat size) (replicate (unat size) 0, t)) (\<lambda>(_, t). v\<lparr>in_transport := t\<rparr>)
              (\<lambda>_ (buf, t). (Ok buf, v\<lparr>in_transport := t\<rparr>)))"

text \<open>
  Well-formed UTF-8, as \<^verbatim>\<open>String::from_utf8\<close> checks it: the shortest encodings of the code points
  that are not surrogates.
\<close>

fun utf8_valid :: "bytes \<Rightarrow> bool" where
  "utf8_valid [] = True"
| "utf8_valid (a # bs) =
     (let cont = (\<lambda>b :: u8. 0x80 \<le> b \<and> b \<le> 0xBF) in
      if a \<le> 0x7F then utf8_valid bs
      else if 0xC2 \<le> a \<and> a \<le> 0xDF then
        (case bs of b # bs' \<Rightarrow> cont b \<and> utf8_valid bs' | _ \<Rightarrow> False)
      else if 0xE0 \<le> a \<and> a \<le> 0xEF then
        (case bs of b # c # bs' \<Rightarrow> (if a = 0xE0 then 0xA0 else 0x80) \<le> b \<and> b \<le> (if a = 0xED then 0x9F else 0xBF)
             \<and> cont c \<and> utf8_valid bs' | _ \<Rightarrow> False)
      else if 0xF0 \<le> a \<and> a \<le> 0xF4 then
        (case bs of b # c # d # bs' \<Rightarrow> (if a = 0xF0 then 0x90 else 0x80) \<le> b \<and> b \<le> (if a = 0xF4 then 0x8F else 0xBF)
             \<and> cont c \<and> cont d \<and> utf8_valid bs' | _ \<Rightarrow> False)
      else False)"

definition query_config_string :: "'t transport \<Rightarrow> InputConfigSelect \<Rightarrow> u8 \<Rightarrow> 't inputdev \<Rightarrow> bytes result \<times> 't inputdev" where
  "query_config_string T select subsel v =
     and_then (query_config_select_alloc T select subsel v) (\<lambda>bs v. if utf8_valid bs then (Ok bs, v) else (Err IoError, v))"

definition input_name :: "'t transport \<Rightarrow> 't inputdev \<Rightarrow> bytes result \<times> 't inputdev" where
  "input_name T v = query_config_string T IdName 0 v"

definition input_serial_number :: "'t transport \<Rightarrow> 't inputdev \<Rightarrow> bytes result \<times> 't inputdev" where
  "input_serial_number T v = query_config_string T IdSerial 0 v"

definition input_ids :: "'t transport \<Rightarrow> 't inputdev \<Rightarrow> DevIDs result \<times> 't inputdev" where
  "input_ids T v =
     lift_then (query_config_select T IdDevids 0 (replicate 8 0) v) snd (\<lambda>size (ids, v).
       if unat size = 8 then (Ok (DevIDs_of_bytes ids), v) else (Err IoError, v))"

definition input_prop_bits :: "'t transport \<Rightarrow> 't inputdev \<Rightarrow> bytes result \<times> 't inputdev" where
  "input_prop_bits T v = query_config_select_alloc T PropBits 0 v"

definition input_ev_bits :: "'t transport \<Rightarrow> u8 \<Rightarrow> 't inputdev \<Rightarrow> bytes result \<times> 't inputdev" where
  "input_ev_bits T ev_type v = query_config_select_alloc T EvBits ev_type v"

definition input_abs_info :: "'t transport \<Rightarrow> u8 \<Rightarrow> 't inputdev \<Rightarrow> AbsInfo result \<times> 't inputdev" where
  "input_abs_info T axis v =
     lift_then (query_config_select T AbsInfoSel axis (replicate 20 0) v) snd (\<lambda>size (info, v).
       if unat size = 20 then (Ok (AbsInfo_of_bytes info), v) else (Err IoError, v))"

definition VirtIOInput_drop :: "'t transport \<Rightarrow> 't inputdev \<Rightarrow> unit result \<times> 't" where
  "VirtIOInput_drop T v =
     and_then (t_queue_unset T INPUT_QUEUE_EVENT (in_transport v)) (\<lambda>_ t. t_queue_unset T INPUT_QUEUE_STATUS t)"

section \<open>Pending events\<close>

text \<open>The invariant: every event buffer is in flight, and the token of a buffer is its index.\<close>

definition input_inv :: "'t inputdev \<Rightarrow> bool" where
  "input_inv v \<longleftrightarrow> length (event_buf v) = INPUT_QUEUE_SIZE \<and> SIZE (event_queue v) = INPUT_QUEUE_SIZE \<and>
     (\<forall>b\<in>set (event_buf v). buf_len b = 8) \<and>
     pool_inv (buf_table (event_buf v)) (event_queue v) []"

lemma new_event_buf_props: "length (new_event_buf H log) = INPUT_QUEUE_SIZE" "\<forall>b\<in>set (new_event_buf H log). buf_len b = 8"
  by (auto simp: new_event_buf_def buf_len_def)

lemma add_events_ok:
  assumes "pool_inv B q (map of_nat [i..<n])" "i + length bufs = n" "n \<le> 65536" "\<forall>b\<in>set bufs. buf_len b = 8"
  shows "\<exists>q'. add_events H i bufs q = (Ok (), q') \<and> SIZE q' = SIZE q \<and>
    pool_inv (\<lambda>j. if i \<le> j \<and> j < n then Some (bufs ! (j - i)) else B j) q' []"
  using assms
proof (induction bufs arbitrary: i B q)
  case (Cons b bufs)
  then have i: "i < n" and bl: "0 < buf_len b" "buf_len b < 2 ^ 32" by simp_all
  then have fl: "map of_nat [i..<n] = (of_nat i :: u16) # map of_nat [i + 1..<n]" by (simp add: upt_conv_Cons)
  have ui: "unat (of_nat i :: u16) = i" using i Cons.prems(3) by (simp add: unat_of_nat take_bit_nat_eq_self)
  obtain q1 where a: "VirtQueue_add H [] [b] q = (Ok (of_nat i), q1)" "SIZE q1 = SIZE q"
    "pool_inv (B(i \<mapsto> b)) q1 (map of_nat [i + 1..<n])"
    by (rule pool_add [OF Cons.prems(1) [unfolded fl] bl, of H, unfolded ui])
  obtain q' where q': "add_events H (i + 1) bufs q1 = (Ok (), q')" "SIZE q' = SIZE q1"
    "pool_inv (\<lambda>j. if i + 1 \<le> j \<and> j < n then Some (bufs ! (j - (i + 1))) else (B(i \<mapsto> b)) j) q' []"
    using Cons.IH [OF a(3)] Cons.prems by auto
  have "pool_inv (\<lambda>j. if i \<le> j \<and> j < n then Some ((b # bufs) ! (j - i)) else B j) q' []"
    by (rule pool_table_cong [OF q'(3)]) (use i in \<open>auto simp: nth_Cons' split: if_splits\<close>)
  with a q' show ?case by simp
qed (auto elim!: pool_table_cong)

lemma VirtIOInput_new_inv:
  assumes "VirtIOInput_new dbg T H me ms s = (Ok v, s')" "mem_ok INPUT_QUEUE_SIZE me"
  shows "input_inv v"
proof -
  have sz: "SIZE_OK INPUT_QUEUE_SIZE" using driver_SIZE_OK by (simp add: INPUT_QUEUE_SIZE_def)
  obtain t log where s: "s = (t, log)" by fastforce
  from assms(1) obtain eq ind ev s1 s2 where new: "VirtQueue_new T H me INPUT_QUEUE_SIZE INPUT_QUEUE_EVENT ind ev s1 = (Ok eq, s2)"
    and add: "add_events H 0 (new_event_buf H log) eq = (Ok (), event_queue v)" and v: "event_buf v = new_event_buf H log"
    by (auto simp: s VirtIOInput_new_def lift_then_Ok_iff and_then_Ok_iff Let_def)
  note q = pool_new [OF new sz assms(2)]
  have "pool_inv (\<lambda>_. None) eq (map of_nat [0..<INPUT_QUEUE_SIZE])" using q(1) by (simp add: fresh_free_def)
  from add_events_ok [OF this, of "new_event_buf H log" H] add q(2) new_event_buf_props [of H log]
  have "SIZE (event_queue v) = INPUT_QUEUE_SIZE"
    "pool_inv (\<lambda>j. if 0 \<le> j \<and> j < INPUT_QUEUE_SIZE then Some (new_event_buf H log ! (j - 0)) else None) (event_queue v) []"
    by (auto simp: INPUT_QUEUE_SIZE_def)
  moreover have "(\<lambda>j. if 0 \<le> j \<and> j < INPUT_QUEUE_SIZE then Some (new_event_buf H log ! (j - 0)) else None) = buf_table (new_event_buf H log)"
    using new_event_buf_props(1) [of H log] by (simp add: buf_table_def fun_eq_iff)
  ultimately show ?thesis using new_event_buf_props [of H log] by (simp add: input_inv_def v)
qed

lemma pop_pending_event_ok:
  assumes inv: "input_inv v" and pk: "peek_used (event_queue v) = Some tok" and tok: "unat tok < INPUT_QUEUE_SIZE"
    and ntf: "\<And>t. \<exists>t'. t_notify T INPUT_QUEUE_EVENT t = (Ok (), t')"
  shows "\<exists>v' b. pop_pending_event T H v = (Ok (Some (InputEvent_of_bytes (b_data b))), v') \<and> input_inv v'
    \<and> event_buf v' = (event_buf v)[unat tok := b] \<and> b_ptr b = b_ptr (event_buf v ! unat tok)"
proof -
  have l: "length (event_buf v) = INPUT_QUEUE_SIZE" "SIZE (event_queue v) = INPUT_QUEUE_SIZE"
    "pool_inv (buf_table (event_buf v)) (event_queue v) []" "\<forall>b\<in>set (event_buf v). buf_len b = 8" using inv by (auto simp: input_inv_def)
  have "unat tok < SIZE (event_queue v)" "tok \<notin> set []" using tok l(2) by simp_all
  then obtain b b' q1 where p: "buf_table (event_buf v) (unat tok) = Some b"
    "VirtQueue_pop_used H tok [] [b] (event_queue v) = (Ok (ue_len (used_slot (event_queue v)), [b']), q1)"
    "buf_len b' = buf_len b" "b_ptr b' = b_ptr b" "pool_inv ((buf_table (event_buf v))(unat tok := None)) q1 [tok]" "SIZE q1 = SIZE (event_queue v)"
    by (rule pool_pop [OF l(3) pk, where x = None and H = H])
  have b: "b = event_buf v ! unat tok" "buf_len b' = 8" using p(1,3) tok l(1,4) by (auto simp: buf_table_def)
  then have "0 < buf_len b'" "buf_len b' < 2 ^ 32" by simp_all
  then obtain q2 where a: "VirtQueue_add H [] [b'] q1 = (Ok tok, q2)" "SIZE q2 = SIZE q1"
    "pool_inv ((buf_table (event_buf v))(unat tok := None, unat tok \<mapsto> b')) q2 []"
    by (rule pool_add [OF p(5), where H = H])
  obtain t' where t': "t_notify T INPUT_QUEUE_EVENT (in_transport v) = (Ok (), t')" using ntf by metis
  define v' where "v' = v\<lparr>event_queue := q2, event_buf := (event_buf v)[unat tok := b'],
     in_transport := if should_notify q2 then t' else in_transport v\<rparr>"
  have "pool_inv (buf_table (event_buf v')) q2 []"
    using a(3) tok l(1) by (simp add: v'_def buf_table_update)
  then have "input_inv v'"
    using l p(6) a(2) b(2) by (auto simp: input_inv_def v'_def dest!: set_update_subset_insert [THEN subsetD])
  moreover have "pop_pending_event T H v = (Ok (Some (InputEvent_of_bytes (b_data b'))), v')"
    using pk tok l(1) p(2) a(1) t' b(1) by (simp add: pop_pending_event_def notify_queue_def v'_def Let_def)
  ultimately show ?thesis using p(4) b(1)
    by (intro exI [of _ v'] exI [of _ b']) (simp add: v'_def)
qed

lemma input_inv_device: "input_inv v \<Longrightarrow> vq_device (event_queue v) q \<Longrightarrow> input_inv (v\<lparr>event_queue := q\<rparr>)"
  using pool_device [of _ "event_queue v" "[]" q] by (auto simp: input_inv_def vq_device_def)

text \<open>
  C38. Pending input events. A driver that was constructed has all its event buffers in flight. Whatever a device
  that keeps to the layout writes to the shared memory, \<^verbatim>\<open>pop_pending_event\<close> returns \<^verbatim>\<open>None\<close> and changes nothing if no
  buffer was used; if the used token is in range, it returns the event in the buffer with that token, the other
  buffers are unchanged, the assertion on the token of the buffer that is queued again does not fail, and all
  buffers are in flight again. A token out of range makes it panic.
\<close>

theorem input_events:
  assumes ntf: "\<And>t. \<exists>t'. t_notify T INPUT_QUEUE_EVENT t = (Ok (), t')"
  shows "(VirtIOInput_new dbg T H me ms s = (Ok vn, s') \<and> mem_ok INPUT_QUEUE_SIZE me \<longrightarrow> input_inv vn) \<and>
    (input_inv v0 \<and> vq_device (event_queue v0) q \<longrightarrow>
      (let v = v0\<lparr>event_queue := q\<rparr> in
       case peek_used q of
         None \<Rightarrow> pop_pending_event T H v = (Ok None, v)
       | Some tok \<Rightarrow>
           if unat tok < INPUT_QUEUE_SIZE
           then \<exists>v' b. pop_pending_event T H v = (Ok (Some (InputEvent_of_bytes (b_data b))), v') \<and> input_inv v'
              \<and> event_buf v' = (event_buf v0)[unat tok := b] \<and> b_ptr b = b_ptr (event_buf v0 ! unat tok)
           else fst (pop_pending_event T H v) = Panic))"
proof -
  have "case peek_used q of
         None \<Rightarrow> pop_pending_event T H v = (Ok None, v)
       | Some tok \<Rightarrow>
           if unat tok < INPUT_QUEUE_SIZE
           then \<exists>v' b. pop_pending_event T H v = (Ok (Some (InputEvent_of_bytes (b_data b))), v') \<and> input_inv v'
              \<and> event_buf v' = (event_buf v0)[unat tok := b] \<and> b_ptr b = b_ptr (event_buf v0 ! unat tok)
           else fst (pop_pending_event T H v) = Panic"
    if "input_inv v0" "vq_device (event_queue v0) q" "v = v0\<lparr>event_queue := q\<rparr>" for v
  proof (cases "peek_used q")
    case None
    then show ?thesis using that(3) by (simp add: pop_pending_event_def)
  next
    case (Some tok)
    have inv: "input_inv v" using input_inv_device [OF that(1,2)] that(3) by simp
    show ?thesis
    proof (cases "unat tok < INPUT_QUEUE_SIZE")
      case True
      from pop_pending_event_ok [OF inv _ True ntf, of H] Some that(3) show ?thesis using True by auto
    next
      case False
      then show ?thesis using Some that(3) inv by (simp add: pop_pending_event_def input_inv_def)
    qed
  qed
  then show ?thesis using VirtIOInput_new_inv by (simp add: Let_def) blast
qed

lemma demo_input: "\<exists>v s'. VirtIOInput_new True demo_bus demo_hal (demo_queue_mem 32) (demo_queue_mem 32) (0, []) = (Ok v, s')"
proof -
  have n: "INPUT_QUEUE_SIZE \<in> {2, 8, 16, 32}" by (simp add: INPUT_QUEUE_SIZE_def)
  let ?D = "DmaAlloc 2 Both 0x1000 0x8000"
  obtain eq where eq: "VirtQueue_new demo_bus demo_hal (demo_queue_mem INPUT_QUEUE_SIZE) INPUT_QUEUE_SIZE INPUT_QUEUE_EVENT False False (0, [])
      = (Ok eq, (0, [?D]))" using demo_queue_new [OF n, of INPUT_QUEUE_EVENT False False 0 "[]"] by auto
  obtain sq where sq: "VirtQueue_new demo_bus demo_hal (demo_queue_mem INPUT_QUEUE_SIZE) INPUT_QUEUE_SIZE INPUT_QUEUE_STATUS False False (0, [?D])
      = (Ok sq, (0, [?D, ?D]))" using demo_queue_new [OF n, of INPUT_QUEUE_STATUS False False 0 "[?D]"] by auto
  note q = pool_new [OF eq driver_SIZE_OK [OF n] demo_queue_mem_ok]
  obtain q' where q': "add_events demo_hal 0 (new_event_buf demo_hal []) eq = (Ok (), q')"
    using add_events_ok [of "\<lambda>_. None" eq 0 INPUT_QUEUE_SIZE "new_event_buf demo_hal []" demo_hal] q(1) new_event_buf_props [of demo_hal "[]"]
    by (auto simp: fresh_free_def INPUT_QUEUE_SIZE_def)
  have "\<exists>v s'. VirtIOInput_new True demo_bus demo_hal (demo_queue_mem INPUT_QUEUE_SIZE) (demo_queue_mem INPUT_QUEUE_SIZE) (0, []) = (Ok v, s')"
    using demo_notify [of INPUT_QUEUE_EVENT 0]
    by (auto simp: VirtIOInput_new_def demo_init eq sq q' Let_def notify_queue_def)
  then show ?thesis by (simp add: INPUT_QUEUE_SIZE_def)
qed

theorem input_events_witness:
  "\<exists>v e v'. input_inv v \<and> pop_pending_event demo_bus demo_hal (v\<lparr>event_queue := complete 5 8 (event_queue v)\<rparr>) = (Ok (Some e), v')
     \<and> input_inv v'"
proof -
  obtain v s' where v: "VirtIOInput_new True demo_bus demo_hal (demo_queue_mem 32) (demo_queue_mem 32) (0, []) = (Ok v, s')"
    using demo_input by blast
  note ev = input_events [of demo_bus True demo_hal "demo_queue_mem 32" "demo_queue_mem 32" "(0, [])" v s' v "complete 5 8 (event_queue v)", OF demo_notify]
  have inv: "input_inv v" using ev v demo_queue_mem_ok [of 32] by (simp add: INPUT_QUEUE_SIZE_def)
  then have "SIZE_OK (SIZE (event_queue v))" by (auto simp: input_inv_def dest: pool_SIZE_OK)
  note c = complete_props [OF this, of 5 8]
  have "unat (5 :: u16) < INPUT_QUEUE_SIZE" by (simp add: INPUT_QUEUE_SIZE_def)
  then show ?thesis using ev inv c(1,2) by (simp add: Let_def) blast
qed

end
