(* ===== verification/Rng.thy ===== *)
theory Rng
  imports Driver_Queue
begin


text \<open>The driver for entropy devices (src/src/device/rng.rs).\<close>

abbreviation (input) RNG_QUEUE_IDX :: u16 where "RNG_QUEUE_IDX \<equiv> 0"
abbreviation (input) RNG_QUEUE_SIZE :: nat where "RNG_QUEUE_SIZE \<equiv> 8"

abbreviation (input) RNG_SUPPORTED_FEATURES :: u64 where
  "RNG_SUPPORTED_FEATURES \<equiv> RING_INDIRECT_DESC OR RING_EVENT_IDX OR VERSION_1"

record 't rng =
  rng_transport :: 't
  rng_queue :: vq

definition VirtIORng_new ::
  "bool \<Rightarrow> 't transport \<Rightarrow> hal \<Rightarrow> shared \<Rightarrow> 't \<times> hal_event list \<Rightarrow> 't rng result \<times> ('t \<times> hal_event list)"
where
  "VirtIORng_new dbg T H m s =
     (case s of (t, log) \<Rightarrow>
     lift_then (begin_init dbg T Feature_all RNG_SUPPORTED_FEATURES t) (\<lambda>t. (t, log)) (\<lambda>feat t.
     and_then (VirtQueue_new T H m RNG_QUEUE_SIZE RNG_QUEUE_IDX (contains feat RING_INDIRECT_DESC) (contains feat RING_EVENT_IDX) (t, log))
       (\<lambda>q (t, log).
     lift_then (finish_init T t) (\<lambda>t. (t, log)) (\<lambda>_ t.
       (Ok \<lparr>rng_transport = t, rng_queue = q\<rparr>, (t, log))))))"

text \<open>Returns the number of bytes, and the contents of the caller's buffer afterwards.\<close>

definition request_entropy :: "(vq \<times> 't) req_fun \<Rightarrow> bytes \<Rightarrow> 't rng \<Rightarrow> nat result \<times> (bytes \<times> 't rng)" where
  "request_entropy R dst v =
     lift_then (R [] [dst] (rng_queue v, rng_transport v)) (\<lambda>(q, t). (dst, v\<lparr>rng_queue := q, rng_transport := t\<rparr>))
       (\<lambda>(num, os) (q, t). (Ok (unat num), (os ! 0, v\<lparr>rng_queue := q, rng_transport := t\<rparr>)))"

definition rng_enable_interrupts :: "'t rng \<Rightarrow> 't rng" where
  "rng_enable_interrupts v = v\<lparr>rng_queue := set_dev_notify True (rng_queue v)\<rparr>"

definition rng_disable_interrupts :: "'t rng \<Rightarrow> 't rng" where
  "rng_disable_interrupts v = v\<lparr>rng_queue := set_dev_notify False (rng_queue v)\<rparr>"

definition rng_ack_interrupt :: "'t transport \<Rightarrow> 't rng \<Rightarrow> u32 result \<times> 't rng" where
  "rng_ack_interrupt T v = (case t_ack_interrupt T (rng_transport v) of (r, t) \<Rightarrow> (r, v\<lparr>rng_transport := t\<rparr>))"

definition VirtIORng_drop :: "'t transport \<Rightarrow> 't rng \<Rightarrow> unit result \<times> 't" where
  "VirtIORng_drop T v = t_queue_unset T RNG_QUEUE_IDX (rng_transport v)"

section \<open>Outcomes\<close>

text \<open>
  A request for entropy into a non-empty buffer never panics; when it is answered, the buffer has kept its
  length and the driver is ready for the next request.
\<close>

lemma request_entropy_answered:
  assumes "queue_ready E RNG_QUEUE_SIZE (rng_queue v, rng_transport v)" "0 < length dst" "length dst < 2 ^ 32"
  shows "answered (\<lambda>r (dst', v'). (\<exists>n. r = Ok n) \<and> length dst' = length dst \<and>
      queue_ready E RNG_QUEUE_SIZE (rng_queue v', rng_transport v')) (request_entropy (request E) dst v)"
  unfolding request_entropy_def
  by (rule bq.request_then [where n = RNG_QUEUE_SIZE, OF assms(1)])
    (use assms in \<open>auto simp: msg_ok_def answered_def map_eq_Cons_conv\<close>)

end
