(* ===== verification/Gpu.thy ===== *)
theory Gpu
  imports Driver_Queue
begin


text \<open>
  The driver for GPU devices (src/src/device/gpu.rs). The requests on the control queue and on the cursor queue
  are made with a request function on a queue and the transport. The messages are built as bytes, with
  the layout of the structs. \<open>gp_log\<close> is the history of the driver's own DMA allocations.
\<close>

section \<open>Messages\<close>

abbreviation (input) CMD_GET_DISPLAY_INFO :: u32 where "CMD_GET_DISPLAY_INFO \<equiv> 0x100"
abbreviation (input) CMD_RESOURCE_CREATE_2D :: u32 where "CMD_RESOURCE_CREATE_2D \<equiv> 0x101"
abbreviation (input) CMD_SET_SCANOUT :: u32 where "CMD_SET_SCANOUT \<equiv> 0x103"
abbreviation (input) CMD_RESOURCE_FLUSH :: u32 where "CMD_RESOURCE_FLUSH \<equiv> 0x104"
abbreviation (input) CMD_TRANSFER_TO_HOST_2D :: u32 where "CMD_TRANSFER_TO_HOST_2D \<equiv> 0x105"
abbreviation (input) CMD_RESOURCE_ATTACH_BACKING :: u32 where "CMD_RESOURCE_ATTACH_BACKING \<equiv> 0x106"
abbreviation (input) CMD_UPDATE_CURSOR :: u32 where "CMD_UPDATE_CURSOR \<equiv> 0x300"
abbreviation (input) CMD_MOVE_CURSOR :: u32 where "CMD_MOVE_CURSOR \<equiv> 0x301"
abbreviation (input) CMD_OK_NODATA :: u32 where "CMD_OK_NODATA \<equiv> 0x1100"
abbreviation (input) CMD_OK_DISPLAY_INFO :: u32 where "CMD_OK_DISPLAY_INFO \<equiv> 0x1101"

abbreviation (input) GPU_QUEUE_TRANSMIT :: u16 where "GPU_QUEUE_TRANSMIT \<equiv> 0"
abbreviation (input) GPU_QUEUE_CURSOR :: u16 where "GPU_QUEUE_CURSOR \<equiv> 1"
abbreviation (input) GPU_QUEUE_SIZE :: nat where "GPU_QUEUE_SIZE \<equiv> 2"
abbreviation (input) SCANOUT_ID :: u32 where "SCANOUT_ID \<equiv> 0"
abbreviation (input) RESOURCE_ID_FB :: u32 where "RESOURCE_ID_FB \<equiv> 0xbabe"
abbreviation (input) RESOURCE_ID_CURSOR :: u32 where "RESOURCE_ID_CURSOR \<equiv> 0xdade"

definition GPU_Feature_all :: u64 where
  "GPU_Feature_all = push_bit 0 1 OR push_bit 1 1 OR Feature_all"

record Rect =
  rc_x :: u32
  rc_y :: u32
  rc_width :: u32
  rc_height :: u32

abbreviation (input) CURSOR_RECT :: Rect where "CURSOR_RECT \<equiv> \<lparr>rc_x = 0, rc_y = 0, rc_width = 64, rc_height = 64\<rparr>"

definition Rect_as_bytes :: "Rect \<Rightarrow> bytes" where
  "Rect_as_bytes r = le_bytes 4 (rc_x r) @ le_bytes 4 (rc_y r) @ le_bytes 4 (rc_width r) @ le_bytes 4 (rc_height r)"

definition Rect_of_bytes :: "bytes \<Rightarrow> Rect" where
  "Rect_of_bytes bs =
     \<lparr>rc_x = from_le (take 4 bs), rc_y = from_le (take 4 (drop 4 bs)), rc_width = from_le (take 4 (drop 8 bs)),
      rc_height = from_le (take 4 (drop 12 bs))\<rparr>"

text \<open>The bytes of \<^verbatim>\<open>CtrlHeader::with_type(hdr_type)\<close>: type, flags, fence, context and padding.\<close>

definition with_type :: "u32 \<Rightarrow> bytes" where
  "with_type hdr_type = le_bytes 4 hdr_type @ le_bytes 4 (0 :: u32) @ le_bytes 8 (0 :: u64) @ le_bytes 4 (0 :: u32) @ le_bytes 4 (0 :: u32)"

text \<open>\<^verbatim>\<open>check_type\<close> on a response that starts with a header\<close>

definition check_type :: "bytes \<Rightarrow> u32 \<Rightarrow> unit result" where
  "check_type rsp expected = (if from_le (take 4 rsp) = expected then Ok () else Err IoError)"

record RespDisplayInfo =
  di_header :: bytes
  di_rect :: Rect
  di_enabled :: u32
  di_flags :: u32

definition RespDisplayInfo_of_bytes :: "bytes \<Rightarrow> RespDisplayInfo" where
  "RespDisplayInfo_of_bytes bs =
     \<lparr>di_header = take 24 bs, di_rect = Rect_of_bytes (take 16 (drop 24 bs)), di_enabled = from_le (take 4 (drop 40 bs)),
      di_flags = from_le (take 4 (drop 44 bs))\<rparr>"

text \<open>The format \<^verbatim>\<open>B8G8R8A8UNORM\<close> is 1.\<close>

definition ResourceCreate2D_bytes :: "u32 \<Rightarrow> u32 \<Rightarrow> u32 \<Rightarrow> bytes" where
  "ResourceCreate2D_bytes resource_id width height =
     with_type CMD_RESOURCE_CREATE_2D @ le_bytes 4 resource_id @ le_bytes 4 (1 :: u32) @ le_bytes 4 width @ le_bytes 4 height"

definition ResourceAttachBacking_bytes :: "u32 \<Rightarrow> u64 \<Rightarrow> u32 \<Rightarrow> bytes" where
  "ResourceAttachBacking_bytes resource_id paddr len =
     with_type CMD_RESOURCE_ATTACH_BACKING @ le_bytes 4 resource_id @ le_bytes 4 (1 :: u32) @ le_bytes 8 paddr @ le_bytes 4 len
     @ le_bytes 4 (0 :: u32)"

definition SetScanout_bytes :: "Rect \<Rightarrow> u32 \<Rightarrow> u32 \<Rightarrow> bytes" where
  "SetScanout_bytes rect scanout_id resource_id =
     with_type CMD_SET_SCANOUT @ Rect_as_bytes rect @ le_bytes 4 scanout_id @ le_bytes 4 resource_id"

definition TransferToHost2D_bytes :: "Rect \<Rightarrow> u64 \<Rightarrow> u32 \<Rightarrow> bytes" where
  "TransferToHost2D_bytes rect offset resource_id =
     with_type CMD_TRANSFER_TO_HOST_2D @ Rect_as_bytes rect @ le_bytes 8 offset @ le_bytes 4 resource_id @ le_bytes 4 (0 :: u32)"

definition ResourceFlush_bytes :: "Rect \<Rightarrow> u32 \<Rightarrow> bytes" where
  "ResourceFlush_bytes rect resource_id =
     with_type CMD_RESOURCE_FLUSH @ Rect_as_bytes rect @ le_bytes 4 resource_id @ le_bytes 4 (0 :: u32)"

definition UpdateCursor_bytes :: "u32 \<Rightarrow> u32 \<Rightarrow> u32 \<Rightarrow> u32 \<Rightarrow> u32 \<Rightarrow> u32 \<Rightarrow> u32 \<Rightarrow> bytes" where
  "UpdateCursor_bytes cmd scanout_id pos_x pos_y resource_id hot_x hot_y =
     with_type cmd @ le_bytes 4 scanout_id @ le_bytes 4 pos_x @ le_bytes 4 pos_y @ le_bytes 4 (0 :: u32)
     @ le_bytes 4 resource_id @ le_bytes 4 hot_x @ le_bytes 4 hot_y @ le_bytes 4 (0 :: u32)"

section \<open>The driver\<close>

record 't gpu =
  gp_transport :: 't
  gp_rect :: "Rect option"
  frame_buffer_dma :: "dma option"
  cursor_buffer_dma :: "(dma \<times> bytes) option"
  control_queue :: vq
  cursor_queue :: vq
  queue_buf_send :: bytes
  queue_buf_recv :: bytes
  gp_log :: "hal_event list"

definition VirtIOGpu_new ::
  "bool \<Rightarrow> 't transport \<Rightarrow> hal \<Rightarrow> shared \<Rightarrow> shared \<Rightarrow> 't \<times> hal_event list \<Rightarrow> 't gpu result \<times> ('t \<times> hal_event list)"
where
  "VirtIOGpu_new dbg T H mc mk s =
     (case s of (t, log) \<Rightarrow>
     lift_then (begin_init dbg T GPU_Feature_all (RING_EVENT_IDX OR RING_INDIRECT_DESC OR VERSION_1) t) (\<lambda>t. (t, log)) (\<lambda>negotiated t.
     lift_then (read_config T 0 4 t) (\<lambda>t. (t, log)) (\<lambda>events_read :: u32. \<lambda>t.
     lift_then (read_config T 8 4 t) (\<lambda>t. (t, log)) (\<lambda>num_scanouts :: u32. \<lambda>t.
     let ind = contains negotiated RING_INDIRECT_DESC; ev = contains negotiated RING_EVENT_IDX in
     and_then (VirtQueue_new T H mc GPU_QUEUE_SIZE GPU_QUEUE_TRANSMIT ind ev (t, log)) (\<lambda>cq s.
     and_then (VirtQueue_new T H mk GPU_QUEUE_SIZE GPU_QUEUE_CURSOR ind ev s) (\<lambda>kq (t, log).
     lift_then (finish_init T t) (\<lambda>t. (t, log)) (\<lambda>_ t.
       (Ok \<lparr>gp_transport = t, gp_rect = None, frame_buffer_dma = None, cursor_buffer_dma = None, control_queue = cq,
            cursor_queue = kq, queue_buf_send = replicate PAGE_SIZE 0, queue_buf_recv = replicate PAGE_SIZE 0, gp_log = log\<rparr>,
        (t, log)))))))))"

definition gpu_ack_interrupt :: "'t transport \<Rightarrow> 't gpu \<Rightarrow> u32 result \<times> 't gpu" where
  "gpu_ack_interrupt T g = (case t_ack_interrupt T (gp_transport g) of (r, t) \<Rightarrow> (r, g\<lparr>gp_transport := t\<rparr>))"

text \<open>\<^verbatim>\<open>request\<close>, for a response of \<open>sz\<close> bytes: the request overwrites the start of the send buffer.\<close>

definition gpu_request :: "(vq \<times> 't) req_fun \<Rightarrow> bytes \<Rightarrow> nat \<Rightarrow> 't gpu \<Rightarrow> bytes result \<times> 't gpu" where
  "gpu_request R req sz g =
     (if length (queue_buf_send g) < length req then (Panic, g)
      else let send = req @ drop (length req) (queue_buf_send g); g = g\<lparr>queue_buf_send := send\<rparr>
      in lift_then (R [send] [queue_buf_recv g] (control_queue g, gp_transport g))
           (\<lambda>(q, t). g\<lparr>control_queue := q, gp_transport := t\<rparr>) (\<lambda>(_, os) (q, t).
           let g = g\<lparr>queue_buf_recv := os ! 0, control_queue := q, gp_transport := t\<rparr>
           in if length (os ! 0) < sz then (Panic, g) else (Ok (take sz (os ! 0)), g)))"

definition cursor_request :: "(vq \<times> 't) req_fun \<Rightarrow> bytes \<Rightarrow> 't gpu \<Rightarrow> unit result \<times> 't gpu" where
  "cursor_request R req g =
     (if length (queue_buf_send g) < length req then (Panic, g)
      else let send = req @ drop (length req) (queue_buf_send g); g = g\<lparr>queue_buf_send := send\<rparr>
      in lift_then (R [send] [] (cursor_queue g, gp_transport g))
           (\<lambda>(q, t). g\<lparr>cursor_queue := q, gp_transport := t\<rparr>) (\<lambda>_ (q, t). (Ok (), g\<lparr>cursor_queue := q, gp_transport := t\<rparr>)))"

definition get_display_info :: "(vq \<times> 't) req_fun \<Rightarrow> 't gpu \<Rightarrow> RespDisplayInfo result \<times> 't gpu" where
  "get_display_info R g =
     and_then (gpu_request R (with_type CMD_GET_DISPLAY_INFO) 48 g) (\<lambda>info g.
       (bind_ok (check_type info CMD_OK_DISPLAY_INFO) (\<lambda>_. Ok (RespDisplayInfo_of_bytes info)), g))"

definition resource_create_2d :: "(vq \<times> 't) req_fun \<Rightarrow> u32 \<Rightarrow> u32 \<Rightarrow> u32 \<Rightarrow> 't gpu \<Rightarrow> unit result \<times> 't gpu" where
  "resource_create_2d R resource_id width height g =
     and_then (gpu_request R (ResourceCreate2D_bytes resource_id width height) 24 g) (\<lambda>rsp g. (check_type rsp CMD_OK_NODATA, g))"

definition set_scanout :: "(vq \<times> 't) req_fun \<Rightarrow> Rect \<Rightarrow> u32 \<Rightarrow> u32 \<Rightarrow> 't gpu \<Rightarrow> unit result \<times> 't gpu" where
  "set_scanout R rect scanout_id resource_id g =
     and_then (gpu_request R (SetScanout_bytes rect scanout_id resource_id) 24 g) (\<lambda>rsp g. (check_type rsp CMD_OK_NODATA, g))"

definition resource_flush :: "(vq \<times> 't) req_fun \<Rightarrow> Rect \<Rightarrow> u32 \<Rightarrow> 't gpu \<Rightarrow> unit result \<times> 't gpu" where
  "resource_flush R rect resource_id g =
     and_then (gpu_request R (ResourceFlush_bytes rect resource_id) 24 g) (\<lambda>rsp g. (check_type rsp CMD_OK_NODATA, g))"

definition transfer_to_host_2d :: "(vq \<times> 't) req_fun \<Rightarrow> Rect \<Rightarrow> u64 \<Rightarrow> u32 \<Rightarrow> 't gpu \<Rightarrow> unit result \<times> 't gpu" where
  "transfer_to_host_2d R rect offset resource_id g =
     and_then (gpu_request R (TransferToHost2D_bytes rect offset resource_id) 24 g) (\<lambda>rsp g. (check_type rsp CMD_OK_NODATA, g))"

definition resource_attach_backing :: "(vq \<times> 't) req_fun \<Rightarrow> u32 \<Rightarrow> u64 \<Rightarrow> u32 \<Rightarrow> 't gpu \<Rightarrow> unit result \<times> 't gpu" where
  "resource_attach_backing R resource_id paddr len g =
     and_then (gpu_request R (ResourceAttachBacking_bytes resource_id paddr len) 24 g) (\<lambda>rsp g. (check_type rsp CMD_OK_NODATA, g))"

definition update_cursor ::
  "(vq \<times> 't) req_fun \<Rightarrow> u32 \<Rightarrow> u32 \<Rightarrow> u32 \<Rightarrow> u32 \<Rightarrow> u32 \<Rightarrow> u32 \<Rightarrow> bool \<Rightarrow> 't gpu \<Rightarrow> unit result \<times> 't gpu"
where
  "update_cursor R resource_id scanout_id pos_x pos_y hot_x hot_y is_move g =
     cursor_request R
       (UpdateCursor_bytes (if is_move then CMD_MOVE_CURSOR else CMD_UPDATE_CURSOR) scanout_id pos_x pos_y resource_id hot_x hot_y) g"

definition gpu_resolution :: "(vq \<times> 't) req_fun \<Rightarrow> 't gpu \<Rightarrow> (u32 \<times> u32) result \<times> 't gpu" where
  "gpu_resolution R g =
     and_then (get_display_info R g) (\<lambda>info g. (Ok (rc_width (di_rect info), rc_height (di_rect info)), g))"

text \<open>Allocating and dropping a DMA region; a region owned by a local variable is dropped on an early return.\<close>

definition gpu_dma_new :: "hal \<Rightarrow> nat \<Rightarrow> 't gpu \<Rightarrow> dma result \<times> 't gpu" where
  "gpu_dma_new H n g = (case Dma_new H (gp_log g) n DriverToDevice of (r, log) \<Rightarrow> (r, g\<lparr>gp_log := log\<rparr>))"

definition gpu_dma_drop :: "hal \<Rightarrow> dma \<Rightarrow> 'a result \<Rightarrow> 't gpu \<Rightarrow> 'a result \<times> 't gpu" where
  "gpu_dma_drop H d r g =
     (case Dma_drop H (gp_log g) d of (rd, log) \<Rightarrow> (if rd = Ok () then r else Panic, g\<lparr>gp_log := log\<rparr>))"

definition setup_framebuffer :: "hal \<Rightarrow> (vq \<times> 't) req_fun \<Rightarrow> 't gpu \<Rightarrow> (u64 \<times> nat) result \<times> 't gpu" where
  "setup_framebuffer H R g =
     and_then (get_display_info R g) (\<lambda>info g.
     let rect = di_rect info; g = g\<lparr>gp_rect := Some rect\<rparr> in
     and_then (resource_create_2d R RESOURCE_ID_FB (rc_width rect) (rc_height rect) g) (\<lambda>_ g.
     if 2 ^ 32 \<le> unat (rc_width rect) * unat (rc_height rect) \<or> 2 ^ 32 \<le> unat (rc_width rect) * unat (rc_height rect) * 4 then (Panic, g)
     else let sz = rc_width rect * rc_height rect * 4 in
     and_then (gpu_dma_new H (pages (unat sz)) g) (\<lambda>d g.
     then_or (resource_attach_backing R RESOURCE_ID_FB (dma_paddr d) sz g) (\<lambda>e g. gpu_dma_drop H d (Err e) g) (\<lambda>_ g.
     then_or (set_scanout R rect SCANOUT_ID RESOURCE_ID_FB g) (\<lambda>e g. gpu_dma_drop H d (Err e) g) (\<lambda>_ g.
     and_then (Dma_raw_slice d, g) (\<lambda>buf g.
     and_then (case frame_buffer_dma g of None \<Rightarrow> (Ok (), g) | Some old \<Rightarrow> gpu_dma_drop H old (Ok ()) g) (\<lambda>_ g.
       (Ok buf, g\<lparr>frame_buffer_dma := Some d\<rparr>))))))))"

definition gpu_flush :: "(vq \<times> 't) req_fun \<Rightarrow> 't gpu \<Rightarrow> unit result \<times> 't gpu" where
  "gpu_flush R g =
     and_then (ok_or NotReady (gp_rect g), g) (\<lambda>rect g.
     and_then (transfer_to_host_2d R rect 0 RESOURCE_ID_FB g) (\<lambda>_ g.
       resource_flush R rect RESOURCE_ID_FB g))"

text \<open>\<^verbatim>\<open>copy_from_slice\<close> panics if the image and the DMA region have different lengths.\<close>

definition setup_cursor :: "hal \<Rightarrow> (vq \<times> 't) req_fun \<Rightarrow> bytes \<Rightarrow> u32 \<Rightarrow> u32 \<Rightarrow> u32 \<Rightarrow> u32 \<Rightarrow> 't gpu \<Rightarrow> unit result \<times> 't gpu" where
  "setup_cursor H R cursor_image pos_x pos_y hot_x hot_y g =
     (let sz = rc_width CURSOR_RECT * rc_height CURSOR_RECT * 4 in
     if length cursor_image \<noteq> unat sz then (Err InvalidParam, g) else
     and_then (gpu_dma_new H (pages (unat sz)) g) (\<lambda>d g.
     let failed = (\<lambda>e g. gpu_dma_drop H d (Err e) g) in
     and_then (Dma_raw_slice d, g) (\<lambda>(_, n) g.
     if n \<noteq> length cursor_image then (Panic, g) else
     then_or (resource_create_2d R RESOURCE_ID_CURSOR (rc_width CURSOR_RECT) (rc_height CURSOR_RECT) g) failed (\<lambda>_ g.
     then_or (resource_attach_backing R RESOURCE_ID_CURSOR (dma_paddr d) sz g) failed (\<lambda>_ g.
     then_or (transfer_to_host_2d R CURSOR_RECT 0 RESOURCE_ID_CURSOR g) failed (\<lambda>_ g.
     then_or (update_cursor R RESOURCE_ID_CURSOR SCANOUT_ID pos_x pos_y hot_x hot_y False g) failed (\<lambda>_ g.
     and_then (case cursor_buffer_dma g of None \<Rightarrow> (Ok (), g) | Some (old, _) \<Rightarrow> gpu_dma_drop H old (Ok ()) g) (\<lambda>_ g.
       (Ok (), g\<lparr>cursor_buffer_dma := Some (d, cursor_image)\<rparr>)))))))))"

definition move_cursor :: "(vq \<times> 't) req_fun \<Rightarrow> u32 \<Rightarrow> u32 \<Rightarrow> 't gpu \<Rightarrow> unit result \<times> 't gpu" where
  "move_cursor R pos_x pos_y g = update_cursor R RESOURCE_ID_CURSOR SCANOUT_ID pos_x pos_y 0 0 True g"

definition VirtIOGpu_drop :: "'t transport \<Rightarrow> 't gpu \<Rightarrow> unit result \<times> 't" where
  "VirtIOGpu_drop T g =
     and_then (t_queue_unset T GPU_QUEUE_TRANSMIT (gp_transport g)) (\<lambda>_ t. t_queue_unset T GPU_QUEUE_CURSOR t)"

end
