(* ===== verification/Gpu_Props.thy ===== *)
theory Gpu_Props
  imports Gpu
begin


text \<open>
  Properties of the GPU driver: with a device that keeps to the protocol, setting up the frame buffer leaves the
  device scanning out the driver's memory, and flushing shows it.
\<close>

section \<open>The device\<close>

text \<open>
  What a two-dimensional GPU device keeps: the display's rectangle, the size of each resource, the memory attached
  to it, the resource that is scanned out, and the flushes it has performed.
\<close>

record gpu_view =
  gv_display :: Rect
  gv_resource :: "u32 \<Rightarrow> (u32 \<times> u32) option"
  gv_backing :: "u32 \<Rightarrow> (u64 \<times> u32) option"
  gv_scanout :: "(Rect \<times> u32) option"
  gv_shown :: "(Rect \<times> u32) list"

definition u32_at :: "nat \<Rightarrow> bytes \<Rightarrow> u32" where "u32_at i bs = from_le (take 4 (drop i bs))"
definition u64_at :: "nat \<Rightarrow> bytes \<Rightarrow> u64" where "u64_at i bs = from_le (take 8 (drop i bs))"

definition inside_resource :: "Rect \<Rightarrow> (u32 \<times> u32) option \<Rightarrow> bool" where
  "inside_resource r res = (case res of None \<Rightarrow> False
     | Some (w, h) \<Rightarrow> unat (rc_x r) + unat (rc_width r) \<le> unat w \<and> unat (rc_y r) + unat (rc_height r) \<le> unat h)"

text \<open>
  The answer to a command and the state afterwards, as the protocol documents it: the fields are read from the bytes at the
  documented offsets, and a command about a resource that does not exist, or a rectangle that is not inside it, is an error.
\<close>

definition gpu_step :: "bytes \<Rightarrow> gpu_view \<Rightarrow> u32 \<times> gpu_view" where
  "gpu_step c v =
     (let cmd = u32_at 0 c; err = (0x1200, v); rect = Rect_of_bytes (take 16 (drop 24 c)) in
      if cmd = 0x100 then (0x1101, v)
      else if cmd = 0x101 then
        (let rid = u32_at 24 c in
         if rid = 0 \<or> gv_resource v rid \<noteq> None then err
         else (0x1100, v\<lparr>gv_resource := (gv_resource v)(rid \<mapsto> (u32_at 32 c, u32_at 36 c))\<rparr>))
      else if cmd = 0x106 then
        (let rid = u32_at 24 c in
         if gv_resource v rid = None \<or> u32_at 28 c \<noteq> 1 then err
         else (0x1100, v\<lparr>gv_backing := (gv_backing v)(rid \<mapsto> (u64_at 32 c, u32_at 40 c))\<rparr>))
      else if cmd = 0x103 then
        (let rid = u32_at 44 c in
         if u32_at 40 c \<noteq> 0 \<or> \<not> inside_resource rect (gv_resource v rid) then err
         else (0x1100, v\<lparr>gv_scanout := Some (rect, rid)\<rparr>))
      else if cmd = 0x105 then
        (let rid = u32_at 48 c in
         if gv_backing v rid = None \<or> \<not> inside_resource rect (gv_resource v rid) then err else (0x1100, v))
      else if cmd = 0x104 then
        (let rid = u32_at 40 c in
         if \<not> inside_resource rect (gv_resource v rid) then err else (0x1100, v\<lparr>gv_shown := gv_shown v @ [(rect, rid)]\<rparr>))
      else err)"

text \<open>
  A device that answers each command on the control queue by that step; the answer to the query for the display has the
  display's rectangle after the header.
\<close>

definition gpu_device :: "(vq \<times> 't) req_fun \<Rightarrow> ('t \<Rightarrow> gpu_view) \<Rightarrow> bool" where
  "gpu_device R dev \<longleftrightarrow>
     (\<forall>send recv q t. length send = PAGE_SIZE \<and> length recv = PAGE_SIZE \<longrightarrow>
       (\<exists>len rsp q' t'. R [send] [recv] (q, t) = (Ok (len, [rsp]), (q', t')) \<and> length rsp = PAGE_SIZE
          \<and> gpu_step send (dev t) = (u32_at 0 rsp, dev t')
          \<and> (u32_at 0 send = 0x100 \<longrightarrow> Rect_of_bytes (take 16 (drop 24 rsp)) = gv_display (dev t))))"

section \<open>One request\<close>

definition gpu_bufs_ok :: "'t gpu \<Rightarrow> bool" where
  "gpu_bufs_ok g \<longleftrightarrow> length (queue_buf_send g) = PAGE_SIZE \<and> length (queue_buf_recv g) = PAGE_SIZE"

text \<open>What a request leaves of the driver's own state.\<close>

definition gpu_same :: "'t gpu \<Rightarrow> 't gpu \<Rightarrow> bool" where
  "gpu_same g g' \<longleftrightarrow> gp_rect g' = gp_rect g \<and> frame_buffer_dma g' = frame_buffer_dma g \<and> cursor_buffer_dma g' = cursor_buffer_dma g
     \<and> gp_log g' = gp_log g \<and> cursor_queue g' = cursor_queue g"

lemma gpu_request_device:
  assumes dev: "gpu_device R dev" and g: "gpu_bufs_ok g" and l: "length req \<le> PAGE_SIZE" "sz \<le> PAGE_SIZE"
  shows "\<exists>rsp g'. gpu_request R req sz g = (Ok (take sz rsp), g') \<and> gpu_bufs_ok g' \<and> gpu_same g g'
    \<and> gpu_step (req @ drop (length req) (queue_buf_send g)) (dev (gp_transport g)) = (u32_at 0 rsp, dev (gp_transport g'))
    \<and> (u32_at 0 (req @ drop (length req) (queue_buf_send g)) = 0x100 \<longrightarrow> Rect_of_bytes (take 16 (drop 24 rsp)) = gv_display (dev (gp_transport g)))"
proof -
  let ?s = "req @ drop (length req) (queue_buf_send g)"
  have "length ?s = PAGE_SIZE" "length (queue_buf_recv g) = PAGE_SIZE" using g l(1) by (simp_all add: gpu_bufs_ok_def)
  with dev [unfolded gpu_device_def] obtain len rsp q' t' where r:
    "R [?s] [queue_buf_recv g] (control_queue g, gp_transport g) = (Ok (len, [rsp]), (q', t'))" "length rsp = PAGE_SIZE"
    "gpu_step ?s (dev (gp_transport g)) = (u32_at 0 rsp, dev t')"
    "u32_at 0 ?s = 0x100 \<longrightarrow> Rect_of_bytes (take 16 (drop 24 rsp)) = gv_display (dev (gp_transport g))" by blast
  let ?g = "g\<lparr>queue_buf_send := ?s, queue_buf_recv := rsp, control_queue := q', gp_transport := t'\<rparr>"
  have "gpu_request R req sz g = (Ok (take sz rsp), ?g)"
    using r(1,2) g l by (simp add: gpu_request_def gpu_bufs_ok_def Let_def)
  moreover have "gpu_bufs_ok ?g" "gpu_same g ?g" using \<open>length ?s = PAGE_SIZE\<close> r(2) by (simp_all add: gpu_bufs_ok_def gpu_same_def)
  ultimately show ?thesis using r(3,4) by (intro exI [of _ rsp] exI [of _ ?g]) simp
qed

lemma length_gpu_bytes [simp]:
  "length (with_type c) = 24" "length (Rect_as_bytes r) = 16"
  "length (ResourceCreate2D_bytes i w h) = 40" "length (ResourceAttachBacking_bytes i p l) = 48" "length (SetScanout_bytes r s i) = 48"
  "length (TransferToHost2D_bytes r off i) = 56" "length (ResourceFlush_bytes r i) = 48"
  by (simp_all add: with_type_def Rect_as_bytes_def ResourceCreate2D_bytes_def ResourceAttachBacking_bytes_def SetScanout_bytes_def
      TransferToHost2D_bytes_def ResourceFlush_bytes_def)

lemma Rect_roundtrip [simp]: "Rect_of_bytes (Rect_as_bytes r) = r"
  by (simp add: Rect_of_bytes_def Rect_as_bytes_def)

text \<open>How the device reads each of the driver's messages, whatever follows it in the send buffer.\<close>

lemma gpu_step_messages:
  "gpu_step (with_type CMD_GET_DISPLAY_INFO @ x) v = (0x1101, v)"
  "gpu_step (ResourceCreate2D_bytes i w h @ x) v =
     (if i = 0 \<or> gv_resource v i \<noteq> None then (0x1200, v) else (0x1100, v\<lparr>gv_resource := (gv_resource v)(i \<mapsto> (w, h))\<rparr>))"
  "gpu_step (ResourceAttachBacking_bytes i p l @ x) v =
     (if gv_resource v i = None then (0x1200, v) else (0x1100, v\<lparr>gv_backing := (gv_backing v)(i \<mapsto> (p, l))\<rparr>))"
  "gpu_step (SetScanout_bytes r s i @ x) v =
     (if s \<noteq> 0 \<or> \<not> inside_resource r (gv_resource v i) then (0x1200, v) else (0x1100, v\<lparr>gv_scanout := Some (r, i)\<rparr>))"
  "gpu_step (TransferToHost2D_bytes r off i @ x) v =
     (if gv_backing v i = None \<or> \<not> inside_resource r (gv_resource v i) then (0x1200, v) else (0x1100, v))"
  "gpu_step (ResourceFlush_bytes r i @ x) v =
     (if \<not> inside_resource r (gv_resource v i) then (0x1200, v) else (0x1100, v\<lparr>gv_shown := gv_shown v @ [(r, i)]\<rparr>))"
  by (simp_all add: gpu_step_def u32_at_def u64_at_def with_type_def ResourceCreate2D_bytes_def ResourceAttachBacking_bytes_def
      SetScanout_bytes_def TransferToHost2D_bytes_def ResourceFlush_bytes_def Let_def)

lemma gpu_command_device:
  assumes dev: "gpu_device R dev" and g: "gpu_bufs_ok g" and l: "length req \<le> PAGE_SIZE"
    and step: "\<And>x. gpu_step (req @ x) (dev (gp_transport g)) = (0x1100, v')"
  shows "\<exists>g'. and_then (gpu_request R req 24 g) (\<lambda>rsp g. (check_type rsp CMD_OK_NODATA, g)) = (Ok (), g')
    \<and> gpu_bufs_ok g' \<and> gpu_same g g' \<and> dev (gp_transport g') = v'"
proof -
  have "24 \<le> PAGE_SIZE" by (simp add: PAGE_SIZE_def)
  from gpu_request_device [OF dev g l this] step obtain rsp g' where
    "gpu_request R req 24 g = (Ok (take 24 rsp), g')" "gpu_bufs_ok g'" "gpu_same g g'" "u32_at 0 rsp = 0x1100" "dev (gp_transport g') = v'"
    by auto
  then show ?thesis by (simp add: check_type_def u32_at_def)
qed

lemma get_display_device:
  assumes dev: "gpu_device R dev" and g: "gpu_bufs_ok g"
  shows "\<exists>info g'. get_display_info R g = (Ok info, g') \<and> di_rect info = gv_display (dev (gp_transport g))
    \<and> gpu_bufs_ok g' \<and> gpu_same g g' \<and> dev (gp_transport g') = dev (gp_transport g)"
proof -
  have l: "length (with_type CMD_GET_DISPLAY_INFO) \<le> PAGE_SIZE" "48 \<le> PAGE_SIZE" by (simp_all add: PAGE_SIZE_def)
  have "u32_at 0 (with_type CMD_GET_DISPLAY_INFO @ x) = 0x100" for x by (simp add: u32_at_def with_type_def)
  with gpu_request_device [OF dev g l] obtain rsp g' where
    "gpu_request R (with_type CMD_GET_DISPLAY_INFO) 48 g = (Ok (take 48 rsp), g')" "gpu_bufs_ok g'" "gpu_same g g'"
    "u32_at 0 rsp = 0x1101" "dev (gp_transport g') = dev (gp_transport g)"
    "Rect_of_bytes (take 16 (drop 24 rsp)) = gv_display (dev (gp_transport g))"
    by (auto simp: gpu_step_messages)
  then show ?thesis
    by (simp add: get_display_info_def check_type_def u32_at_def RespDisplayInfo_of_bytes_def drop_take)
qed

section \<open>Frame buffer\<close>

lemma attach_and_scan_out:
  assumes dev: "gpu_device R dev" and g: "gpu_bufs_ok g" and v: "dev (gp_transport g) = v" and res: "inside_resource rect (gv_resource v i)"
  shows "\<exists>g1 g2. resource_attach_backing R i p len g = (Ok (), g1) \<and> set_scanout R rect SCANOUT_ID i g1 = (Ok (), g2)
    \<and> gpu_bufs_ok g2 \<and> gpu_same g g2 \<and> dev (gp_transport g2) = v\<lparr>gv_backing := (gv_backing v)(i \<mapsto> (p, len)), gv_scanout := Some (rect, i)\<rparr>"
proof -
  let ?v = "v\<lparr>gv_backing := (gv_backing v)(i \<mapsto> (p, len))\<rparr>"
  have "gv_resource v i \<noteq> None" using res by (cases "gv_resource v i") (simp_all add: inside_resource_def)
  then have "\<exists>g1. resource_attach_backing R i p len g = (Ok (), g1) \<and> gpu_bufs_ok g1 \<and> gpu_same g g1 \<and> dev (gp_transport g1) = ?v"
    unfolding resource_attach_backing_def
    by (intro gpu_command_device [OF dev g]) (use v in \<open>simp_all add: PAGE_SIZE_def gpu_step_messages\<close>)
  then obtain g1 where g1: "resource_attach_backing R i p len g = (Ok (), g1)" "gpu_bufs_ok g1" "gpu_same g g1" "dev (gp_transport g1) = ?v"
    by blast
  have "\<exists>g2. set_scanout R rect SCANOUT_ID i g1 = (Ok (), g2) \<and> gpu_bufs_ok g2 \<and> gpu_same g1 g2
      \<and> dev (gp_transport g2) = ?v\<lparr>gv_scanout := Some (rect, i)\<rparr>"
    unfolding set_scanout_def
    by (intro gpu_command_device [OF dev g1(2)]) (use g1(4) res in \<open>simp_all add: PAGE_SIZE_def gpu_step_messages\<close>)
  then show ?thesis using g1 by (auto simp: gpu_same_def)
qed

lemma gpu_flush_shows:
  assumes dev: "gpu_device R dev" and g: "gpu_bufs_ok g" "gp_rect g = Some rect" and v: "dev (gp_transport g) = v"
    and res: "inside_resource rect (gv_resource v RESOURCE_ID_FB)" "gv_backing v RESOURCE_ID_FB \<noteq> None"
  shows "\<exists>g'. gpu_flush R g = (Ok (), g') \<and> dev (gp_transport g') = v\<lparr>gv_shown := gv_shown v @ [(rect, RESOURCE_ID_FB)]\<rparr>"
proof -
  have "\<exists>g1. transfer_to_host_2d R rect 0 RESOURCE_ID_FB g = (Ok (), g1) \<and> gpu_bufs_ok g1 \<and> gpu_same g g1 \<and> dev (gp_transport g1) = v"
    unfolding transfer_to_host_2d_def
    by (intro gpu_command_device [OF dev g(1)]) (use v res in \<open>simp_all add: PAGE_SIZE_def gpu_step_messages\<close>)
  then obtain g1 where g1: "transfer_to_host_2d R rect 0 RESOURCE_ID_FB g = (Ok (), g1)" "gpu_bufs_ok g1" "dev (gp_transport g1) = v" by blast
  have "\<exists>g2. resource_flush R rect RESOURCE_ID_FB g1 = (Ok (), g2) \<and> gpu_bufs_ok g2 \<and> gpu_same g1 g2
      \<and> dev (gp_transport g2) = v\<lparr>gv_shown := gv_shown v @ [(rect, RESOURCE_ID_FB)]\<rparr>"
    unfolding resource_flush_def
    by (intro gpu_command_device [OF dev g1(2)]) (use g1(3) res in \<open>simp_all add: PAGE_SIZE_def gpu_step_messages\<close>)
  then show ?thesis using g1(1) g(2) by (auto simp: gpu_flush_def)
qed

lemma image_size:
  assumes "unat w * unat h * 4 < 2 ^ 32"
  shows "unat (w * h * 4 :: u32) = unat w * unat h * 4"
proof -
  define k where "k = unat w * unat h"
  have "k < 2 ^ 32" using assms by (simp add: k_def [symmetric])
  then have "unat (w * h) = k" by (simp add: unat_word_ariths k_def)
  then show ?thesis using assms by (simp add: unat_word_ariths(2) [of "w * h"] flip: k_def)
qed

text \<open>The first two requests of \<^verbatim>\<open>setup_framebuffer\<close>: the display is known and the resource exists.\<close>

lemma display_and_create:
  assumes dev: "gpu_device R dev" and g: "gpu_bufs_ok g" and rect: "rect = gv_display (dev (gp_transport g))"
    and fresh: "gv_resource (dev (gp_transport g)) RESOURCE_ID_FB = None"
  obtains info g1 g2 where "get_display_info R g = (Ok info, g1)" "di_rect info = rect"
    "resource_create_2d R RESOURCE_ID_FB (rc_width rect) (rc_height rect) (g1\<lparr>gp_rect := Some rect\<rparr>) = (Ok (), g2)"
    "gpu_bufs_ok g2" "gp_log g2 = gp_log g" "frame_buffer_dma g2 = frame_buffer_dma g" "gp_rect g2 = Some rect"
    "dev (gp_transport g2) = (dev (gp_transport g))\<lparr>gv_resource :=
       (gv_resource (dev (gp_transport g)))(RESOURCE_ID_FB \<mapsto> (rc_width rect, rc_height rect))\<rparr>"
proof -
  obtain info g1 where g1: "get_display_info R g = (Ok info, g1)" "di_rect info = rect" "gpu_bufs_ok g1" "gpu_same g g1"
    "dev (gp_transport g1) = dev (gp_transport g)"
    using get_display_device [OF dev g] rect by auto
  define h where "h = g1\<lparr>gp_rect := Some rect\<rparr>"
  have h: "gpu_bufs_ok h" "dev (gp_transport h) = dev (gp_transport g)" using g1 by (simp_all add: h_def gpu_bufs_ok_def)
  have "\<exists>g2. resource_create_2d R RESOURCE_ID_FB (rc_width rect) (rc_height rect) h = (Ok (), g2) \<and> gpu_bufs_ok g2 \<and> gpu_same h g2
     \<and> dev (gp_transport g2) = (dev (gp_transport g))\<lparr>gv_resource :=
       (gv_resource (dev (gp_transport g)))(RESOURCE_ID_FB \<mapsto> (rc_width rect, rc_height rect))\<rparr>"
    unfolding resource_create_2d_def
    by (intro gpu_command_device [OF dev h(1)]) (use fresh h(2) in \<open>simp_all add: PAGE_SIZE_def gpu_step_messages\<close>)
  with g1 show thesis by (auto simp: h_def gpu_same_def intro: that)
qed

lemma setup_framebuffer_rest:
  assumes dev: "gpu_device R dev" and d: "get_display_info R g = (Ok info, g1)" "di_rect info = rect"
    and c: "resource_create_2d R RESOURCE_ID_FB (rc_width rect) (rc_height rect) (g1\<lparr>gp_rect := Some rect\<rparr>) = (Ok (), g2)"
    and g2: "gpu_bufs_ok g2" "frame_buffer_dma g2 = None" "dev (gp_transport g2) = v" "inside_resource rect (gv_resource v RESOURCE_ID_FB)"
    and n: "n = unat (rc_width rect) * unat (rc_height rect) * 4" "0 < n" "n < 2 ^ 32"
    and alloc: "hal_dma_alloc H (gp_log g2) (pages n) DriverToDevice = (paddr, vaddr)" "paddr \<noteq> 0" "vaddr \<noteq> 0"
  shows "\<exists>g'. setup_framebuffer H R g = (Ok (vaddr, pages n * PAGE_SIZE), g') \<and> gpu_bufs_ok g' \<and> gp_rect g' = gp_rect g2
    \<and> frame_buffer_dma g' = Some \<lparr>dma_paddr = paddr, dma_vaddr = vaddr, dma_pages = pages n\<rparr>
    \<and> dev (gp_transport g') = v\<lparr>gv_backing := (gv_backing v)(RESOURCE_ID_FB \<mapsto> (paddr, of_nat n)), gv_scanout := Some (rect, RESOURCE_ID_FB)\<rparr>"
proof -
  let ?w = "rc_width rect" and ?h = "rc_height rect" and ?F = RESOURCE_ID_FB
  let ?d = "\<lparr>dma_paddr = paddr, dma_vaddr = vaddr, dma_pages = pages n\<rparr>"
  have sz: "unat (?w * ?h * 4) = n" using image_size n by blast
  then have wn: "?w * ?h * 4 = of_nat n" by (metis of_nat_unat ucast_id)
  have sn: "unat (of_nat n :: u32) = n" using sz by (simp only: wn)
  define g3 where "g3 = g2\<lparr>gp_log := gp_log g2 @ [DmaAlloc (pages n) DriverToDevice paddr vaddr]\<rparr>"
  have dn: "gpu_dma_new H (pages n) g2 = (Ok ?d, g3)" using alloc by (simp add: gpu_dma_new_def Dma_new_def g3_def)
  have "gpu_bufs_ok g3" "dev (gp_transport g3) = v" using g2 by (simp_all add: g3_def gpu_bufs_ok_def)
  from attach_and_scan_out [OF dev this g2(4), of paddr "of_nat n"] obtain g4 g5 where
    a: "resource_attach_backing R ?F paddr (of_nat n) g3 = (Ok (), g4)" "set_scanout R rect SCANOUT_ID ?F g4 = (Ok (), g5)"
    "gpu_bufs_ok g5" "gpu_same g3 g5"
    "dev (gp_transport g5) = v\<lparr>gv_backing := (gv_backing v)(?F \<mapsto> (paddr, of_nat n)), gv_scanout := Some (rect, ?F)\<rparr>" by blast
  have "0 < pages n * PAGE_SIZE" by (rule less_le_trans [OF n(2) pages_bound(1)])
  then have raw: "Dma_raw_slice ?d = Ok (vaddr, pages n * PAGE_SIZE)"
    using alloc(3) unsigned_less [of vaddr] by (simp add: Dma_raw_slice_def Dma_vaddr_def not_le)
  have f5: "frame_buffer_dma g5 = None" "gp_rect g5 = gp_rect g2" using a(4) g2(2) by (simp_all add: gpu_same_def g3_def)
  have nov: "(2 ^ 32 \<le> unat ?w * unat ?h \<or> 2 ^ 32 \<le> unat ?w * unat ?h * 4) = False"
  proof -
    have a: "unat ?w * unat ?h * 4 < 2 ^ 32" using n by simp
    then have "unat ?w * unat ?h < 2 ^ 32" by linarith
    with a show ?thesis using leD by blast
  qed
  have "setup_framebuffer H R g = (Ok (vaddr, pages n * PAGE_SIZE), g5\<lparr>frame_buffer_dma := Some ?d\<rparr>)"
    by (simp only: setup_framebuffer_def Let_def d c and_then_simps nov if_False wn sn dn) (simp add: a(1,2) raw f5(1))
  then show ?thesis using a(3,5) f5(2) by (intro exI [of _ "g5\<lparr>frame_buffer_dma := Some ?d\<rparr>"]) (simp add: gpu_bufs_ok_def)
qed


text \<open>A device that keeps to the protocol, as a function on its own state.\<close>

definition demo_gpu_device :: "(vq \<times> gpu_view) req_fun" where
  "demo_gpu_device inputs outputs s =
     (case s of (q, v) \<Rightarrow> case gpu_step (inputs ! 0) v of (status, v') \<Rightarrow>
        (Ok (0, [le_bytes 4 status @ replicate 20 0 @ Rect_as_bytes (gv_display v) @ replicate 4056 0]), (q, v')))"

definition demo_gpu :: "gpu_view gpu" where
  "demo_gpu = \<lparr>gp_transport = \<lparr>gv_display = \<lparr>rc_x = 0, rc_y = 0, rc_width = 640, rc_height = 480\<rparr>, gv_resource = Map.empty,
       gv_backing = Map.empty, gv_scanout = None, gv_shown = []\<rparr>,
     gp_rect = None, frame_buffer_dma = None, cursor_buffer_dma = None, control_queue = demo_vq False False, cursor_queue = demo_vq False False,
     queue_buf_send = replicate PAGE_SIZE 0, queue_buf_recv = replicate PAGE_SIZE 0, gp_log = []\<rparr>"

lemma gpu_device_demo: "gpu_device demo_gpu_device (\<lambda>v. v)"
  unfolding gpu_device_def demo_gpu_device_def
  by (auto simp: PAGE_SIZE_def u32_at_def split: prod.split)


end
