(* ===== verification/Spec2Isabelle.thy ===== *)
theory Spec2Isabelle
  imports Virt_Queue_Props Device_Queue_Props Owning_Queue_Props Mmio_Props Vsock_Stream Vsock_Api Pci_Props Blk_Props Console_Props Net_Props Input Rng Gpu_Props
begin

text \<open>
  A verification development for a Rust crate of VirtIO drivers and devices (src/src). The crate has
  four layers. A \<^emph>\<open>transport\<close> (MMIO, PCI or a hypervisor's variant of PCI) reaches the registers of a device; a
  \<^emph>\<open>virtqueue\<close> exchanges buffers with it through shared memory; a \<^emph>\<open>driver\<close> for one kind of device speaks
  that device's protocol over its queues; and the platform below, the \<^emph>\<open>HAL\<close>, allocates and shares
  memory. The crate also has the device side of the virtqueue and of the socket device.

  \<^bold>\<open>How the code is modelled.\<close> A method is a function on an explicit state that returns its outcome with
  the state it leaves: \<^term>\<open>Ok\<close>, \<^term>\<open>Err\<close>, \<^term>\<open>Panic\<close> (a failed assertion, an index out of range, an
  overflow or an explicit panic), or \<^term>\<open>Diverge\<close> (a loop that waits is still waiting). Machine integers
  are words of their width; \<^verbatim>\<open>usize\<close> is a natural number where the code only counts or indexes.
  Everything outside the crate is a parameter: the HAL and the registers of a device answer from the
  history of calls, so they may answer anything; a device changes the memory it shares by an arbitrary
  function at every point where the code waits for it; a trait is a dictionary of its methods.

  \<^bold>\<open>Theories, in the order of their dependencies.\<close>
  \<^item> \<open>Prelude\<close>: outcomes and their sequencing, errors (lib.rs), little-endian bytes, list lemmas.
  \<^item> \<open>Hal\<close>: DMA regions, buffers and the log of shared memory (hal.rs).
  \<^item> \<open>Transport\<close>: the transport traits and initialisation (transport/mod.rs).
  \<^item> \<open>Queue_Layout\<close>: descriptors, rings and the two memory layouts (queue.rs).
  \<^item> \<open>Virt_Queue\<close>: every method of \<^verbatim>\<open>VirtQueue\<close> (queue.rs). \<open>Virt_Queue_Inv\<close> has the invariant: free list and
    chains in flight partition the descriptors; \<open>Virt_Queue_Spec\<close> that every operation keeps it;
    \<open>Virt_Queue_Props\<close> runs with an adversarial device, the ledger of shared memory and notification.
  \<^item> \<open>Device_Queue\<close>, \<open>Device_Queue_Props\<close>: the device side of a queue (queue.rs), what it receives from the
    driver's side, and malformed chains.
  \<^item> \<open>Owning_Queue\<close>, \<open>Owning_Queue_Props\<close>: the queue that owns its receive buffers (queue/owning.rs).
  \<^item> \<open>Mmio\<close>, \<open>Mmio_Props\<close>: the MMIO transport over a register file (transport/mmio.rs, volatile.rs).
  \<^item> \<open>Driver_Support\<close>: configuration fields (config.rs) and one blocking request of a driver.
  \<^item> \<open>Ring_Buffer\<close>, \<open>Vsock_Protocol\<close>, \<open>Vsock\<close>, \<open>Vsock_Manager\<close>, \<open>Vsock_Api\<close>: the socket device (device/socket);
    \<open>Vsock_Manager_Inv\<close> has the manager's invariant, \<open>Vsock_Stream\<close> two managers joined by a wire.
  \<^item> \<open>Pci_Bus\<close>, \<open>Pci_Bus_Props\<close>: configuration accesses, enumeration, capabilities and BARs of a PCI bus
    (transport/pci/bus.rs). \<open>Pci_Transport\<close> (transport/pci.rs), \<open>Hyp_Pci\<close> (transport/x86_64.rs and its
    submodules) and \<open>Some_Transport\<close> (transport/some.rs) are the transports on top of it; \<open>Pci_Props\<close> shows
    that their accesses stay in the mapped regions, that the walk over the capabilities ends, and
    which doorbell a notification rings.
  \<^item> \<open>Driver_Queue\<close>: the blocking request as an interface; the drivers' methods are written over it.
    \<open>Receive_Pool\<close>: receive queues whose requests are single buffers found by their token.
  \<^item> \<open>Blk\<close>, \<open>Blk_Props\<close> (device/blk.rs), \<open>Rng\<close> (device/rng.rs): requests never panic, and the block driver
    refines a disk. \<open>Console\<close>, \<open>Console_Props\<close> (device/console.rs, embedded_io.rs): the received stream.
    \<open>Net\<close>, \<open>Net_Props\<close> (device/net): the slots of the receive buffers. \<open>Input\<close> (device/input.rs): pending events.
    \<open>Gpu\<close>, \<open>Gpu_Props\<close> (device/gpu.rs): the frame buffer the device scans out.

  \<^bold>\<open>Interfaces.\<close> The contract between components is a locale, interpreted on the model's definitions:
  \<open>request_queue\<close> (a virtqueue as a drivers' client sees it), \<open>transport_total\<close> (a transport whose calls
  do not panic), \<open>byte_fifo\<close> (a bounded queue of bytes), \<open>socket_driver\<close> and \<open>manager_driver\<close> (what the
  connection manager needs of a socket), and \<open>blocking_queue\<close> (a queue on which a driver makes
  one request at a time).

  \<^bold>\<open>Bounds and fuel.\<close> A loop that waits for the device takes the list of the device's actions, one per
  iteration, and is \<^term>\<open>Diverge\<close> when the list is used up; a longer list only continues the run. The walk
  over a descriptor chain on the device side takes fuel; a well-formed chain needs at most the queue's
  size, and without a bound a cyclic chain is followed forever, which is proved. The walk over
  PCI capabilities takes fuel: a list without a cycle needs no more than its length, and a
  capability that links to itself, which the code does not detect, is proved to be followed forever. The wait
  for a PCI device to be reset takes its fuel in the same way.

  \<^bold>\<open>Not modelled.\<close> Weak memory: fences and volatile accesses are taken in program order, and the other
  side acts only where the code reads its shared memory or waits. Threads: calls are sequential, a
  lock is held for the call. Logging and \<^verbatim>\<open>Debug\<close>/\<^verbatim>\<open>Display\<close> output. Test code and the fakes used by tests
  (hal/fake.rs, transport/fake.rs, device/sound/fake.rs), and the programs under examples.
  The driver for sound devices (device/sound.rs) is left out: its control messages, stream parameters and PCM
  transfer loop are not modelled, only the queues and transports it is built on. When a constructor fails, the
  release of what it has built so far is not modelled, nor are the pixels in a frame buffer.
\<close>

end
